(* ===== verification/Prelude.thy ===== *)
theory Prelude
  imports Main
begin

text \<open>
  The library every component theory imports: the string functions of Go's package
  \<^verbatim>\<open>strings\<close> that the sources call, Go errors with wrapping, the concurrent map
  \<^verbatim>\<open>sync.Map\<close> and its contract, counting over the program counters of a fixed set of
  goroutines, and invariants of transition systems.

  A Go string is a sequence of bytes, and so is an Isabelle \<^typ>\<open>string\<close>. The functions that
  depend on letter case or on white space are the ASCII ones: Kubernetes names, kinds, label
  values, HTTP methods and header names are ASCII.
\<close>

named_theorems go_str \<open>facts on the string functions of package strings\<close>
named_theorems go_err \<open>facts on wrapped errors\<close>

section \<open>Package strings\<close>

definition HasPrefix :: "string \<Rightarrow> string \<Rightarrow> bool" where
  "HasPrefix s p \<longleftrightarrow> length p \<le> length s \<and> take (length p) s = p"

definition HasSuffix :: "string \<Rightarrow> string \<Rightarrow> bool" where
  "HasSuffix s t \<longleftrightarrow> length t \<le> length s \<and> drop (length s - length t) s = t"

definition TrimSuffix :: "string \<Rightarrow> string \<Rightarrow> string" where
  "TrimSuffix s t = (if HasSuffix s t then take (length s - length t) s else s)"

definition is_space :: "char \<Rightarrow> bool" where
  "is_space c \<longleftrightarrow> (of_char c :: nat) \<in> {9, 10, 11, 12, 13, 32}"

definition TrimRightWhile :: "(char \<Rightarrow> bool) \<Rightarrow> string \<Rightarrow> string" where
  "TrimRightWhile P s = rev (dropWhile P (rev s))"

definition TrimSpace :: "string \<Rightarrow> string" where
  "TrimSpace s = TrimRightWhile is_space (dropWhile is_space s)"

definition lower_char :: "char \<Rightarrow> char" where
  "lower_char c =
     (let n = (of_char c :: nat) in if 65 \<le> n \<and> n \<le> 90 then char_of (n + 32) else c)"

definition upper_char :: "char \<Rightarrow> char" where
  "upper_char c =
     (let n = (of_char c :: nat) in if 97 \<le> n \<and> n \<le> 122 then char_of (n - 32) else c)"

definition ToLower :: "string \<Rightarrow> string" where
  "ToLower s = map lower_char s"

definition EqualFold :: "string \<Rightarrow> string \<Rightarrow> bool" where
  "EqualFold s t \<longleftrightarrow> ToLower s = ToLower t"

fun Split :: "char \<Rightarrow> string \<Rightarrow> string list" where
  "Split c [] = [[]]"
| "Split c (x # xs) =
     (if x = c then [] # Split c xs
      else (case Split c xs of [] \<Rightarrow> [[x]] | y # ys \<Rightarrow> (x # y) # ys))"

fun Join :: "string \<Rightarrow> string list \<Rightarrow> string" where
  "Join sep [] = []"
| "Join sep [x] = x"
| "Join sep (x # y # ys) = x @ sep @ Join sep (y # ys)"

fun IndexByte :: "char \<Rightarrow> string \<Rightarrow> nat option" where
  "IndexByte c [] = None"
| "IndexByte c (x # xs) = (if x = c then Some 0 else map_option Suc (IndexByte c xs))"

text \<open>
  The comma-separated lists of the environment (\<^verbatim>\<open>WATCH_NAMESPACES\<close>, the Prometheus
  allowlist) are read by the same loop: split, trim, drop what is empty.
\<close>

definition split_trim :: "string \<Rightarrow> string list" where
  "split_trim raw = filter (\<lambda>t. t \<noteq> []) (map TrimSpace (Split (CHR '','') raw))"

lemma HasPrefix_append [go_str, simp]: "HasPrefix (p @ s) p"
  by (simp add: HasPrefix_def)

lemma HasPrefix_iff [go_str]: "HasPrefix s p \<longleftrightarrow> (\<exists>r. s = p @ r)"
  by (auto simp: HasPrefix_def) (metis append_take_drop_id)

lemma HasSuffix_append [go_str, simp]: "HasSuffix (s @ t) t"
  by (simp add: HasSuffix_def)

lemma HasSuffix_iff [go_str]: "HasSuffix s t \<longleftrightarrow> (\<exists>r. s = r @ t)"
  by (auto simp: HasSuffix_def) (metis append_take_drop_id)

lemma TrimRightWhile_length: "length (TrimRightWhile P s) \<le> length s"
  by (simp add: TrimRightWhile_def) (metis length_dropWhile_le length_rev)

lemma TrimRightWhile_prefix: "\<exists>r. s = TrimRightWhile P s @ r \<and> (\<forall>c \<in> set r. P c)"
proof -
  have "rev s = takeWhile P (rev s) @ dropWhile P (rev s)" by simp
  then have "rev (rev s) = rev (dropWhile P (rev s)) @ rev (takeWhile P (rev s))"
    by (metis rev_append)
  then have "s = TrimRightWhile P s @ rev (takeWhile P (rev s))"
    by (simp add: TrimRightWhile_def)
  moreover have "\<forall>c \<in> set (rev (takeWhile P (rev s))). P c"
    by (auto dest: set_takeWhileD)
  ultimately show ?thesis by blast
qed

lemma TrimRightWhile_id: "s = [] \<or> \<not> P (last s) \<Longrightarrow> TrimRightWhile P s = s"
  by (cases s rule: rev_cases) (auto simp: TrimRightWhile_def)

lemma TrimRightWhile_last: "TrimRightWhile P s \<noteq> [] \<Longrightarrow> \<not> P (last (TrimRightWhile P s))"
  using hd_dropWhile [of P "rev s"] by (auto simp: TrimRightWhile_def last_rev)

lemma Split_not_Nil [simp]: "Split c s \<noteq> []"
  by (induction s) (auto split: list.splits)

lemma Split_no_sep: "c \<notin> set s \<Longrightarrow> Split c s = [s]"
  by (induction s) auto

lemma Split_append: "c \<notin> set s \<Longrightarrow> Split c (s @ c # t) = s # Split c t"
  by (induction s) auto

lemma Join_Split: "Join [c] (Split c s) = s"
proof (induction s)
  case Nil
  then show ?case by simp
next
  case (Cons x s)
  obtain y ys where "Split c s = y # ys" by (cases "Split c s") auto
  with Cons show ?case by (cases ys) auto
qed

lemma Split_no_sep_in: "p \<in> set (Split c s) \<Longrightarrow> c \<notin> set p"
  by (induction s arbitrary: p) (auto split: if_splits list.splits)

lemma Join_Cons: "ys \<noteq> [] \<Longrightarrow> Join sep (x # ys) = x @ sep @ Join sep ys"
  by (cases ys) auto

lemma IndexByte_None: "IndexByte c s = None \<longleftrightarrow> c \<notin> set s"
  by (induction s) auto

lemma IndexByte_append: "c \<notin> set s \<Longrightarrow> IndexByte c (s @ c # t) = Some (length s)"
  by (induction s) auto

lemma EqualFold_refl [simp]: "EqualFold s s"
  by (simp add: EqualFold_def)

lemma EqualFold_sym: "EqualFold s t \<Longrightarrow> EqualFold t s"
  by (simp add: EqualFold_def)

lemma EqualFold_trans: "EqualFold s t \<Longrightarrow> EqualFold t u \<Longrightarrow> EqualFold s u"
  by (simp add: EqualFold_def)

lemma split_trim_nonempty: "t \<in> set (split_trim raw) \<Longrightarrow> t \<noteq> []"
  by (auto simp: split_trim_def)

section \<open>Errors\<close>

text \<open>
  An error value: \<^verbatim>\<open>errors.New\<close> and \<^verbatim>\<open>fmt.Errorf\<close> without \<^verbatim>\<open>%w\<close> are
  \<open>EMsg\<close>; \<^verbatim>\<open>fmt.Errorf\<close> with one \<^verbatim>\<open>%w\<close> is \<open>EWrap\<close>, with several
  (or \<^verbatim>\<open>errors.Join\<close>) \<open>EJoin\<close>; \<open>EStatus\<close> is an error of the API server
  with its reason, \<open>ECtx\<close> a context's error. Only the fixed text of a message is kept.
\<close>

datatype status_reason = NotFound | AlreadyExists | Conflict | NoMatch | OtherReason string

datatype ctx_err = DeadlineExceeded | Canceled

datatype go_error =
    EMsg string
  | EStatus status_reason
  | ECtx ctx_err
  | EWrap string go_error
  | EJoin string "go_error list"

text \<open>\<^verbatim>\<open>errors.Is\<close> and \<^verbatim>\<open>errors.As\<close> look through every wrapped error.\<close>

fun err_leaves :: "go_error \<Rightarrow> go_error list" where
  "err_leaves (EWrap _ e) = err_leaves e"
| "err_leaves (EJoin _ es) = concat (map err_leaves es)"
| "err_leaves e = [e]"

definition IsNotFound :: "go_error \<Rightarrow> bool" where
  "IsNotFound e \<longleftrightarrow> EStatus NotFound \<in> set (err_leaves e)"

definition IsNoMatchError :: "go_error \<Rightarrow> bool" where
  "IsNoMatchError e \<longleftrightarrow> EStatus NoMatch \<in> set (err_leaves e)"

definition IsDeadlineExceeded :: "go_error \<Rightarrow> bool" where
  "IsDeadlineExceeded e \<longleftrightarrow> ECtx DeadlineExceeded \<in> set (err_leaves e)"

lemma IsNotFound_simps [simp, go_err]:
  "IsNotFound (EWrap m e) = IsNotFound e"
  "IsNotFound (EStatus r) = (r = NotFound)"
  "IsNotFound (EMsg m) = False"
  by (auto simp: IsNotFound_def)

lemma IsNoMatchError_simps [simp, go_err]:
  "IsNoMatchError (EWrap m e) = IsNoMatchError e"
  "IsNoMatchError (EStatus r) = (r = NoMatch)"
  "IsNoMatchError (EMsg m) = False"
  by (auto simp: IsNoMatchError_def)

lemma IsDeadlineExceeded_simps [simp, go_err]:
  "IsDeadlineExceeded (EWrap m e) = IsDeadlineExceeded e"
  "IsDeadlineExceeded (ECtx c) = (c = DeadlineExceeded)"
  "IsDeadlineExceeded (EMsg m) = False"
  by (auto simp: IsDeadlineExceeded_def)

section \<open>sync.Map\<close>

text \<open>
  The operations of \<^verbatim>\<open>sync.Map\<close> the sources use, each one atomic. \<open>LoadOrStore\<close>
  returns the value now under the key and whether it was there before.
\<close>

type_synonym ('k, 'v) sync_map = "'k \<rightharpoonup> 'v"

definition sm_empty :: "('k, 'v) sync_map" where
  "sm_empty = Map.empty"

definition Load :: "('k, 'v) sync_map \<Rightarrow> 'k \<Rightarrow> 'v option" where
  "Load m k = m k"

definition Store :: "('k, 'v) sync_map \<Rightarrow> 'k \<Rightarrow> 'v \<Rightarrow> ('k, 'v) sync_map" where
  "Store m k v = m(k \<mapsto> v)"

definition Delete :: "('k, 'v) sync_map \<Rightarrow> 'k \<Rightarrow> ('k, 'v) sync_map" where
  "Delete m k = m(k := None)"

definition LoadOrStore :: "('k, 'v) sync_map \<Rightarrow> 'k \<Rightarrow> 'v \<Rightarrow> ('v \<times> bool) \<times> ('k, 'v) sync_map" where
  "LoadOrStore m k v = (case Load m k of Some old \<Rightarrow> ((old, True), m) | None \<Rightarrow> ((v, False), Store m k v))"

text \<open>The contract the clients rely on, over any representation of the map.\<close>

locale keyed_store =
  fixes empty :: 'm
    and load :: "'m \<Rightarrow> 'k \<Rightarrow> 'v option"
    and store :: "'m \<Rightarrow> 'k \<Rightarrow> 'v \<Rightarrow> 'm"
    and remove :: "'m \<Rightarrow> 'k \<Rightarrow> 'm"
  assumes load_empty: "load empty k = None"
    and load_store: "load (store m k v) k' = (if k' = k then Some v else load m k')"
    and load_remove: "load (remove m k) k' = (if k' = k then None else load m k')"
begin

lemma load_store_same: "load (store m k v) k = Some v"
  by (simp add: load_store)

lemma load_store_other: "k' \<noteq> k \<Longrightarrow> load (store m k v) k' = load m k'"
  by (simp add: load_store)

lemma load_remove_same: "load (remove m k) k = None"
  by (simp add: load_remove)

text \<open>Two updates of one key: the later one decides every later read.\<close>

lemma load_store_store: "load (store (store m k v) k v') k' = load (store m k v') k'"
  by (simp add: load_store)

lemma load_remove_store: "load (remove (store m k v) k) k' = load (remove m k) k'"
  by (simp add: load_store load_remove)

lemma load_store_swap:
  "k \<noteq> l \<Longrightarrow> load (store (store m k v) l u) k' = load (store (store m l u) k v) k'"
  by (simp add: load_store)

end

interpretation sm: keyed_store sm_empty Load Store Delete
  by unfold_locales (simp_all add: sm_empty_def Load_def Store_def Delete_def)

lemmas sm_simps [simp] = sm.load_empty sm.load_store sm.load_remove

lemma LoadOrStore_absent: "Load m k = None \<Longrightarrow> LoadOrStore m k v = ((v, False), Store m k v)"
  by (simp add: LoadOrStore_def)

lemma LoadOrStore_present: "Load m k = Some u \<Longrightarrow> LoadOrStore m k v = ((u, True), m)"
  by (simp add: LoadOrStore_def)

section \<open>Counting goroutines\<close>

text \<open>
  The program counters of a fixed set of goroutines are a list; a step rewrites one entry.
  \<open>cnt P pcs\<close> is the number of goroutines at a program counter in \<open>P\<close>.
\<close>

definition cnt :: "('p \<Rightarrow> bool) \<Rightarrow> 'p list \<Rightarrow> nat" where
  "cnt P ps = length (filter P ps)"

lemma cnt_Nil [simp]: "cnt P [] = 0"
  by (simp add: cnt_def)

lemma cnt_Cons [simp]: "cnt P (p # ps) = (if P p then Suc (cnt P ps) else cnt P ps)"
  by (simp add: cnt_def)

lemma cnt_update:
  "i < length ps \<Longrightarrow>
   cnt P (ps[i := q]) + (if P (ps ! i) then 1 else 0) = cnt P ps + (if P q then 1 else 0)"
proof (induction ps arbitrary: i)
  case Nil
  then show ?case by simp
next
  case (Cons p ps)
  then show ?case by (cases i) auto
qed

lemma cnt_update_same:
  "i < length ps \<Longrightarrow> P (ps ! i) = P q \<Longrightarrow> cnt P (ps[i := q]) = cnt P ps"
  using cnt_update [of i ps P q] by (auto split: if_splits)

lemma cnt_update_enter:
  "i < length ps \<Longrightarrow> \<not> P (ps ! i) \<Longrightarrow> P q \<Longrightarrow> cnt P (ps[i := q]) = Suc (cnt P ps)"
  using cnt_update [of i ps P q] by simp

lemma cnt_update_leave:
  "i < length ps \<Longrightarrow> P (ps ! i) \<Longrightarrow> \<not> P q \<Longrightarrow> Suc (cnt P (ps[i := q])) = cnt P ps"
  using cnt_update [of i ps P q] by simp

lemma cnt_pos: "i < length ps \<Longrightarrow> P (ps ! i) \<Longrightarrow> 0 < cnt P ps"
  by (induction ps arbitrary: i) (auto simp: nth_Cons split: nat.splits)

lemma cnt_pos_ex: "0 < cnt P ps \<Longrightarrow> \<exists>i < length ps. P (ps ! i)"
proof -
  assume "0 < cnt P ps"
  then obtain p where "p \<in> set ps" "P p"
    by (auto simp: cnt_def filter_empty_conv)
  then show ?thesis by (metis in_set_conv_nth)
qed

lemma cnt_le_length: "cnt P ps \<le> length ps"
  by (simp add: cnt_def)

lemma cnt_mono: "(\<And>p. P p \<Longrightarrow> Q p) \<Longrightarrow> cnt P ps \<le> cnt Q ps"
  by (induction ps) auto

lemma cnt_replicate [simp]: "cnt P (replicate n p) = (if P p then n else 0)"
  by (induction n) auto

lemmas cnt_moves = cnt_update_same cnt_update_enter cnt_update_leave

section \<open>Transition systems\<close>

inductive reach :: "('s \<Rightarrow> bool) \<Rightarrow> ('s \<Rightarrow> 's \<Rightarrow> bool) \<Rightarrow> 's \<Rightarrow> bool"
  for init step where
  reach_init: "init s \<Longrightarrow> reach init step s"
| reach_step: "reach init step s \<Longrightarrow> step s t \<Longrightarrow> reach init step t"

text \<open>An invariant of a transition system: the initial states satisfy it, the steps keep it.\<close>

locale invariant_system =
  fixes init :: "'s \<Rightarrow> bool"
    and step :: "'s \<Rightarrow> 's \<Rightarrow> bool"
    and inv :: "'s \<Rightarrow> bool"
  assumes inv_init: "init s \<Longrightarrow> inv s"
    and inv_step: "inv s \<Longrightarrow> step s t \<Longrightarrow> inv t"
begin

lemma reach_inv: "reach init step s \<Longrightarrow> inv s"
  by (induction rule: reach.induct) (auto intro: inv_init inv_step)

lemma reach_steps: "reach init step s \<Longrightarrow> step\<^sup>*\<^sup>* s t \<Longrightarrow> inv t"
  by (rotate_tac, induction rule: rtranclp.induct) (auto intro: reach_inv inv_step)

end

end
