(* ===== verification/Packages.thy ===== *)
theory Packages
  imports Prelude
begin

text \<open>
  The shared packages both programs import: \<^verbatim>\<open>src/pkg/logger\<close> (masking of names in logs),
  \<^verbatim>\<open>src/pkg/values\<close>, \<^verbatim>\<open>src/pkg/messages\<close>, \<^verbatim>\<open>src/pkg/config\<close> (the
  environment, with its panics as the left values of a sum), the string helpers of
  \<^verbatim>\<open>src/pkg/k8shelper\<close>, and the namespace scoping of \<^verbatim>\<open>src/operator/cmd/main.go\<close>,
  \<^verbatim>\<open>namespaceInScope\<close> and \<^verbatim>\<open>listNamespaces\<close>.
\<close>

section \<open>Logger\<close>

definition MaskMiddle :: "string \<Rightarrow> int \<Rightarrow> int \<Rightarrow> string" where
  "MaskMiddle input unmaskedPrefix unmaskedSuffix =
     (let p = (if unmaskedPrefix < 0 then 0 else unmaskedPrefix);
          s = (if unmaskedSuffix < 0 then 0 else unmaskedSuffix);
          n = int (length input)
      in if n \<le> p + s then replicate (nat n) (CHR ''*'')
         else take (nat p) input @ replicate (nat (n - p - s)) (CHR ''*'') @ drop (nat (n - s)) input)"

section \<open>Values and messages\<close>

definition ServeMode :: string where "ServeMode = ''serve''"
definition ProxyMode :: string where "ProxyMode = ''proxy''"
definition NullMode :: string where "NullMode = []"

lemmas mode_defs = ServeMode_def ProxyMode_def NullMode_def

type_synonym duration = int  \<comment> \<open>nanoseconds, an \<^verbatim>\<open>int64\<close> in the source\<close>

abbreviation second :: duration where "second \<equiv> 1000000000"

definition DefaultCooldownPeriod :: duration where
  "DefaultCooldownPeriod = second * 900"

record gvr =
  gvr_group :: string
  gvr_version :: string
  gvr_resource :: string

definition ServiceGVR :: gvr where
  "ServiceGVR = \<lparr>gvr_group = [], gvr_version = ''v1'', gvr_resource = ''services''\<rparr>"

definition ElastiServiceGVR :: gvr where
  "ElastiServiceGVR =
     \<lparr>gvr_group = ''elasti.truefoundry.com'', gvr_version = ''v1alpha1'', gvr_resource = ''elastiservices''\<rparr>"

definition ScaledObjectGVR :: gvr where
  "ScaledObjectGVR = \<lparr>gvr_group = ''keda.sh'', gvr_version = ''v1alpha1'', gvr_resource = ''scaledobjects''\<rparr>"

record host =
  IncomingHost :: string
  h_Namespace :: string
  SourceService :: string
  TargetService :: string
  SourceHost :: string
  TargetHost :: string
  TrafficAllowed :: bool
  TrafficDisableScheduled :: bool

record request_count =
  rc_Count :: int
  rc_Svc :: string
  rc_Namespace :: string

text \<open>\<^verbatim>\<open>types.NamespacedName\<close> with its \<^verbatim>\<open>String\<close> method, the key of every map.\<close>

record nsname =
  nn_namespace :: string
  nn_name :: string

definition nn_string :: "nsname \<Rightarrow> string" where
  "nn_string n = nn_namespace n @ ''/'' @ nn_name n"

section \<open>Kubernetes names\<close>

definition KindToResource :: "string \<Rightarrow> string" where
  "KindToResource kind = (let k = ToLower kind in if HasSuffix k ''s'' then k else k @ ''s'')"

section \<open>Environment\<close>

type_synonym env = "string \<Rightarrow> string"

record config =
  Namespace :: string
  DeploymentName :: string
  ServiceName :: string
  Port :: int

record resolver_config = config +
  ReverseProxyPort :: int

definition getEnvStringOrPanic :: "env \<Rightarrow> string \<Rightarrow> string + string" where
  "getEnvStringOrPanic Getenv envName =
     (let envValue = Getenv envName
      in if envValue = [] then Inl (''required env value not set: '' @ envName) else Inr envValue)"

text \<open>\<^verbatim>\<open>strconv.ParseInt(s, 10, bits)\<close>: an optional sign, decimal digits, in range.\<close>

definition is_digit :: "char \<Rightarrow> bool" where
  "is_digit c \<longleftrightarrow> (let n = (of_char c :: nat) in 48 \<le> n \<and> n \<le> 57)"

definition digit_value :: "char \<Rightarrow> int" where
  "digit_value c = int (of_char c) - 48"

definition digits_value :: "string \<Rightarrow> int" where
  "digits_value s = foldl (\<lambda>a c. a * 10 + digit_value c) 0 s"

definition ParseInt :: "nat \<Rightarrow> string \<Rightarrow> int option" where
  "ParseInt bits s =
     (let (neg, ds) = (case s of c # cs \<Rightarrow> if c = CHR ''-'' then (True, cs)
                                          else if c = CHR ''+'' then (False, cs) else (False, s)
                              | [] \<Rightarrow> (False, []))
      in if ds = [] \<or> \<not> list_all is_digit ds then None
         else if \<not> neg \<and> digits_value ds \<ge> 2 ^ (bits - 1) then None
         else if neg \<and> digits_value ds > 2 ^ (bits - 1) then None
         else Some (if neg then - digits_value ds else digits_value ds))"

definition getEnvPortOrPanic :: "env \<Rightarrow> string \<Rightarrow> string + int" where
  "getEnvPortOrPanic Getenv envName =
     (case getEnvStringOrPanic Getenv envName of
        Inl p \<Rightarrow> Inl p
      | Inr envValue \<Rightarrow>
          (case ParseInt 32 envValue of
             None \<Rightarrow> Inl (''required env value is not integer: '' @ envName)
           | Some port \<Rightarrow>
               if port < 1 \<or> port > 65535 then Inl (''port out of range for '' @ envName)
               else Inr port))"

fun seq_panic :: "(string + 'a) \<Rightarrow> ('a \<Rightarrow> string + 'b) \<Rightarrow> string + 'b" where
  "seq_panic (Inl p) f = Inl p"
| "seq_panic (Inr a) f = f a"

definition GetKubernetesClusterDomain :: "env \<Rightarrow> string + string" where
  "GetKubernetesClusterDomain Getenv = getEnvStringOrPanic Getenv ''KUBERNETES_CLUSTER_DOMAIN''"

definition GetResolverConfig :: "env \<Rightarrow> string + resolver_config" where
  "GetResolverConfig Getenv =
     seq_panic (getEnvStringOrPanic Getenv ''ELASTI_RESOLVER_NAMESPACE'') (\<lambda>ns.
     seq_panic (getEnvStringOrPanic Getenv ''ELASTI_RESOLVER_DEPLOYMENT_NAME'') (\<lambda>dn.
     seq_panic (getEnvStringOrPanic Getenv ''ELASTI_RESOLVER_SERVICE_NAME'') (\<lambda>sn.
     seq_panic (getEnvPortOrPanic Getenv ''ELASTI_RESOLVER_PORT'') (\<lambda>port.
     seq_panic (getEnvPortOrPanic Getenv ''ELASTI_RESOLVER_PROXY_PORT'') (\<lambda>proxy.
       Inr \<lparr>Namespace = ns, DeploymentName = dn, ServiceName = sn, Port = port,
            ReverseProxyPort = proxy\<rparr>)))))"

definition GetOperatorConfig :: "env \<Rightarrow> string + config" where
  "GetOperatorConfig Getenv =
     seq_panic (getEnvStringOrPanic Getenv ''ELASTI_OPERATOR_NAMESPACE'') (\<lambda>ns.
     seq_panic (getEnvStringOrPanic Getenv ''ELASTI_OPERATOR_DEPLOYMENT_NAME'') (\<lambda>dn.
     seq_panic (getEnvStringOrPanic Getenv ''ELASTI_OPERATOR_SERVICE_NAME'') (\<lambda>sn.
     seq_panic (getEnvPortOrPanic Getenv ''ELASTI_OPERATOR_PORT'') (\<lambda>port.
       Inr \<lparr>Namespace = ns, DeploymentName = dn, ServiceName = sn, Port = port\<rparr>))))"

definition GetWatchNamespaces :: "env \<Rightarrow> string list" where
  "GetWatchNamespaces Getenv =
     (let raw = Getenv ''WATCH_NAMESPACES'' in if raw = [] then [] else split_trim raw)"

section \<open>Namespace scoping\<close>

fun dedup_namespaces :: "string list \<Rightarrow> string set \<Rightarrow> string list" where
  "dedup_namespaces [] seen = []"
| "dedup_namespaces (ns # rest) seen =
     (if ns = [] then dedup_namespaces rest seen
      else if ns \<in> seen then dedup_namespaces rest seen
      else ns # dedup_namespaces rest (insert ns seen))"

definition effectiveWatchNamespaces :: "string list \<Rightarrow> string list \<Rightarrow> string list" where
  "effectiveWatchNamespaces watch alwaysInclude =
     (if length watch = 0 then [] else dedup_namespaces (watch @ alwaysInclude) {})"

text \<open>The watch set of the manager: the environment, else the legacy flag, then the folding in.\<close>

definition manager_watch_namespaces :: "env \<Rightarrow> string \<Rightarrow> string \<Rightarrow> string \<Rightarrow> string list" where
  "manager_watch_namespaces Getenv watchNamespaceFlag operatorNs resolverNs =
     (let w = GetWatchNamespaces Getenv;
          watch = (if length w = 0 \<and> watchNamespaceFlag \<noteq> [] then [watchNamespaceFlag] else w)
      in effectiveWatchNamespaces watch [operatorNs, resolverNs])"

text \<open>\<^verbatim>\<open>cache.Options\<close>: \<open>None\<close> is the zero value, an unrestricted cache.\<close>

definition buildCacheOptions :: "string list \<Rightarrow> string set option" where
  "buildCacheOptions watchNamespaces =
     (if length watchNamespaces = 0 then None else Some (set watchNamespaces))"

fun scan_namespaces :: "string list \<Rightarrow> string \<Rightarrow> bool" where
  "scan_namespaces [] namespace = False"
| "scan_namespaces (ns # rest) namespace = (if ns = namespace then True else scan_namespaces rest namespace)"

definition namespaceInScope :: "string list \<Rightarrow> string \<Rightarrow> bool" where
  "namespaceInScope watchNamespaces namespace =
     (if length watchNamespaces = 0 then True else scan_namespaces watchNamespaces namespace)"

definition listNamespaces :: "string list \<Rightarrow> string list" where
  "listNamespaces watchNamespaces = (if length watchNamespaces = 0 then [[]] else watchNamespaces)"

text \<open>What a list query returns for one namespace argument: the empty one means all.\<close>

definition query_covers :: "string \<Rightarrow> string \<Rightarrow> bool" where
  "query_covers arg namespace \<longleftrightarrow> arg = [] \<or> arg = namespace"

section \<open>Lemmas\<close>

lemma length_MaskMiddle [simp]: "length (MaskMiddle input p s) = length input"
  by (auto simp: MaskMiddle_def Let_def nat_diff_distrib min_def)

lemma MaskMiddle_nth:
  assumes "0 \<le> p" "0 \<le> s" "i < length input"
  shows "MaskMiddle input p s ! i =
    (if int (length input) \<le> p + s \<or> (p \<le> int i \<and> int i < int (length input) - s)
     then CHR ''*'' else input ! i)"
  using assms
  by (auto simp: MaskMiddle_def Let_def nth_append nat_diff_distrib min_def intro!: arg_cong [of _ _ "(!) input"])

text \<open>\<^verbatim>\<open>strconv.Itoa\<close> on naturals, used for the numbers that are printed into queries.\<close>

fun Itoa :: "nat \<Rightarrow> string" where
  "Itoa n = (if n < 10 then [char_of (n + 48)] else Itoa (n div 10) @ [char_of (n mod 10 + 48)])"

declare Itoa.simps [simp del]

lemma digits_value_snoc: "digits_value (ds @ [c]) = digits_value ds * 10 + digit_value c"
  by (simp add: digits_value_def)

lemma digit_char: "n < 10 \<Longrightarrow> is_digit (char_of (n + 48 :: nat)) \<and> digit_value (char_of (n + 48 :: nat)) = int n"
  by (simp add: is_digit_def digit_value_def Let_def del: of_nat_of_char)

lemma Itoa_digits: "Itoa n \<noteq> [] \<and> list_all is_digit (Itoa n) \<and> digits_value (Itoa n) = int n"
proof (induction n rule: Itoa.induct)
  case (1 n)
  show ?case
  proof (cases "n < 10")
    case True
    then show ?thesis
      using digit_char [of n] by (simp add: Itoa.simps [of n] digits_value_def)
  next
    case False
    then show ?thesis
      using 1 digit_char [of "n mod 10"]
      by (simp add: Itoa.simps [of n] digits_value_snoc zmod_int zdiv_int)
  qed
qed

lemma not_sign: "is_digit c \<Longrightarrow> c \<noteq> CHR ''-'' \<and> c \<noteq> CHR ''+''"
  by (auto simp: is_digit_def)

lemma ParseInt_Itoa: "int n < 2 ^ (bits - 1) \<Longrightarrow> ParseInt bits (Itoa n) = Some (int n)"
  using Itoa_digits [of n] not_sign
  by (cases "Itoa n") (auto simp: ParseInt_def Let_def)

lemma getEnvStringOrPanic_Inr [simp]:
  "getEnvStringOrPanic e n = Inr v \<longleftrightarrow> v = e n \<and> e n \<noteq> []"
  by (auto simp: getEnvStringOrPanic_def Let_def)

lemma getEnvPortOrPanic_Inr [simp]:
  "getEnvPortOrPanic e n = Inr v \<longleftrightarrow> ParseInt 32 (e n) = Some v \<and> 1 \<le> v \<and> v \<le> 65535"
  by (auto simp: getEnvPortOrPanic_def getEnvStringOrPanic_def Let_def ParseInt_def split: option.splits)

lemma seq_panic_Inr [simp]: "seq_panic r f = Inr v \<longleftrightarrow> (\<exists>a. r = Inr a \<and> f a = Inr v)"
  by (cases r) auto

lemma dedup_set: "set (dedup_namespaces all seen) = set all - {[]} - seen"
  by (induction all seen rule: dedup_namespaces.induct) auto

lemma dedup_distinct: "distinct (dedup_namespaces all seen)"
  by (induction all seen rule: dedup_namespaces.induct) (auto simp: dedup_set)

lemma effectiveWatchNamespaces_set:
  "set (effectiveWatchNamespaces watch always) = (if watch = [] then {} else (set watch \<union> set always) - {[]})"
  by (auto simp: effectiveWatchNamespaces_def dedup_set)

lemma scan_namespaces_iff [simp]: "scan_namespaces ws ns \<longleftrightarrow> ns \<in> set ws"
  by (induction ws) auto

lemma namespaceInScope_iff: "namespaceInScope ws ns \<longleftrightarrow> ws = [] \<or> ns \<in> set ws"
  by (simp add: namespaceInScope_def)

section \<open>Properties\<close>

text \<open>
  The three places that confine KubeElasti to namespaces agree on the watch set of the
  manager: the set has no duplicates and no empty name, in scoped mode it contains the namespaces
  of the operator and the resolver, and a namespace passes the filter of the reconciler exactly
  if the cache of the manager holds it and exactly if one of the list queries of the
  scale-down check returns its objects.
\<close>

theorem namespace_scope:
  assumes "operatorNs \<noteq> []" and "resolverNs \<noteq> []"
    and "ws = manager_watch_namespaces Getenv watchNamespaceFlag operatorNs resolverNs"
  shows "distinct ws \<and> [] \<notin> set ws \<and> (ws = [] \<or> {operatorNs, resolverNs} \<subseteq> set ws) \<and>
    (namespaceInScope ws ns \<longleftrightarrow> (case buildCacheOptions ws of None \<Rightarrow> True | Some c \<Rightarrow> ns \<in> c)) \<and>
    (namespaceInScope ws ns \<longleftrightarrow> list_ex (\<lambda>q. query_covers q ns) (listNamespaces ws))"
proof -
  have ws: "distinct ws" "[] \<notin> set ws"
    using assms(3) by (auto simp: manager_watch_namespaces_def effectiveWatchNamespaces_def dedup_distinct dedup_set Let_def)
  have inc: "ws = [] \<or> {operatorNs, resolverNs} \<subseteq> set ws"
    using assms by (auto simp: manager_watch_namespaces_def effectiveWatchNamespaces_def dedup_set Let_def)
  have cache: "namespaceInScope ws ns \<longleftrightarrow> (case buildCacheOptions ws of None \<Rightarrow> True | Some c \<Rightarrow> ns \<in> c)"
    by (simp add: namespaceInScope_iff buildCacheOptions_def)
  have "namespaceInScope ws ns \<longleftrightarrow> list_ex (\<lambda>q. query_covers q ns) (listNamespaces ws)"
    using ws(2) by (auto simp: namespaceInScope_iff listNamespaces_def query_covers_def list_ex_iff)
  with ws inc cache show ?thesis by blast
qed

definition scoped_env :: env where
  "scoped_env = (\<lambda>_. [])(''WATCH_NAMESPACES'' := ''team-a, team-b,'')"

theorem namespace_scope_witness:
  "manager_watch_namespaces scoped_env [] ''elasti'' ''elasti'' = [''team-a'', ''team-b'', ''elasti''] \<and>
   namespaceInScope [''team-a'', ''team-b'', ''elasti''] ''elasti''"
proof -
  have ws: "manager_watch_namespaces scoped_env [] ''elasti'' ''elasti'' = [''team-a'', ''team-b'', ''elasti'']"
    by code_simp
  show ?thesis
    using namespace_scope [of "''elasti''" "''elasti''" _ scoped_env "[]" "''elasti''"] ws
    by (auto simp: namespaceInScope_iff)
qed

text \<open>
  A resolver that starts has the namespace, deployment and service name of its environment,
  none of them empty, and both ports parse as decimal numbers between 1 and 65535; any other
  environment panics.
\<close>

theorem resolver_config_total:
  "(\<exists>c. GetResolverConfig Getenv = Inr c) \<longleftrightarrow>
     list_all (\<lambda>n. Getenv n \<noteq> []) [''ELASTI_RESOLVER_NAMESPACE'', ''ELASTI_RESOLVER_DEPLOYMENT_NAME'',
       ''ELASTI_RESOLVER_SERVICE_NAME''] \<and>
     list_all (\<lambda>n. \<exists>port. ParseInt 32 (Getenv n) = Some port \<and> 1 \<le> port \<and> port \<le> 65535)
       [''ELASTI_RESOLVER_PORT'', ''ELASTI_RESOLVER_PROXY_PORT'']"
  by (auto simp: GetResolverConfig_def)

text \<open>
  The masked form of a name has the length of the name, shows at most the first and last
  \<open>p\<close> and \<open>s\<close> characters, and shows nothing at all of a name that has no more than
  \<open>p + s\<close> characters.
\<close>

theorem mask_hides_middle:
  assumes "0 \<le> p" "0 \<le> s" "i < length input"
    and "int (length input) \<le> p + s \<or> (p \<le> int i \<and> int i < int (length input) - s)"
  shows "length (MaskMiddle input p s) = length input \<and> MaskMiddle input p s ! i = CHR ''*''"
  using assms by (simp add: MaskMiddle_nth)

theorem mask_hides_middle_witness:
  "MaskMiddle ''target-service'' 3 3 ! 7 = CHR ''*'' \<and> length (MaskMiddle ''target-service'' 3 3) = 14"
  using mask_hides_middle [of 3 3 7 "''target-service''"] by simp

end
