(* ===== verification/Types.thy ===== *)
theory Types
  imports Packages
begin

text \<open>
  The objects the operator and the resolver work on: the ElastiService resource of
  \<^verbatim>\<open>src/operator/api/v1alpha1/elastiservice_types.go\<close>, field by field, and the parts of the
  Kubernetes objects that the code reads or writes. A time is a number of nanoseconds, 0 the
  zero time; an \<^verbatim>\<open>int32\<close> is an \<^typ>\<open>int\<close> in its range.
\<close>

section \<open>JSON\<close>

text \<open>
  A JSON text by its syntax tree; numbers keep their literal, objects the order of their members.
  \<open>None\<close> stands for a text that is not JSON.
\<close>

datatype json =
    JNull
  | JBool bool
  | JNum string
  | JStr string
  | JArr "json list"
  | JObj "(string \<times> json) list"

type_synonym raw_message = "json option"

section \<open>ElastiService\<close>

type_synonym time = int

record enabled_period =
  ep_Schedule :: string
  ep_Duration :: string

record path_match =
  pm_Type :: string
  pm_Value :: string

record header_match =
  hm_Name :: string
  hm_Type :: string
  hm_Value :: string

record query_match =
  qm_Name :: string
  qm_Type :: string
  qm_Value :: string

record probe_response =
  pr_Status :: int
  pr_Body :: string

record probe_rule =
  pr_Path :: "path_match option"
  pr_Headers :: "header_match list"
  pr_QueryParams :: "query_match list"
  pr_Method :: "string option"
  pr_Response :: probe_response

record scale_target_ref =
  tr_APIVersion :: string
  tr_Kind :: string
  tr_Name :: string

record scale_trigger =
  trig_Type :: string
  trig_Metadata :: raw_message

record autoscaler =
  as_Type :: string
  as_Name :: string

record es_spec =
  ScaleTargetRef :: scale_target_ref
  Service :: string
  ProbeResponse :: "probe_rule list"
  MinTargetReplicas :: int
  CooldownPeriod :: int
  Triggers :: "scale_trigger list"
  Autoscaler :: "autoscaler option"
  EnabledPeriod :: "enabled_period option"

record es_status =
  LastReconciledTime :: time
  LastScaledUpTime :: "time option"
  Mode :: string

record elasti_service =
  es_Name :: string
  es_Namespace :: string
  es_CreationTimestamp :: time
  es_DeletionTimestamp :: "time option"
  es_Finalizers :: "string list"
  Spec :: es_spec
  Status :: es_status

definition ElastiServiceFinalizer :: string where
  "ElastiServiceFinalizer = ''elasti.truefoundry.com/finalizer''"

text \<open>
  The receiver of \<^verbatim>\<open>GetScaleTargetRef\<close> is a pointer: the spec it is called on is changed, and
  \<^verbatim>\<open>GetSpec\<close> changes the object.
\<close>

definition GetScaleTargetRef :: "es_spec \<Rightarrow> scale_target_ref \<times> es_spec" where
  "GetScaleTargetRef spec =
     (let ref = ScaleTargetRef spec;
          ref' = (if tr_Kind ref = ''deployments'' then ref\<lparr>tr_Kind := ''Deployment''\<rparr>
                  else if tr_Kind ref = ''rollouts'' then ref\<lparr>tr_Kind := ''Rollout''\<rparr>
                  else ref)
      in (ref', spec\<lparr>ScaleTargetRef := ref'\<rparr>))"

definition GetSpec :: "elasti_service \<Rightarrow> es_spec \<times> elasti_service" where
  "GetSpec es =
     (let (ref, spec) = GetScaleTargetRef (Spec es);
          spec' = spec\<lparr>ScaleTargetRef := ref\<rparr>
      in (spec', es\<lparr>Spec := spec'\<rparr>))"

definition es_key :: "elasti_service \<Rightarrow> nsname" where
  "es_key es = \<lparr>nn_namespace = es_Namespace es, nn_name = es_Name es\<rparr>"

text \<open>The service of an ElastiService, the key of the CRD directory.\<close>

definition service_key :: "elasti_service \<Rightarrow> nsname" where
  "service_key es = \<lparr>nn_namespace = es_Namespace es, nn_name = Service (Spec es)\<rparr>"

section \<open>Kubernetes objects\<close>

record service_port =
  sp_Name :: string
  sp_Protocol :: string
  sp_Port :: int
  sp_TargetPort :: string
  sp_NodePort :: int

record owner_ref =
  or_Kind :: string
  or_Name :: string
  or_Controller :: bool

record service =
  svc_Name :: string
  svc_Namespace :: string
  svc_Labels :: "(string \<times> string) list"
  svc_ResourceVersion :: string
  svc_OwnerReferences :: "owner_ref list"
  svc_Type :: string
  svc_Selector :: "(string \<times> string) list"
  svc_Ports :: "service_port list"
  svc_ClusterIP :: string
  svc_ClusterIPs :: "string list"

record endpoint =
  ep_Addresses :: "string list"
  ep_Ready :: "bool option"

record endpoint_port =
  epp_Name :: string
  epp_Protocol :: string
  epp_Port :: int

record endpoint_slice =
  eps_Name :: string
  eps_Namespace :: string
  eps_Labels :: "(string \<times> string) list"
  eps_AddressType :: string
  eps_Ports :: "endpoint_port list"
  eps_Endpoints :: "endpoint list"

record pod =
  pod_DeletionTimestamp :: "time option"
  pod_Conditions :: "(string \<times> string) list"

record scale =
  sc_SpecReplicas :: int
  sc_StatusReplicas :: int

record gvk =
  gvk_Group :: string
  gvk_Version :: string
  gvk_Kind :: string

record group_resource =
  gr_Group :: string
  gr_Resource :: string

text \<open>
  What the operator reads of an object of the dynamic client: the nested fields, each absent,
  of the wrong type, or a value; the selector is kept as the client gave it.
\<close>

datatype 'a nested = Absent | BadType | Present 'a

record unstructured =
  un_Name :: string
  un_Namespace :: string
  un_SpecReplicas :: "int nested"
  un_StatusReplicas :: "int nested"
  un_Selector :: "string nested"

section \<open>Properties\<close>

lemma GetScaleTargetRef_spec: "snd (GetScaleTargetRef spec) = spec\<lparr>ScaleTargetRef := fst (GetScaleTargetRef spec)\<rparr>"
  by (simp add: GetScaleTargetRef_def Let_def)

lemma GetScaleTargetRef_idem:
  "GetScaleTargetRef (snd (GetScaleTargetRef spec)) = GetScaleTargetRef spec"
  by (simp add: GetScaleTargetRef_def Let_def)

lemma GetSpec_eq:
  "GetSpec es = (snd (GetScaleTargetRef (Spec es)), es\<lparr>Spec := snd (GetScaleTargetRef (Spec es))\<rparr>)"
  by (simp add: GetSpec_def GetScaleTargetRef_def Let_def)

lemma KindToResource_legacy:
  "KindToResource (tr_Kind (fst (GetScaleTargetRef spec))) = KindToResource (tr_Kind (ScaleTargetRef spec))"
proof -
  have "KindToResource ''Deployment'' = KindToResource ''deployments''"
    "KindToResource ''Rollout'' = KindToResource ''rollouts''"
    by code_simp+
  then show ?thesis by (simp add: GetScaleTargetRef_def Let_def)
qed

text \<open>
  Normalising a legacy kind is idempotent, changes no other field of the spec, and leaves the
  API resource the kind stands for alone, so an object with kind \<^verbatim>\<open>deployments\<close> and one with
  kind \<^verbatim>\<open>Deployment\<close> are scaled, watched and stopped under the same resource name.
\<close>

theorem legacy_kind_same_resource:
  "fst (GetSpec (snd (GetSpec es))) = fst (GetSpec es) \<and>
   fst (GetSpec es) = (Spec es)\<lparr>ScaleTargetRef := fst (GetScaleTargetRef (Spec es))\<rparr> \<and>
   KindToResource (tr_Kind (ScaleTargetRef (fst (GetSpec es)))) = KindToResource (tr_Kind (ScaleTargetRef (Spec es)))"
  using KindToResource_legacy [of "Spec es"] GetScaleTargetRef_idem [of "Spec es"]
  by (simp add: GetSpec_eq GetScaleTargetRef_spec)

end
