(* ===== verification/Kube.thy ===== *)
theory Kube
  imports Types
begin

text \<open>
  Programs against the Kubernetes API. A program takes the state of the process and returns an
  outcome (a value, an error, or a panic) and the new state. The API server, the clock and the
  clients are not code of this repository: they are the fields of a record \<open>api\<close> over an
  arbitrary type of worlds, an argument of every definition that uses them. A world may change
  with every call, so nothing is assumed about what other clients of the cluster do in between.
  Every request that changes something is also appended to the log \<open>writes\<close> with whether the
  server accepted it, so that what the code asks for can be stated without assuming anything
  about the server.
\<close>

section \<open>Programs\<close>

datatype 'a outcome = Ok 'a | Err go_error | Panic string

type_synonym ('s, 'a) prog = "'s \<Rightarrow> 'a outcome \<times> 's"

definition ret :: "'a \<Rightarrow> ('s, 'a) prog" where
  "ret a = (\<lambda>s. (Ok a, s))"

definition fail :: "go_error \<Rightarrow> ('s, 'a) prog" where
  "fail e = (\<lambda>s. (Err e, s))"

definition panic :: "string \<Rightarrow> ('s, 'a) prog" where
  "panic p = (\<lambda>s. (Panic p, s))"

text \<open>\<^verbatim>\<open>x, err := m(); if err != nil { onerr } ; k\<close>; a panic unwinds.\<close>

definition handle :: "('s, 'a) prog \<Rightarrow> (go_error \<Rightarrow> ('s, 'b) prog) \<Rightarrow> ('a \<Rightarrow> ('s, 'b) prog) \<Rightarrow> ('s, 'b) prog" where
  "handle m onerr k = (\<lambda>s. case m s of
      (Ok a, s') \<Rightarrow> k a s'
    | (Err e, s') \<Rightarrow> onerr e s'
    | (Panic p, s') \<Rightarrow> (Panic p, s'))"

text \<open>The common case: \<^verbatim>\<open>return fmt.Errorf("msg: %w", err)\<close>.\<close>

definition attempt :: "('s, 'a) prog \<Rightarrow> string \<Rightarrow> ('a \<Rightarrow> ('s, 'b) prog) \<Rightarrow> ('s, 'b) prog" where
  "attempt m msg k = handle m (\<lambda>e. fail (EWrap msg e)) k"

text \<open>The error is logged and the code goes on.\<close>

definition ignoring :: "('s, 'a) prog \<Rightarrow> ('s, 'b) prog \<Rightarrow> ('s, 'b) prog" where
  "ignoring m k = handle m (\<lambda>_. k) (\<lambda>_. k)"

text \<open>\<^verbatim>\<open>defer d()\<close>: runs after the body, also when the body panics; its result is dropped.\<close>

definition deferred :: "('s, 'b) prog \<Rightarrow> ('s, 'a) prog \<Rightarrow> ('s, 'a) prog" where
  "deferred d body = (\<lambda>s. case body s of (r, s') \<Rightarrow> (r, snd (d s')))"

definition lift_sum :: "go_error + 'a \<Rightarrow> 'a outcome" where
  "lift_sum r = (case r of Inl e \<Rightarrow> Err e | Inr a \<Rightarrow> Ok a)"

lemma lift_sum_simps [simp]: "lift_sum (Inl e) = Err e" "lift_sum (Inr a) = Ok a"
  by (simp_all add: lift_sum_def)

lemma ret_run [simp]: "ret a s = (Ok a, s)" by (simp add: ret_def)
lemma fail_run [simp]: "fail e s = (Err e, s)" by (simp add: fail_def)
lemma panic_run [simp]: "panic p s = (Panic p, s)" by (simp add: panic_def)

lemma handle_run:
  "handle m onerr k s = (case m s of
      (Ok a, s') \<Rightarrow> k a s' | (Err e, s') \<Rightarrow> onerr e s' | (Panic p, s') \<Rightarrow> (Panic p, s'))"
  by (simp add: handle_def)

lemma handle_simps [simp]:
  "m s = (Ok a, s') \<Longrightarrow> handle m onerr k s = k a s'"
  "m s = (Err e, s') \<Longrightarrow> handle m onerr k s = onerr e s'"
  "m s = (Panic p, s') \<Longrightarrow> handle m onerr k s = (Panic p, s')"
  by (simp_all add: handle_def)

lemma attempt_simps [simp]:
  "m s = (Ok a, s') \<Longrightarrow> attempt m msg k s = k a s'"
  "m s = (Err e, s') \<Longrightarrow> attempt m msg k s = (Err (EWrap msg e), s')"
  "m s = (Panic p, s') \<Longrightarrow> attempt m msg k s = (Panic p, s')"
  by (simp_all add: attempt_def)

lemma ignoring_simps [simp]:
  "m s = (Ok a, s') \<Longrightarrow> ignoring m k s = k s'"
  "m s = (Err e, s') \<Longrightarrow> ignoring m k s = k s'"
  "m s = (Panic p, s') \<Longrightarrow> ignoring m k s = (Panic p, s')"
  by (simp_all add: ignoring_def)

lemma deferred_run: "deferred d body s = (fst (body s), snd (d (snd (body s))))"
  by (simp add: deferred_def split: prod.splits)

lemma handle_cases:
  obtains (ok) a s' where "m s = (Ok a, s')" "handle m onerr k s = k a s'"
  | (err) e s' where "m s = (Err e, s')" "handle m onerr k s = onerr e s'"
  | (panicked) p s' where "m s = (Panic p, s')" "handle m onerr k s = (Panic p, s')"
proof (cases "m s")
  case (Pair r s')
  then show ?thesis using that by (cases r) (auto simp: handle_def)
qed

section \<open>Requests that change something\<close>

text \<open>
  A patch of annotations is the list of its keys with the new value, \<open>None\<close> for
  \<^verbatim>\<open>null\<close> (the annotation is removed). \<open>ResetRESTMapper\<close> and \<open>RecordEvent\<close> act on the
  discovery cache and the event stream. \<open>HttpGet guard url headers\<close> is a query to a
  Prometheus server, through a client with or without the dial guard; it changes nothing, but it
  leaves the cluster and is logged with the rest.
\<close>

datatype kube_write =
    CreateService service
  | UpdateService service
  | DeleteService nsname
  | CreateSlice endpoint_slice
  | UpdateSlice endpoint_slice
  | DeleteSlice nsname
  | UpdateES elasti_service
  | PatchESStatus nsname es_status es_status
  | PatchLastScaledUp string string time
  | PatchScaledObject string string "(string \<times> string option) list"
  | UpdateScale string group_resource string scale
  | ResetRESTMapper
  | RecordEvent string string string string
  | HttpGet bool string "string \<rightharpoonup> string"

record http_response =
  http_status :: int
  http_body :: raw_message

record 'w api =
  a_getES :: "nsname \<Rightarrow> 'w \<Rightarrow> (go_error + elasti_service) \<times> 'w"
  a_listES :: "'w \<Rightarrow> (go_error + elasti_service list) \<times> 'w"
  a_dynListES :: "string \<Rightarrow> 'w \<Rightarrow> (go_error + (go_error + elasti_service) list) \<times> 'w"
  a_getService :: "nsname \<Rightarrow> 'w \<Rightarrow> (go_error + service) \<times> 'w"
  a_getSlice :: "nsname \<Rightarrow> 'w \<Rightarrow> (go_error + endpoint_slice) \<times> 'w"
  a_listSlices :: "string \<Rightarrow> string option \<Rightarrow> 'w \<Rightarrow> (go_error + endpoint_slice list) \<times> 'w"
  a_listPods :: "string \<Rightarrow> string \<Rightarrow> 'w \<Rightarrow> (go_error + pod list) \<times> 'w"
  a_getScale :: "string \<Rightarrow> group_resource \<Rightarrow> string \<Rightarrow> 'w \<Rightarrow> (go_error + scale) \<times> 'w"
  a_getDynamic :: "gvr \<Rightarrow> string \<Rightarrow> string \<Rightarrow> 'w \<Rightarrow> (go_error + unit) \<times> 'w"
  a_addEventHandler :: "gvr \<Rightarrow> string \<Rightarrow> string \<Rightarrow> 'w \<Rightarrow> (go_error + unit) \<times> 'w"
  a_waitForSync :: "gvr \<Rightarrow> string \<Rightarrow> string \<Rightarrow> 'w \<Rightarrow> bool \<times> 'w"
  a_write :: "kube_write \<Rightarrow> 'w \<Rightarrow> (go_error + unit) \<times> 'w"
  a_now :: "'w \<Rightarrow> time \<times> 'w"
  a_http :: "bool \<Rightarrow> string \<Rightarrow> (string \<rightharpoonup> string) \<Rightarrow> 'w \<Rightarrow> (go_error + http_response) \<times> 'w"
  a_getenv :: env
  a_ParseGroupVersion :: "string \<Rightarrow> go_error + string \<times> string"
  a_toLabelSelector :: "string \<Rightarrow> go_error + string"
  a_asSelector :: "string \<Rightarrow> go_error + string"
  a_controllerReference :: "elasti_service \<Rightarrow> service \<Rightarrow> go_error + owner_ref"

record 'w st =
  world :: 'w
  writes :: "(kube_write \<times> bool) list"

definition api_read :: "('w \<Rightarrow> (go_error + 'a) \<times> 'w) \<Rightarrow> (('w, 'z) st_scheme, 'a) prog" where
  "api_read f = (\<lambda>s. case f (world s) of (r, w) \<Rightarrow> (lift_sum r, s\<lparr>world := w\<rparr>))"

definition api_ask :: "('w \<Rightarrow> 'a \<times> 'w) \<Rightarrow> (('w, 'z) st_scheme, 'a) prog" where
  "api_ask f = (\<lambda>s. case f (world s) of (r, w) \<Rightarrow> (Ok r, s\<lparr>world := w\<rparr>))"

definition api_write :: "('w, 'x) api_scheme \<Rightarrow> kube_write \<Rightarrow> (('w, 'z) st_scheme, unit) prog" where
  "api_write api wr = (\<lambda>s. case a_write api wr (world s) of
      (Inl e, w) \<Rightarrow> (Err e, s\<lparr>world := w, writes := writes s @ [(wr, False)]\<rparr>)
    | (Inr u, w) \<Rightarrow> (Ok (), s\<lparr>world := w, writes := writes s @ [(wr, True)]\<rparr>))"

definition api_http :: "('w, 'x) api_scheme \<Rightarrow> bool \<Rightarrow> string \<Rightarrow> (string \<rightharpoonup> string) \<Rightarrow> (('w, 'z) st_scheme, http_response) prog" where
  "api_http api guard url headers = (\<lambda>s. case a_http api guard url headers (world s) of
      (Inl e, w) \<Rightarrow> (Err e, s\<lparr>world := w, writes := writes s @ [(HttpGet guard url headers, False)]\<rparr>)
    | (Inr r, w) \<Rightarrow> (Ok r, s\<lparr>world := w, writes := writes s @ [(HttpGet guard url headers, True)]\<rparr>))"

definition pure_call :: "go_error + 'a \<Rightarrow> ('s, 'a) prog" where
  "pure_call r = (\<lambda>s. (lift_sum r, s))"

definition time_now :: "('w, 'x) api_scheme \<Rightarrow> (('w, 'z) st_scheme, time) prog" where
  "time_now api = api_ask (a_now api)"

lemma api_write_writes:
  "api_write api wr s = (r, s') \<Longrightarrow> \<exists>ok. writes s' = writes s @ [(wr, ok)]"
  by (auto simp: api_write_def split: prod.splits sum.splits)

lemma api_write_no_panic [simp]: "fst (api_write api wr s) \<noteq> Panic p"
  by (auto simp: api_write_def split: prod.splits sum.splits)

lemma api_read_writes: "api_read f s = (r, s') \<Longrightarrow> writes s' = writes s"
  by (auto simp: api_read_def split: prod.splits)

lemma api_ask_writes: "api_ask f s = (r, s') \<Longrightarrow> writes s' = writes s"
  by (auto simp: api_ask_def split: prod.splits)

section \<open>What a program asks for\<close>

text \<open>
  \<open>asks P m\<close>: every request \<open>m\<close> adds to the log satisfies \<open>P\<close>. The rules let a
  property of a whole handler follow from its calls, whatever the server answers.
\<close>

definition asks :: "(kube_write \<Rightarrow> bool) \<Rightarrow> (('w, 'z) st_scheme, 'a) prog \<Rightarrow> bool" where
  "asks P m \<longleftrightarrow> (\<forall>s. \<exists>new. writes (snd (m s)) = writes s @ new \<and> (\<forall>(w, ok) \<in> set new. P w))"

named_theorems asks_intro

lemma asks_ret [asks_intro]: "asks P (ret a)"
  by (simp add: asks_def)

lemma asks_fail [asks_intro]: "asks P (fail e)"
  by (simp add: asks_def)

lemma asks_panic [asks_intro]: "asks P (panic e)"
  by (simp add: asks_def)

lemma asks_pure [asks_intro]: "asks P (pure_call r)"
  by (simp add: asks_def pure_call_def)

lemma asks_read [asks_intro]: "asks P (api_read f)"
  by (simp add: asks_def api_read_def split: prod.splits)

lemma asks_ask [asks_intro]: "asks P (api_ask f)"
  by (simp add: asks_def api_ask_def split: prod.splits)

lemma asks_now [asks_intro]: "asks P (time_now api)"
  unfolding time_now_def by (rule asks_ask)

lemma asks_write [asks_intro]: "P w \<Longrightarrow> asks P (api_write api w)"
  by (auto simp: asks_def api_write_def split: prod.splits sum.splits)

lemma asks_http [asks_intro]: "P (HttpGet guard url headers) \<Longrightarrow> asks P (api_http api guard url headers)"
  by (auto simp: asks_def api_http_def split: prod.splits sum.splits)

lemma asks_handle [asks_intro]:
  assumes m: "asks P m" and err: "\<And>e. asks P (onerr e)" and k: "\<And>a. asks P (k a)"
  shows "asks P (handle m onerr k)"
  unfolding asks_def
proof
  fix s
  obtain new where new: "writes (snd (m s)) = writes s @ new" "\<forall>(w, ok) \<in> set new. P w"
    using m by (auto simp: asks_def)
  show "\<exists>new. writes (snd (handle m onerr k s)) = writes s @ new \<and> (\<forall>(w, ok) \<in> set new. P w)"
  proof (cases rule: handle_cases [of m s onerr k])
    case (ok a s')
    obtain new' where "writes (snd (k a s')) = writes s' @ new'" "\<forall>(w, ok) \<in> set new'. P w"
      using k [of a] by (auto simp: asks_def)
    with ok new show ?thesis by (intro exI [of _ "new @ new'"]) auto
  next
    case (err e s')
    obtain new' where "writes (snd (onerr e s')) = writes s' @ new'" "\<forall>(w, ok) \<in> set new'. P w"
      using assms(2) [of e] by (auto simp: asks_def)
    with err new show ?thesis by (intro exI [of _ "new @ new'"]) auto
  next
    case (panicked p s')
    with new show ?thesis by auto
  qed
qed

lemma asks_attempt [asks_intro]: "asks P m \<Longrightarrow> (\<And>a. asks P (k a)) \<Longrightarrow> asks P (attempt m msg k)"
  unfolding attempt_def by (intro asks_handle asks_fail)

lemma asks_ignoring [asks_intro]: "asks P m \<Longrightarrow> asks P k \<Longrightarrow> asks P (ignoring m k)"
  unfolding ignoring_def by (intro asks_handle)

lemma asks_deferred [asks_intro]:
  assumes "asks P d" "asks P body"
  shows "asks P (deferred d body)"
  unfolding asks_def deferred_run snd_conv
proof
  fix s
  obtain new where "writes (snd (body s)) = writes s @ new" "\<forall>(w, ok) \<in> set new. P w"
    using assms(2) by (auto simp: asks_def)
  moreover obtain new' where "writes (snd (d (snd (body s)))) = writes (snd (body s)) @ new'"
      "\<forall>(w, ok) \<in> set new'. P w"
    using assms(1) by (auto simp: asks_def)
  ultimately show "\<exists>new. writes (snd (d (snd (body s)))) = writes s @ new \<and> (\<forall>(w, ok) \<in> set new. P w)"
    by (intro exI [of _ "new @ new'"]) auto
qed

lemma asks_if [asks_intro]: "(b \<Longrightarrow> asks P m) \<Longrightarrow> (\<not> b \<Longrightarrow> asks P n) \<Longrightarrow> asks P (if b then m else n)"
  by simp

lemma asks_option [asks_intro]:
  "(x = None \<Longrightarrow> asks P m) \<Longrightarrow> (\<And>a. x = Some a \<Longrightarrow> asks P (f a)) \<Longrightarrow>
   asks P (case x of None \<Rightarrow> m | Some a \<Rightarrow> f a)"
  by (cases x) auto

lemma asks_new: "asks P m \<Longrightarrow> m s = (r, s') \<Longrightarrow> (w, ok) \<in> set (writes s') \<Longrightarrow> (w, ok) \<in> set (writes s) \<or> P w"
  by (fastforce simp: asks_def dest: spec [of _ s])

lemma asks_mono: "asks P m \<Longrightarrow> (\<And>w. P w \<Longrightarrow> Q w) \<Longrightarrow> asks Q m"
  unfolding asks_def by blast

end
