(* ===== verification/Prometheus.thy ===== *)
theory Prometheus
  imports Kube Complex_Main
begin

text \<open>
  The Prometheus scaler, \<^verbatim>\<open>src/pkg/scaling/scalers/prometheus_scaler.go\<close>: the metadata of a
  trigger, the guard against requests to addresses inside the node or the link, the query and the
  decision. The response is decoded into a package variable that keeps its old contents where the
  JSON has no member, the way \<^verbatim>\<open>encoding/json\<close> fills a value that exists; it is part of the
  state. A \<^verbatim>\<open>float64\<close> is a rational, an infinity or not a number. The conversions of text
  (numbers, times, URLs, addresses) are the fields of the record \<open>libs\<close>, an argument.
\<close>

section \<open>Numbers\<close>

datatype float64 = Fin rat | PInf | NInf | NaN

fun flt_less :: "float64 \<Rightarrow> float64 \<Rightarrow> bool" where
  "flt_less (Fin a) (Fin b) = (a < b)"
| "flt_less NInf (Fin b) = True"
| "flt_less NInf PInf = True"
| "flt_less (Fin a) PInf = True"
| "flt_less _ _ = False"

fun flt_eq :: "float64 \<Rightarrow> float64 \<Rightarrow> bool" where
  "flt_eq (Fin a) (Fin b) = (a = b)"
| "flt_eq PInf PInf = True"
| "flt_eq NInf NInf = True"
| "flt_eq _ _ = False"

definition flt_ge :: "float64 \<Rightarrow> float64 \<Rightarrow> bool" where
  "flt_ge a b \<longleftrightarrow> flt_less b a \<or> flt_eq a b"

definition IsInf :: "float64 \<Rightarrow> bool" where
  "IsInf v \<longleftrightarrow> v = PInf \<or> v = NInf"

record libs =
  ParseFloat :: "string \<Rightarrow> go_error + float64"
  FormatRFC3339 :: "time \<Rightarrow> string"
  ParseURL :: "string \<Rightarrow> go_error + string \<times> string"    \<comment> \<open>Hostname() and Host\<close>
  NewRequest :: "string \<Rightarrow> go_error + unit"
  SplitHostPort :: "string \<Rightarrow> go_error + string \<times> string"
  ParseIP :: "string \<Rightarrow> nat list option"
  ParseDuration :: "string \<Rightarrow> go_error + duration"
  cron_Parse :: "string \<Rightarrow> go_error + (time \<Rightarrow> time)"

section \<open>The dial guard\<close>

text \<open>\<^verbatim>\<open>net.IP\<close>: four or sixteen bytes; \<open>To4\<close> reads an IPv4 address in either form.\<close>

type_synonym ip = "nat list"

definition To4 :: "ip \<Rightarrow> ip option" where
  "To4 ip =
     (if length ip = 4 then Some ip
      else if length ip = 16 \<and> take 10 ip = replicate 10 0 \<and> ip ! 10 = 255 \<and> ip ! 11 = 255
      then Some (drop 12 ip) else None)"

definition IsLoopback :: "ip \<Rightarrow> bool" where
  "IsLoopback ip = (case To4 ip of Some ip4 \<Rightarrow> ip4 ! 0 = 127 | None \<Rightarrow> ip = replicate 15 0 @ [1])"

definition IsUnspecified :: "ip \<Rightarrow> bool" where
  "IsUnspecified ip = (To4 ip = Some [0, 0, 0, 0] \<or> ip = replicate 16 0)"

definition IsLinkLocalUnicast :: "ip \<Rightarrow> bool" where
  "IsLinkLocalUnicast ip =
     (case To4 ip of
        Some ip4 \<Rightarrow> ip4 ! 0 = 169 \<and> ip4 ! 1 = 254
      | None \<Rightarrow> length ip = 16 \<and> ip ! 0 = 254 \<and> ip ! 1 div 64 = 2)"

definition IsLinkLocalMulticast :: "ip \<Rightarrow> bool" where
  "IsLinkLocalMulticast ip =
     (case To4 ip of
        Some ip4 \<Rightarrow> ip4 ! 0 = 224 \<and> ip4 ! 1 = 0 \<and> ip4 ! 2 = 0
      | None \<Rightarrow> length ip = 16 \<and> ip ! 0 = 255 \<and> ip ! 1 mod 16 = 2)"

definition IsMulticast :: "ip \<Rightarrow> bool" where
  "IsMulticast ip =
     (case To4 ip of Some ip4 \<Rightarrow> ip4 ! 0 div 16 = 14 | None \<Rightarrow> length ip = 16 \<and> ip ! 0 = 255)"

definition isBlockedIP :: "ip \<Rightarrow> bool" where
  "isBlockedIP ip \<longleftrightarrow> IsLoopback ip \<or> IsUnspecified ip \<or> IsLinkLocalUnicast ip \<or>
     IsLinkLocalMulticast ip \<or> IsMulticast ip"

definition guardDialAddress :: "libs \<Rightarrow> string \<Rightarrow> go_error option" where
  "guardDialAddress l address =
     (case SplitHostPort l address of
        Inl err \<Rightarrow> Some (EWrap ''failed to parse dial address'' err)
      | Inr (h, _) \<Rightarrow>
          (case ParseIP l h of
             None \<Rightarrow> Some (EMsg ''failed to parse dial IP'')
           | Some ip \<Rightarrow> if isBlockedIP ip then Some (EMsg ''connection blocked to prevent SSRF'') else None))"

section \<open>Decoding JSON into a value that exists\<close>

text \<open>
  The decoder goes on after a value of the wrong type and reports the first such error at the
  end: each function returns the new value and whether there was an error. A member matches a
  field up to case; \<^verbatim>\<open>null\<close> leaves a string or struct alone and empties a map or slice.
\<close>

fun decode_string :: "json \<Rightarrow> string \<Rightarrow> string \<times> bool" where
  "decode_string (JStr s) old = (s, False)"
| "decode_string JNull old = (old, False)"
| "decode_string _ old = (old, True)"

fun decode_string_map :: "(string \<times> json) list \<Rightarrow> (string \<times> string) list \<Rightarrow> (string \<times> string) list \<times> bool" where
  "decode_string_map [] m = (m, False)"
| "decode_string_map ((k, v) # kvs) m =
     (let (s, e) = decode_string v [];
          m' = filter (\<lambda>(k', _). k' \<noteq> k) m @ [(k, s)];
          (m'', e') = decode_string_map kvs m'
      in (m'', e \<or> e'))"

fun decode_headers :: "json \<Rightarrow> (string \<times> string) list \<Rightarrow> (string \<times> string) list \<times> bool" where
  "decode_headers (JObj kvs) old = decode_string_map kvs old"
| "decode_headers JNull old = ([], False)"
| "decode_headers _ old = (old, True)"

record prom_elem =
  pe_Metric :: "(string \<times> string) list"
  pe_Value :: "json list"

text \<open>
  The slice of results: \<open>pq_backing\<close> is the backing array and \<open>pq_len\<close> the length of the
  slice over it. Decoding an array reuses the elements of the backing array.
\<close>

record prom_response =
  pq_Status :: string
  pq_ResultType :: string
  pq_backing :: "prom_elem list"
  pq_len :: nat

definition zero_elem :: prom_elem where
  "zero_elem = \<lparr>pe_Metric = [], pe_Value = []\<rparr>"

definition zero_response :: prom_response where
  "zero_response = \<lparr>pq_Status = [], pq_ResultType = [], pq_backing = [], pq_len = 0\<rparr>"

fun decode_elem_fields :: "(string \<times> json) list \<Rightarrow> prom_elem \<Rightarrow> prom_elem \<times> bool" where
  "decode_elem_fields [] e = (e, False)"
| "decode_elem_fields ((k, v) # kvs) e =
     (let (e1, bad) =
            (if EqualFold k ''metric'' then
               (let (m, b) = decode_headers v (pe_Metric e) in (e\<lparr>pe_Metric := m\<rparr>, b))
             else if EqualFold k ''value'' then
               (case v of JArr xs \<Rightarrow> (e\<lparr>pe_Value := xs\<rparr>, False)
                        | JNull \<Rightarrow> (e\<lparr>pe_Value := []\<rparr>, False)
                        | _ \<Rightarrow> (e, True))
             else (e, False));
          (e2, bad') = decode_elem_fields kvs e1
      in (e2, bad \<or> bad'))"

fun decode_elem :: "json \<Rightarrow> prom_elem \<Rightarrow> prom_elem \<times> bool" where
  "decode_elem (JObj kvs) e = decode_elem_fields kvs e"
| "decode_elem JNull e = (e, False)"
| "decode_elem _ e = (e, True)"

fun decode_elems :: "json list \<Rightarrow> prom_elem list \<Rightarrow> prom_elem list \<times> bool" where
  "decode_elems [] backing = (backing, False)"
| "decode_elems (j # js) backing =
     (let (e, bad) = decode_elem j (case backing of [] \<Rightarrow> zero_elem | b # _ \<Rightarrow> b);
          (es, bad') = decode_elems js (tl backing)
      in (e # es, bad \<or> bad'))"

definition decode_result :: "json \<Rightarrow> prom_response \<Rightarrow> prom_response \<times> bool" where
  "decode_result v r =
     (case v of
        JArr [] \<Rightarrow> (r\<lparr>pq_backing := [], pq_len := 0\<rparr>, False)
      | JArr js \<Rightarrow> (let (es, bad) = decode_elems js (pq_backing r)
                   in (r\<lparr>pq_backing := es, pq_len := length js\<rparr>, bad))
      | JNull \<Rightarrow> (r\<lparr>pq_backing := [], pq_len := 0\<rparr>, False)
      | _ \<Rightarrow> (r, True))"

fun decode_data :: "(string \<times> json) list \<Rightarrow> prom_response \<Rightarrow> prom_response \<times> bool" where
  "decode_data [] r = (r, False)"
| "decode_data ((k, v) # kvs) r =
     (let (r1, bad) =
            (if EqualFold k ''resultType'' then
               (let (s, b) = decode_string v (pq_ResultType r) in (r\<lparr>pq_ResultType := s\<rparr>, b))
             else if EqualFold k ''result'' then decode_result v r
             else (r, False));
          (r2, bad') = decode_data kvs r1
      in (r2, bad \<or> bad'))"

fun decode_fields :: "(string \<times> json) list \<Rightarrow> prom_response \<Rightarrow> prom_response \<times> bool" where
  "decode_fields [] r = (r, False)"
| "decode_fields ((k, v) # kvs) r =
     (let (r1, bad) =
            (if EqualFold k ''status'' then
               (let (s, b) = decode_string v (pq_Status r) in (r\<lparr>pq_Status := s\<rparr>, b))
             else if EqualFold k ''data'' then
               (case v of JObj fs \<Rightarrow> decode_data fs r | JNull \<Rightarrow> (r, False) | _ \<Rightarrow> (r, True))
             else (r, False));
          (r2, bad') = decode_fields kvs r1
      in (r2, bad \<or> bad'))"

definition decode_response :: "raw_message \<Rightarrow> prom_response \<Rightarrow> prom_response \<times> bool" where
  "decode_response body r =
     (case body of
        None \<Rightarrow> (r, True)
      | Some (JObj fs) \<Rightarrow> decode_fields fs r
      | Some JNull \<Rightarrow> (r, False)
      | Some _ \<Rightarrow> (r, True))"

section \<open>Metadata and construction\<close>

record prometheus_metadata =
  ServerAddress :: string
  Query :: string
  Threshold :: float64
  UptimeFilter :: string
  Headers :: "(string \<times> string) list"

definition zero_metadata :: prometheus_metadata where
  "zero_metadata = \<lparr>ServerAddress = [], Query = [], Threshold = Fin 0, UptimeFilter = [], Headers = []\<rparr>"

text \<open>A number with the \<^verbatim>\<open>,string\<close> option: a JSON string that starts like a number.\<close>

definition decode_quoted_float :: "libs \<Rightarrow> json \<Rightarrow> float64 \<Rightarrow> float64 \<times> bool" where
  "decode_quoted_float l v old =
     (case v of
        JNull \<Rightarrow> (old, False)
      | JStr (c # cs) \<Rightarrow>
          if c = CHR ''-'' \<or> is_digit c
          then (case ParseFloat l (c # cs) of Inl _ \<Rightarrow> (old, True) | Inr f \<Rightarrow> (f, False))
          else (old, c # cs \<noteq> ''null'')
      | _ \<Rightarrow> (old, True))"

fun decode_metadata :: "libs \<Rightarrow> (string \<times> json) list \<Rightarrow> prometheus_metadata \<Rightarrow> prometheus_metadata \<times> bool" where
  "decode_metadata l [] m = (m, False)"
| "decode_metadata l ((k, v) # kvs) m =
     (let (m1, bad) =
            (if EqualFold k ''serverAddress'' then
               (let (x, b) = decode_string v (ServerAddress m) in (m\<lparr>ServerAddress := x\<rparr>, b))
             else if EqualFold k ''query'' then
               (let (x, b) = decode_string v (Query m) in (m\<lparr>Query := x\<rparr>, b))
             else if EqualFold k ''threshold'' then
               (let (x, b) = decode_quoted_float l v (Threshold m) in (m\<lparr>Threshold := x\<rparr>, b))
             else if EqualFold k ''uptimeFilter'' then
               (let (x, b) = decode_string v (UptimeFilter m) in (m\<lparr>UptimeFilter := x\<rparr>, b))
             else if EqualFold k ''headers'' then
               (let (x, b) = decode_headers v (Headers m) in (m\<lparr>Headers := x\<rparr>, b))
             else (m, False));
          (m2, bad') = decode_metadata l kvs m1
      in (m2, bad \<or> bad'))"

definition parsePrometheusMetadata :: "libs \<Rightarrow> raw_message \<Rightarrow> go_error + prometheus_metadata" where
  "parsePrometheusMetadata l jsonMetadata =
     (let failed = Inl (EMsg ''failed to parse metadata'')
      in case jsonMetadata of
           None \<Rightarrow> failed
         | Some JNull \<Rightarrow> Inr zero_metadata
         | Some (JObj fs) \<Rightarrow>
             (let (m, bad) = decode_metadata l fs zero_metadata in if bad then failed else Inr m)
         | Some _ \<Rightarrow> failed)"

record prometheus_scaler =
  dialGuard :: bool                       \<comment> \<open>of its http client\<close>
  metadata :: prometheus_metadata
  cooldownPeriod :: duration
  defaultServerAddress :: string
  defaultHeaders :: "(string \<times> string) list"
  allowedServerAddresses :: "string list"

definition fetchAllowedServerAddresses :: "env \<Rightarrow> string list" where
  "fetchAllowedServerAddresses Getenv =
     (let raw = Getenv ''PROMETHEUS_TRIGGER_ALLOWED_SERVER_ADDRESSES''
      in if raw = [] then [] else split_trim raw)"

definition fetchDefaultHeaders :: "env \<Rightarrow> (string \<times> string) list" where
  "fetchDefaultHeaders Getenv =
     (let authorizationHeader = Getenv ''PROMETHEUS_TRIGGER_AUTHORIZATION_HEADER''
      in if authorizationHeader \<noteq> [] then [(''Authorization'', authorizationHeader)] else [])"

definition NewPrometheusScaler :: "libs \<Rightarrow> env \<Rightarrow> raw_message \<Rightarrow> duration \<Rightarrow> go_error + prometheus_scaler" where
  "NewPrometheusScaler l Getenv md cooldown =
     (case parsePrometheusMetadata l md of
        Inl err \<Rightarrow> Inl (EWrap ''error creating prometheus scaler'' err)
      | Inr parsed \<Rightarrow>
          (let allowed = fetchAllowedServerAddresses Getenv
           in Inr \<lparr>dialGuard = (length allowed = 0), metadata = parsed, cooldownPeriod = cooldown,
                   defaultServerAddress = Getenv ''PROMETHEUS_TRIGGER_SERVER_ADDRESS'',
                   defaultHeaders = fetchDefaultHeaders Getenv, allowedServerAddresses = allowed\<rparr>))"

section \<open>The query\<close>

definition unreserved :: "char \<Rightarrow> bool" where
  "unreserved c \<longleftrightarrow>
     (let n = (of_char c :: nat)
      in (97 \<le> n \<and> n \<le> 122) \<or> (65 \<le> n \<and> n \<le> 90) \<or> (48 \<le> n \<and> n \<le> 57) \<or>
         n = 45 \<or> n = 95 \<or> n = 46 \<or> n = 126)"

definition upperhex :: "nat \<Rightarrow> char" where
  "upperhex n = (if n < 10 then char_of (n + 48) else char_of (n + 55))"

text \<open>\<^verbatim>\<open>url.QueryEscape\<close>, one byte at a time, then the replacement of \<^verbatim>\<open>+\<close>.\<close>

definition QueryEscape :: "string \<Rightarrow> string" where
  "QueryEscape q = concat (map (\<lambda>c.
     if unreserved c then [c]
     else if c = CHR '' '' then ''+''
     else CHR ''%'' # [upperhex (of_char c div 16), upperhex (of_char c mod 16)]) q)"

definition queryEscape :: "string \<Rightarrow> string" where
  "queryEscape query =
     concat (map (\<lambda>c. if c = CHR ''+'' then ''%20'' else [c]) (QueryEscape query))"

definition getServerAddress :: "prometheus_scaler \<Rightarrow> go_error + string" where
  "getServerAddress sc =
     (if ServerAddress (metadata sc) \<noteq> [] then Inr (ServerAddress (metadata sc))
      else if defaultServerAddress sc = [] then Inl (EMsg ''prometheus serverAddress not configured'')
      else Inr (defaultServerAddress sc))"

fun address_allowed :: "string list \<Rightarrow> string \<Rightarrow> string \<Rightarrow> bool" where
  "address_allowed [] h hp = False"
| "address_allowed (allowed # rest) h hp =
     (if allowed = h \<or> allowed = hp then True else address_allowed rest h hp)"

definition validateServerAddress :: "libs \<Rightarrow> prometheus_scaler \<Rightarrow> string \<Rightarrow> go_error + unit" where
  "validateServerAddress l sc serverAddress =
     (if serverAddress = defaultServerAddress sc \<or> length (allowedServerAddresses sc) = 0 then Inr ()
      else (case ParseURL l serverAddress of
              Inl err \<Rightarrow> Inl (EWrap ''failed to parse serverAddress'' err)
            | Inr (h, hp) \<Rightarrow>
                if address_allowed (allowedServerAddresses sc) h hp then Inr ()
                else Inl (EMsg ''serverAddress is not in the allowed list'')))"

text \<open>\<^verbatim>\<open>Header.Set\<close>: the key in canonical form, upper case at the start and after a hyphen.\<close>

fun canonical_key :: "bool \<Rightarrow> string \<Rightarrow> string" where
  "canonical_key up [] = []"
| "canonical_key up (c # cs) = (if up then upper_char c else lower_char c) # canonical_key (c = CHR ''-'') cs"

definition set_headers :: "(string \<times> string) list \<Rightarrow> (string \<rightharpoonup> string) \<Rightarrow> (string \<rightharpoonup> string)" where
  "set_headers kvs h = foldl (\<lambda>m (k, v). m(canonical_key True k \<mapsto> v)) h kvs"

record 'w scaler_st = "'w st" +
  promQueryResponse :: prom_response

definition decode_into_global :: "raw_message \<Rightarrow> (('w, 'z) scaler_st_scheme, unit) prog" where
  "decode_into_global body = (\<lambda>s.
     let (r, bad) = decode_response body (promQueryResponse s)
     in (if bad then Err (EMsg ''cannot decode'') else Ok (), s\<lparr>promQueryResponse := r\<rparr>))"

text \<open>The checks on the decoded response, from the number of results to the value.\<close>

definition read_value :: "libs \<Rightarrow> prom_response \<Rightarrow> float64 outcome" where
  "read_value l r =
     (if pq_len r = 0 then Err (EMsg ''result is empty'')
      else if pq_len r > 1 then Err (EMsg ''returned multiple elements'')
      else (let vals = pe_Value (pq_backing r ! 0)
            in if length vals = 0 then Err (EMsg ''value list in result is empty'')
               else if length vals < 2 then Err (EMsg ''not enough values'')
               else (let finish = (\<lambda>v. if IsInf v then Err (EMsg ''prometheus query returns Inf'') else Ok v)
                     in case vals ! 1 of
                          JNull \<Rightarrow> finish (Fin (-1))
                        | JStr str \<Rightarrow>
                            (case ParseFloat l str of
                               Inl err \<Rightarrow> Err (EWrap ''failed to parse metric value'' err)
                             | Inr v \<Rightarrow> finish v)
                        | _ \<Rightarrow> Panic ''interface conversion: interface {} is not string'')))"

definition query_url :: "libs \<Rightarrow> string \<Rightarrow> string \<Rightarrow> time \<Rightarrow> string" where
  "query_url l serverAddress query t =
     serverAddress @ ''/api/v1/query?query='' @ queryEscape query @ ''&time='' @ FormatRFC3339 l t"

definition executePromQuery ::
  "libs \<Rightarrow> ('w, 'x) api_scheme \<Rightarrow> prometheus_scaler \<Rightarrow> string \<Rightarrow> (('w, 'z) scaler_st_scheme, float64) prog" where
  "executePromQuery l api sc query =
     handle (time_now api) fail (\<lambda>t.
     handle (pure_call (getServerAddress sc)) fail (\<lambda>serverAddress.
     handle (pure_call (validateServerAddress l sc serverAddress)) fail (\<lambda>_.
     let queryURL = query_url l serverAddress query t in
     attempt (pure_call (NewRequest l queryURL)) ''failed to create HTTP request'' (\<lambda>_.
     let headers = set_headers (Headers (metadata sc)) (set_headers (defaultHeaders sc) Map.empty) in
     attempt (api_http api (dialGuard sc) queryURL headers) ''failed to execute HTTP request'' (\<lambda>resp.
     if http_status resp \<noteq> 200 then fail (EMsg ''unexpected HTTP status'')
     else attempt (decode_into_global (http_body resp)) ''failed to decode Prometheus response'' (\<lambda>_.
       (\<lambda>s. (read_value l (promQueryResponse s), s))))))))"

section \<open>The scaler interface\<close>

definition ShouldScaleToZero ::
  "libs \<Rightarrow> ('w, 'x) api_scheme \<Rightarrow> prometheus_scaler \<Rightarrow> (('w, 'z) scaler_st_scheme, bool) prog" where
  "ShouldScaleToZero l api sc =
     attempt (executePromQuery l api sc (Query (metadata sc))) ''failed to execute prometheus query'' (\<lambda>metricValue.
       if flt_eq metricValue (Fin (-1)) then ret False
       else if flt_less metricValue (Threshold (metadata sc)) then ret True
       else ret False)"

definition ShouldScaleFromZero ::
  "libs \<Rightarrow> ('w, 'x) api_scheme \<Rightarrow> prometheus_scaler \<Rightarrow> (('w, 'z) scaler_st_scheme, bool) prog" where
  "ShouldScaleFromZero l api sc =
     attempt (executePromQuery l api sc (Query (metadata sc))) ''failed to execute prometheus query'' (\<lambda>metricValue.
       if flt_eq metricValue (Fin (-1)) then ret True
       else if flt_ge metricValue (Threshold (metadata sc)) then ret True
       else ret False)"

text \<open>\<^verbatim>\<open>math.Ceil\<close> of the seconds of the cooldown.\<close>

definition ceil_seconds :: "duration \<Rightarrow> int" where
  "ceil_seconds d = - ((- d) div second)"

definition Itoa_int :: "int \<Rightarrow> string" where
  "Itoa_int n = (if n < 0 then CHR ''-'' # Itoa (nat (- n)) else Itoa (nat n))"

definition uptime_query :: "prometheus_scaler \<Rightarrow> string" where
  "uptime_query sc =
     (let uptimeFilter = (if UptimeFilter (metadata sc) = [] then ''container=\"prometheus\"''
                          else UptimeFilter (metadata sc))
      in ''min_over_time((max(up{'' @ uptimeFilter @ ''}) or vector(0))['' @
         Itoa_int (ceil_seconds (cooldownPeriod sc)) @ ''s:])'')"

definition IsHealthy ::
  "libs \<Rightarrow> ('w, 'x) api_scheme \<Rightarrow> prometheus_scaler \<Rightarrow> (('w, 'z) scaler_st_scheme, bool) prog" where
  "IsHealthy l api sc =
     attempt (executePromQuery l api sc (uptime_query sc)) ''failed to execute prometheus query'' (\<lambda>metricValue.
       ret (flt_eq metricValue (Fin 1)))"

section \<open>Where requests go\<close>

text \<open>The destinations an administrator accepts: see \<open>validateServerAddress\<close>.\<close>

definition trusted_address :: "libs \<Rightarrow> prometheus_scaler \<Rightarrow> string \<Rightarrow> bool" where
  "trusted_address l sc addr \<longleftrightarrow>
     addr = defaultServerAddress sc \<or>
     (\<exists>h hp. ParseURL l addr = Inr (h, hp) \<and> (h \<in> set (allowedServerAddresses sc) \<or> hp \<in> set (allowedServerAddresses sc)))"

definition guarded_request :: "libs \<Rightarrow> prometheus_scaler \<Rightarrow> kube_write \<Rightarrow> bool" where
  "guarded_request l sc w \<longleftrightarrow>
     (\<exists>addr query t headers. w = HttpGet (dialGuard sc) (query_url l addr query t) headers \<and> getServerAddress sc = Inr addr \<and>
        (allowedServerAddresses sc = [] \<or> trusted_address l sc addr))"

lemma address_allowed_iff [simp]: "address_allowed as h hp \<longleftrightarrow> h \<in> set as \<or> hp \<in> set as"
  by (induction as) auto

lemma getServerAddress_Inr:
  "getServerAddress sc = Inr a \<Longrightarrow> a \<noteq> [] \<and> a \<in> {ServerAddress (metadata sc), defaultServerAddress sc}"
  by (auto simp: getServerAddress_def split: if_splits)

lemma validateServerAddress_Inr:
  "validateServerAddress l sc a = Inr () \<Longrightarrow> allowedServerAddresses sc = [] \<or> trusted_address l sc a"
  by (auto simp: validateServerAddress_def trusted_address_def split: if_splits sum.splits)

lemma asks_decode [asks_intro]: "asks P (decode_into_global body)"
  by (simp add: asks_def decode_into_global_def Let_def split: prod.splits)

lemma asks_value [asks_intro]: "asks P (\<lambda>s. (f s, s))"
  by (simp add: asks_def)

lemma asks_handle_pure:
  "(\<And>e. asks P (onerr e)) \<Longrightarrow> (\<And>a. r = Inr a \<Longrightarrow> asks P (k a)) \<Longrightarrow> asks P (handle (pure_call r) onerr k)"
  by (cases r) (auto simp: asks_def handle_def pure_call_def)

lemma executePromQuery_asks: "asks (guarded_request l sc) (executePromQuery l api sc q)"
proof -
  have req: "guarded_request l sc (HttpGet (dialGuard sc) (query_url l a q t) h)"
    if "getServerAddress sc = Inr a" "validateServerAddress l sc a = Inr u" for a u t h
    using that validateServerAddress_Inr by (fastforce simp: guarded_request_def)
  show ?thesis
    unfolding executePromQuery_def Let_def
    by (rule asks_handle [OF asks_now asks_fail])
      (intro asks_handle_pure asks_attempt asks_pure asks_if asks_fail asks_decode asks_value asks_http req)
qed

lemma ShouldScaleToZero_asks: "asks (guarded_request l sc) (ShouldScaleToZero l api sc)"
  unfolding ShouldScaleToZero_def by (intro asks_attempt executePromQuery_asks asks_if asks_ret)

lemma ShouldScaleFromZero_asks: "asks (guarded_request l sc) (ShouldScaleFromZero l api sc)"
  unfolding ShouldScaleFromZero_def by (intro asks_attempt executePromQuery_asks asks_if asks_ret)

lemma IsHealthy_asks: "asks (guarded_request l sc) (IsHealthy l api sc)"
  unfolding IsHealthy_def by (intro asks_attempt executePromQuery_asks asks_ret)

section \<open>The contract of a scaler\<close>

text \<open>
  What the scale handler relies on: a scaler asks for nothing but metrics, and it never wants the
  target at zero and up in the same state.
\<close>

fun is_query :: "kube_write \<Rightarrow> bool" where
  "is_query (HttpGet _ _ _) = True"
| "is_query _ = False"

locale scaler =
  fixes healthy to_zero from_zero :: "(('w, 'z) scaler_st_scheme, bool) prog"
  assumes healthy_queries: "asks is_query healthy"
    and to_zero_queries: "asks is_query to_zero"
    and from_zero_queries: "asks is_query from_zero"
    and exclusive: "to_zero s = (Ok True, s') \<Longrightarrow> from_zero s = (Ok False, s')"
begin

lemma not_both: "fst (to_zero s) = Ok True \<Longrightarrow> fst (from_zero s) \<noteq> Ok True"
  by (metis exclusive fst_conv outcome.inject(1) prod.collapse)

lemma decision_queries:
  assumes "asks is_query k"
  shows "asks is_query (handle healthy (\<lambda>e. fail (f e)) (\<lambda>h. if h then handle to_zero (\<lambda>e. fail (g e)) (\<lambda>z. if z then k else ret d) else ret d'))"
  using assms healthy_queries to_zero_queries by (intro asks_handle asks_fail asks_if asks_ret)

end

lemma guarded_is_query: "guarded_request l sc w \<Longrightarrow> is_query w"
  by (auto simp: guarded_request_def)

lemma flt_less_not_ge: "flt_less v t \<Longrightarrow> \<not> flt_ge v t"
  by (cases v; cases t) (auto simp: flt_ge_def)

interpretation prom: scaler "IsHealthy l api sc" "ShouldScaleToZero l api sc" "ShouldScaleFromZero l api sc" for l api sc
proof unfold_locales
  show "asks is_query (IsHealthy l api sc)" "asks is_query (ShouldScaleToZero l api sc)"
    "asks is_query (ShouldScaleFromZero l api sc)"
    by (rule asks_mono [OF IsHealthy_asks guarded_is_query] asks_mono [OF ShouldScaleToZero_asks guarded_is_query]
        asks_mono [OF ShouldScaleFromZero_asks guarded_is_query], assumption)+
  show "ShouldScaleToZero l api sc s = (Ok True, s') \<Longrightarrow> ShouldScaleFromZero l api sc s = (Ok False, s')" for s s'
    by (cases rule: handle_cases [of "executePromQuery l api sc (Query (metadata sc))" s])
      (auto simp: ShouldScaleToZero_def ShouldScaleFromZero_def flt_less_not_ge split: if_splits)
qed

section \<open>Escaping\<close>

text \<open>Percent-decoding, the inverse a server applies to the query parameter.\<close>

definition hex_value :: "char \<Rightarrow> nat option" where
  "hex_value c =
     (let n = of_char c in
      if 48 \<le> n \<and> n \<le> 57 then Some (n - 48) else if 65 \<le> n \<and> n \<le> 70 then Some (n - 55) else None)"

fun percent_decode :: "string \<Rightarrow> string option" where
  "percent_decode [] = Some []"
| "percent_decode (c # cs) =
     (if c = CHR ''%'' then
        (case cs of h # l # r \<Rightarrow>
           (case (hex_value h, hex_value l) of
              (Some a, Some b) \<Rightarrow> map_option ((#) (char_of (a * 16 + b))) (percent_decode r)
            | _ \<Rightarrow> None)
         | _ \<Rightarrow> None)
      else map_option ((#) c) (percent_decode cs))"

definition escape_char :: "char \<Rightarrow> string" where
  "escape_char c =
     (if unreserved c then [c] else CHR ''%'' # [upperhex (of_char c div 16), upperhex (of_char c mod 16)])"

lemma of_char_less: "(of_char c :: nat) < 256"
  by (metis of_char_mod_256 mod_less_divisor zero_less_numeral)

lemma of_char_nibbles: "of_char c div 16 < (16 :: nat)" "of_char c mod 16 < (16 :: nat)"
  using of_char_less [of c] by (simp_all add: less_mult_imp_div_less)

lemma hex_value_upperhex: "n < 16 \<Longrightarrow> hex_value (upperhex n) = Some n"
  by (auto simp: hex_value_def upperhex_def Let_def)

lemma upperhex_unreserved: "n < 16 \<Longrightarrow> unreserved (upperhex n)"
  by (auto simp: unreserved_def upperhex_def Let_def)

lemma plus_escape:
  "concat (map (\<lambda>c. if c = CHR ''+'' then ''%20'' else [c])
     (if unreserved c then [c] else if c = CHR '' '' then ''+''
      else CHR ''%'' # [upperhex (of_char c div 16), upperhex (of_char c mod 16)])) = escape_char c"
proof (cases "unreserved c \<or> c = CHR '' ''")
  case True
  have "escape_char (CHR '' '') = ''%20''" by code_simp
  moreover have "\<not> unreserved (CHR '' '')" "\<not> unreserved (CHR ''+'')" by code_simp+
  ultimately show ?thesis using True by (auto simp: escape_char_def)
next
  case False
  have "unreserved (upperhex (of_char c div 16))" "unreserved (upperhex (of_char c mod 16))"
    by (auto intro!: upperhex_unreserved of_char_nibbles)
  moreover have "\<not> unreserved (CHR ''+'')" by code_simp
  ultimately show ?thesis using False by (auto simp: escape_char_def)
qed

lemma queryEscape_eq: "queryEscape q = concat (map escape_char q)"
  unfolding queryEscape_def QueryEscape_def
  by (induction q) (simp_all add: plus_escape del: if_split)

lemma percent_decode_escape: "percent_decode (escape_char c @ r) = map_option ((#) c) (percent_decode r)"
proof (cases "unreserved c")
  case True
  moreover have "\<not> unreserved (CHR ''%'')" by code_simp
  ultimately show ?thesis by (auto simp: escape_char_def)
next
  case False
  have "hex_value (upperhex (of_char c div 16)) = Some (of_char c div 16)"
    "hex_value (upperhex (of_char c mod 16)) = Some (of_char c mod 16)"
    by (auto intro!: hex_value_upperhex of_char_nibbles)
  with False show ?thesis by (simp add: escape_char_def)
qed

lemma blocked_v4_form:
  assumes "To4 ip = Some [a, b, c, d]" "ip \<noteq> replicate 16 0"
  shows "isBlockedIP ip \<longleftrightarrow>
    a = 127 \<or> [a, b, c, d] = [0, 0, 0, 0] \<or> (a = 169 \<and> b = 254) \<or> 224 \<le> a \<and> a \<le> 239"
proof -
  have "a div 16 = 14 \<longleftrightarrow> 224 \<le> a \<and> a \<le> 239" by presburger
  then show ?thesis
    using assms
    by (simp add: isBlockedIP_def IsLoopback_def IsUnspecified_def IsLinkLocalUnicast_def
        IsLinkLocalMulticast_def IsMulticast_def) auto
qed

section \<open>Properties\<close>

definition accepted_request :: "libs \<Rightarrow> env \<Rightarrow> prometheus_scaler \<Rightarrow> kube_write \<Rightarrow> bool" where
  "accepted_request l Getenv sc w \<longleftrightarrow>
     (\<exists>guard addr query t headers. w = HttpGet guard (query_url l addr query t) headers \<and>
        addr \<noteq> [] \<and> addr \<in> {ServerAddress (metadata sc), Getenv ''PROMETHEUS_TRIGGER_SERVER_ADDRESS''} \<and>
        (if fetchAllowedServerAddresses Getenv = [] then guard else trusted_address l sc addr))"

text \<open>
  C6: every request a scaler sends carries the address of the trigger or the default address of
  the operator. Without an allowlist the client has the dial guard; with an allowlist the address
  is the operator's default or its host is on the list. Nothing else is asked for.
\<close>

theorem prometheus_requests_guarded:
  assumes "NewPrometheusScaler l Getenv md cooldown = Inr sc"
  shows "asks (accepted_request l Getenv sc) (ShouldScaleToZero l api sc) \<and>
    asks (accepted_request l Getenv sc) (IsHealthy l api sc)"
proof -
  have "dialGuard sc = (fetchAllowedServerAddresses Getenv = [])"
    "allowedServerAddresses sc = fetchAllowedServerAddresses Getenv"
    "defaultServerAddress sc = Getenv ''PROMETHEUS_TRIGGER_SERVER_ADDRESS''"
    using assms by (auto simp: NewPrometheusScaler_def Let_def split: sum.splits)
  then have "accepted_request l Getenv sc w" if "guarded_request l sc w" for w
    using that getServerAddress_Inr [of sc] unfolding guarded_request_def accepted_request_def by fastforce
  then show ?thesis using asks_mono [OF ShouldScaleToZero_asks] asks_mono [OF IsHealthy_asks] by blast
qed

text \<open>
  The dial guard refuses loopback, unspecified, link-local (the cloud metadata service at
  169.254.169.254 among them) and multicast IPv4 addresses, whether written as four bytes or as
  an IPv4-mapped IPv6 address, and no other; private ranges pass.
\<close>

theorem blocked_ipv4:
  "(isBlockedIP [a, b, c, d] \<longleftrightarrow>
     a = 127 \<or> [a, b, c, d] = [0, 0, 0, 0] \<or> (a = 169 \<and> b = 254) \<or> 224 \<le> a \<and> a \<le> 239) \<and>
   isBlockedIP (replicate 10 0 @ [255, 255, a, b, c, d]) = isBlockedIP [a, b, c, d]"
proof -
  have "To4 (replicate 10 0 @ [255, 255, a, b, c, d]) = Some [a, b, c, d]"
    "replicate 10 0 @ [255, 255, a, b, c, d] \<noteq> replicate 16 (0 :: nat)"
    by (simp_all add: To4_def nth_append eval_nat_numeral)
  moreover have "To4 [a, b, c, d] = Some [a, b, c, d]" "[a, b, c, d] \<noteq> replicate 16 0"
    by (simp_all add: To4_def eval_nat_numeral)
  ultimately show ?thesis using blocked_v4_form by blast
qed

text \<open>
  C40: the escaped query consists of unreserved characters and percent signs only, so it cannot
  add parameters to the URL, and decoding it gives back the query.
\<close>

theorem query_escape_roundtrip:
  "percent_decode (queryEscape q) = Some q \<and>
   list_all (\<lambda>c. unreserved c \<or> c = CHR ''%'') (queryEscape q)"
  unfolding queryEscape_eq
proof (induction q)
  case (Cons c q)
  have "list_all (\<lambda>c. unreserved c \<or> c = CHR ''%'') (escape_char c)"
    by (auto simp: escape_char_def intro!: upperhex_unreserved of_char_nibbles)
  with Cons show ?case by (simp add: percent_decode_escape)
qed simp

text \<open>A server that knows no object and answers every query with one response.\<close>

definition constant_api :: "http_response \<Rightarrow> unit api" where
  "constant_api resp =
     \<lparr>a_getES = (\<lambda>_ w. (Inl (EStatus NotFound), w)), a_listES = (\<lambda>w. (Inr [], w)),
      a_dynListES = (\<lambda>_ w. (Inr [], w)), a_getService = (\<lambda>_ w. (Inl (EStatus NotFound), w)),
      a_getSlice = (\<lambda>_ w. (Inl (EStatus NotFound), w)), a_listSlices = (\<lambda>_ _ w. (Inr [], w)),
      a_listPods = (\<lambda>_ _ w. (Inr [], w)), a_getScale = (\<lambda>_ _ _ w. (Inl (EStatus NotFound), w)),
      a_getDynamic = (\<lambda>_ _ _ w. (Inl (EStatus NotFound), w)), a_addEventHandler = (\<lambda>_ _ _ w. (Inr (), w)),
      a_waitForSync = (\<lambda>_ _ _ w. (True, w)), a_write = (\<lambda>_ w. (Inr (), w)), a_now = (\<lambda>w. (0, w)),
      a_http = (\<lambda>_ _ _ w. (Inr resp, w)), a_getenv = (\<lambda>_. []),
      a_ParseGroupVersion = (\<lambda>v. Inr ([], v)), a_toLabelSelector = Inr, a_asSelector = Inr,
      a_controllerReference = (\<lambda>_ _. Inl (EMsg ''no scheme''))\<rparr>"

definition numeric_response :: http_response where
  "numeric_response =
     \<lparr>http_status = 200,
      http_body = Some (JObj [(''data'', JObj [(''result'', JArr [JObj [(''value'', JArr [JNum ''1'', JNum ''5''])]])])])\<rparr>"

text \<open>A library of conversions for concrete runs: decimal numbers, host names without a scheme.\<close>

definition sample_libs :: libs where
  "sample_libs =
     \<lparr>ParseFloat = (\<lambda>t. case ParseInt 64 t of Some n \<Rightarrow> Inr (Fin (of_int n)) | None \<Rightarrow> Inl (EMsg ''invalid syntax'')),
      FormatRFC3339 = (\<lambda>t. Itoa (nat t)),
      ParseURL = (\<lambda>u. Inr (takeWhile (\<lambda>c. c \<noteq> CHR '':'') u, u)),
      NewRequest = (\<lambda>u. Inr ()),
      SplitHostPort = (\<lambda>a. Inl (EMsg ''missing port'')),
      ParseIP = (\<lambda>h. None),
      ParseDuration = (\<lambda>d. if d = ''8h'' then Inr (8 * 3600 * second) else Inl (EMsg ''invalid duration'')),
      cron_Parse = (\<lambda>c. Inl (EMsg ''bad schedule''))\<rparr>"

definition sample_metadata :: raw_message where
  "sample_metadata = Some (JObj [(''query'', JStr ''rate''), (''threshold'', JStr ''5''), (''serverAddress'', JStr ''prom:9090'')])"

definition sample_scaler :: prometheus_scaler where
  "sample_scaler = (case NewPrometheusScaler sample_libs (\<lambda>_. []) sample_metadata (900 * second) of Inr sc \<Rightarrow> sc)"

lemma sample_scaler_new:
  "NewPrometheusScaler sample_libs (\<lambda>_. []) sample_metadata (900 * second) = Inr sample_scaler"
  by code_simp

theorem prometheus_requests_guarded_witness:
  "asks (accepted_request sample_libs (\<lambda>_. []) sample_scaler) 
     (ShouldScaleToZero sample_libs (constant_api numeric_response) sample_scaler :: (unit scaler_st, bool) prog)"
  using prometheus_requests_guarded [OF sample_scaler_new] by blast

text \<open>
  A response without a \<^verbatim>\<open>data\<close> member is read as the response to the query before it: the
  decoder leaves the results of the package variable where they are, and the scaler reports the
  value of another query, possibly of another service.
\<close>

theorem stale_response_reused:
  assumes "list_all (\<lambda>(k, v). \<not> EqualFold k ''data'') fs"
  shows "read_value l (fst (decode_response (Some (JObj fs)) r)) = read_value l r"
proof -
  have "pq_backing (fst (decode_fields fs r)) = pq_backing r \<and> pq_len (fst (decode_fields fs r)) = pq_len r"
    using assms
  proof (induction fs arbitrary: r)
    case (Cons kv fs)
    obtain k v where kv: "kv = (k, v)" by fastforce
    show ?case
      using Cons.prems Cons.IH by (simp add: kv Let_def case_prod_beta)
  qed simp
  then show ?thesis by (simp add: decode_response_def read_value_def Let_def)
qed

definition stale_sample :: prom_response where
  "stale_sample =
     \<lparr>pq_Status = ''success'', pq_ResultType = ''vector'',
      pq_backing = [\<lparr>pe_Metric = [], pe_Value = [JNum ''1'', JStr ''3'']\<rparr>], pq_len = 1\<rparr>"

theorem stale_response_reused_witness:
  "read_value sample_libs (fst (decode_response (Some (JObj [(''status'', JStr ''success'')])) stale_sample)) = Ok (Fin 3)"
proof -
  have "read_value sample_libs stale_sample = Ok (Fin 3)" by code_simp
  moreover have "list_all (\<lambda>(k, v). \<not> EqualFold k ''data'') [(''status'', JStr ''success'')]" by code_simp
  ultimately show ?thesis using stale_response_reused [of "[(''status'', JStr ''success'')]" sample_libs stale_sample] by simp
qed

text \<open>
  A sample value that is a JSON number instead of a string panics: the type assertion
  \<^verbatim>\<open>val.(string)\<close> has no \<^verbatim>\<open>ok\<close> result, so a server can stop the operator.
\<close>

theorem numeric_value_panics:
  assumes "http_body resp = Some (JObj [(''data'', JObj [(''result'', JArr [JObj [(''value'', JArr [ts, JNum n])]])])])"
    and "http_status resp = 200" and "getServerAddress sc = Inr addr" and "validateServerAddress l sc addr = Inr ()"
    and "\<And>u. NewRequest l u = Inr ()" and "\<And>g u h w. a_http api g u h w = (Inr resp, w)"
  shows "\<exists>p. fst (executePromQuery l api sc query s) = Panic p"
proof -
  have ef: "EqualFold ''data'' ''data''" "\<not> EqualFold ''data'' ''status''" "EqualFold ''result'' ''result''"
    "\<not> EqualFold ''result'' ''resultType''" "EqualFold ''value'' ''value''" "\<not> EqualFold ''value'' ''metric''"
    by code_simp+
  have "\<exists>r'. decode_response (http_body resp) r = (r', False) \<and> pq_len r' = 1 \<and> pe_Value (pq_backing r' ! 0) = [ts, JNum n]" for r
    by (simp add: assms(1) decode_response_def decode_result_def ef Let_def split: prod.splits)
  then obtain r' where r': "decode_response (http_body resp) (promQueryResponse s) = (r', False)"
      "pq_len r' = 1" "pe_Value (pq_backing r' ! 0) = [ts, JNum n]"
    by blast
  then have "read_value l r' = Panic ''interface conversion: interface {} is not string''"
    by (simp add: read_value_def Let_def)
  with r' show ?thesis
    using assms(2-6)
    by (simp add: executePromQuery_def attempt_def handle_def time_now_def api_ask_def pure_call_def api_http_def
        decode_into_global_def Let_def case_prod_beta)
qed

theorem numeric_value_panics_witness:
  "\<exists>p. fst (executePromQuery sample_libs (constant_api numeric_response) sample_scaler ''up''
      \<lparr>world = (), writes = [], promQueryResponse = zero_response\<rparr>) = Panic p"
proof (rule numeric_value_panics)
  show "getServerAddress sample_scaler = Inr ''prom:9090''" by code_simp
  show "validateServerAddress sample_libs sample_scaler ''prom:9090'' = Inr ()" by code_simp
qed (simp_all add: numeric_response_def sample_libs_def constant_api_def)

end
