(* ===== verification/Cron.thy ===== *)
theory Cron
  imports Types
begin

text \<open>
  The enabled window of a service, \<^verbatim>\<open>src/pkg/cronutil/cronutil.go\<close>. The cron parser is the
  third-party package \<^verbatim>\<open>robfig/cron\<close>: it is a parameter, a function from the text of a
  schedule to the \<^verbatim>\<open>Next\<close> method of the parsed schedule, and what the code relies on is
  \<open>next_activation\<close>, the documentation of that method. \<^verbatim>\<open>time.ParseDuration\<close> is a
  parameter too: no property depends on how a duration is written. The loop over the activations
  is a \<open>partial_function\<close>, so that it returns is a theorem.
\<close>

type_synonym cron_schedule = "time \<Rightarrow> time"

definition hours :: "int \<Rightarrow> duration" where
  "hours n = n * 3600 * second"

text \<open>Arithmetic of \<^verbatim>\<open>time.Duration\<close>, an \<^verbatim>\<open>int64\<close>.\<close>

definition wrap64 :: "int \<Rightarrow> int" where
  "wrap64 x = (x + 2 ^ 63) mod 2 ^ 64 - 2 ^ 63"

definition ParseCronSchedule :: "(string \<Rightarrow> go_error + cron_schedule) \<Rightarrow> string \<Rightarrow> go_error + cron_schedule" where
  "ParseCronSchedule parse schedule =
     (if schedule = [] then Inl (EMsg ''cron schedule cannot be empty'')
      else (case parse schedule of
              Inl err \<Rightarrow> Inl (EWrap ''invalid cron expression'' err)
            | Inr cronSchedule \<Rightarrow> Inr cronSchedule))"

definition ValidateDuration :: "(string \<Rightarrow> go_error + duration) \<Rightarrow> string \<Rightarrow> go_error + duration" where
  "ValidateDuration ParseDuration duration =
     (if duration = [] then Inl (EMsg ''duration cannot be empty'')
      else (case ParseDuration duration of
              Inl err \<Rightarrow> Inl (EWrap ''invalid duration'' err)
            | Inr d \<Rightarrow> if d \<le> 0 then Inl (EMsg ''duration must be positive'') else Inr d))"

text \<open>The loop of \<^verbatim>\<open>findLastTriggerTime\<close>; 0 is the zero time.\<close>

partial_function (option) trigger_loop :: "cron_schedule \<Rightarrow> time \<Rightarrow> time \<Rightarrow> time \<Rightarrow> time option" where
  "trigger_loop Next now triggerTime lastTrigger =
     (if \<not> triggerTime > now \<and> triggerTime \<noteq> 0
      then trigger_loop Next now (Next triggerTime) triggerTime
      else Some lastTrigger)"

declare trigger_loop.simps [code]

definition findLastTriggerTime :: "cron_schedule \<Rightarrow> time \<Rightarrow> duration \<Rightarrow> time option" where
  "findLastTriggerTime Next now lookbackWindow =
     (let earliestTime = now + wrap64 (- lookbackWindow)
      in trigger_loop Next now (Next earliestTime) 0)"

text \<open>\<open>None\<close>: the call does not return.\<close>

definition IsInEnabledPeriodAt ::
  "(string \<Rightarrow> go_error + cron_schedule) \<Rightarrow> string \<Rightarrow> duration \<Rightarrow> time \<Rightarrow> (go_error + bool) option" where
  "IsInEnabledPeriodAt parse schedule duration now =
     (case ParseCronSchedule parse schedule of
        Inl err \<Rightarrow> Some (Inl (EWrap ''failed to parse cron schedule'' err))
      | Inr cronSchedule \<Rightarrow>
          (let lookbackWindow = wrap64 (duration + hours 24)
           in case findLastTriggerTime cronSchedule now lookbackWindow of
                None \<Rightarrow> None
              | Some lastTrigger \<Rightarrow>
                  if lastTrigger = 0 then Some (Inr False)
                  else Some (Inr (now < lastTrigger + duration))))"

section \<open>What the cron package promises\<close>

text \<open>
  \<^verbatim>\<open>Next\<close> returns the first activation time later than its argument, or the zero time if there
  is none within five years.
\<close>

definition five_years :: duration where
  "five_years = hours (24 * 365 * 5)"

definition next_activation :: "time set \<Rightarrow> cron_schedule \<Rightarrow> bool" where
  "next_activation T Next \<longleftrightarrow>
     (\<forall>t. if Next t = 0 then \<forall>u \<in> T. t < u \<longrightarrow> t + five_years < u
          else t < Next t \<and> Next t \<in> T \<and> (\<forall>u \<in> T. t < u \<longrightarrow> Next t \<le> u))"

lemma next_activationD:
  assumes "next_activation T Next"
  shows "Next t = 0 \<Longrightarrow> u \<in> T \<Longrightarrow> t < u \<Longrightarrow> t + five_years < u"
    and "Next t \<noteq> 0 \<Longrightarrow> t < Next t"
    and "Next t \<noteq> 0 \<Longrightarrow> Next t \<in> T"
    and "Next t \<noteq> 0 \<Longrightarrow> u \<in> T \<Longrightarrow> t < u \<Longrightarrow> Next t \<le> u"
  using assms unfolding next_activation_def by metis+

section \<open>The loop\<close>

text \<open>
  Started at the first activation after \<open>t\<close>, the loop returns the last activation up to
  \<open>now\<close>, or \<open>last\<close> if there is none.
\<close>

definition last_in :: "time set \<Rightarrow> time \<Rightarrow> time \<Rightarrow> time \<Rightarrow> time \<Rightarrow> bool" where
  "last_in T t now dflt r \<longleftrightarrow>
     (r \<in> T \<and> t < r \<and> r \<le> now \<and> (\<forall>u \<in> T. u \<le> now \<longrightarrow> u \<le> r)) \<or>
     (r = dflt \<and> (\<forall>u \<in> T. t < u \<longrightarrow> now < u))"

lemma trigger_loop_returns:
  assumes T: "next_activation T Next"
  shows "now - t \<le> five_years \<Longrightarrow> \<exists>r. trigger_loop Next now (Next t) dflt = Some r \<and> last_in T t now dflt r"
proof (induction "nat (now - t)" arbitrary: t dflt rule: less_induct)
  case less
  note nx = next_activationD [OF T, of t]
  show ?case
  proof (cases "Next t = 0 \<or> now < Next t")
    case True
    then have "trigger_loop Next now (Next t) dflt = Some dflt"
      by (subst trigger_loop.simps) auto
    moreover have "last_in T t now dflt dflt"
      using True nx less.prems by (fastforce simp: last_in_def)
    ultimately show ?thesis by blast
  next
    case False
    with nx(2) have lt: "t < Next t" "Next t \<le> now" by auto
    then have "nat (now - Next t) < nat (now - t)" "now - Next t \<le> five_years"
      using less.prems by auto
    then obtain r where r: "trigger_loop Next now (Next (Next t)) (Next t) = Some r" "last_in T (Next t) now (Next t) r"
      using less.hyps by blast
    have "trigger_loop Next now (Next t) dflt = Some r"
      using False r(1) by (subst trigger_loop.simps) auto
    moreover have "last_in T t now dflt r"
      using r(2) lt False nx(3,4) by (fastforce simp: last_in_def)
    ultimately show ?thesis by blast
  qed
qed

lemma wrap64_id: "- (2 ^ 63) \<le> x \<Longrightarrow> x < 2 ^ 63 \<Longrightarrow> wrap64 x = x"
  by (simp add: wrap64_def)

lemma hours_pos: "0 < hours 24" by (simp add: hours_def)

section \<open>Properties\<close>

text \<open>
  C26: the enabled check returns, and it answers true exactly if some activation of the schedule
  is at most \<open>duration\<close> old: there is an activation \<open>u\<close> with
  \<open>u \<le> now < u + duration\<close>. (The look-back must fit the five years the cron package
  searches, which every duration below about 1824 days does.)
\<close>

theorem enabled_period_correct:
  assumes "schedule \<noteq> []" and "parse schedule = Inr Next" and T: "next_activation T Next" and "0 \<notin> T"
    and d: "0 < duration" "duration + hours 24 \<le> five_years"
  shows "\<exists>b. IsInEnabledPeriodAt parse schedule duration now = Some (Inr b) \<and>
    (b \<longleftrightarrow> (\<exists>u \<in> T. u \<le> now \<and> now < u + duration))"
proof -
  have big: "five_years < 2 ^ 63" by (simp add: five_years_def hours_def)
  let ?t = "now - (duration + hours 24)"
  have lb: "wrap64 (duration + hours 24) = duration + hours 24" "wrap64 (- (duration + hours 24)) = - (duration + hours 24)"
    using d big hours_pos by (auto intro: wrap64_id)
  obtain r where r: "trigger_loop Next now (Next ?t) 0 = Some r" "last_in T ?t now 0 r"
    using trigger_loop_returns [OF T, of now ?t 0] d by auto
  have "now + wrap64 (- (duration + hours 24)) = ?t" by (simp only: lb)
  then have "findLastTriggerTime Next now (duration + hours 24) = Some r"
    using r(1) by (simp only: findLastTriggerTime_def Let_def)
  then have "IsInEnabledPeriodAt parse schedule duration now = Some (Inr (r \<noteq> 0 \<and> now < r + duration))"
    using assms(1,2) lb by (simp add: IsInEnabledPeriodAt_def ParseCronSchedule_def)
  moreover have "(r \<noteq> 0 \<and> now < r + duration) \<longleftrightarrow> (\<exists>u \<in> T. u \<le> now \<and> now < u + duration)"
    using r(2) assms(4) hours_pos by (fastforce simp: last_in_def)
  ultimately show ?thesis by blast
qed

text \<open>A schedule with one activation a day, at midnight.\<close>

definition daily :: cron_schedule where
  "daily t = hours 24 * (max 0 (t div hours 24) + 1)"

definition midnights :: "time set" where
  "midnights = (\<lambda>k. hours 24 * (k + 1)) ` {0..}"

lemma daily_activations: "next_activation midnights daily"
proof -
  have H: "0 < hours 24" by (rule hours_pos)
  have pos: "0 < daily t" for t
    using H by (simp add: daily_def)
  have gt: "t < daily t" for t
  proof -
    have "t < hours 24 * (t div hours 24) + hours 24"
      using pos_mod_bound [OF H, of t] mult_div_mod_eq [of "hours 24" t] by linarith
    also have "\<dots> = hours 24 * (t div hours 24 + 1)" by (simp add: algebra_simps)
    also have "\<dots> \<le> daily t" unfolding daily_def using H by (intro mult_left_mono) auto
    finally show ?thesis .
  qed
  have le: "daily t \<le> hours 24 * (k + 1)" if "0 \<le> k" "t < hours 24 * (k + 1)" for t k
  proof -
    have "hours 24 * (t div hours 24) < hours 24 * (k + 1)"
      using that(2) H pos_mod_sign [OF H, of t] mult_div_mod_eq [of "hours 24" t] by linarith
    then have "t div hours 24 < k + 1" using H by (simp add: mult_less_cancel_left_pos)
    then show ?thesis unfolding daily_def using that(1) H by (intro mult_left_mono) auto
  qed
  have mem: "daily t \<in> midnights" for t
    by (auto simp: midnights_def daily_def)
  show ?thesis
    unfolding next_activation_def using pos gt mem le
    by (auto simp: midnights_def less_le)
qed

theorem enabled_period_correct_witness:
  "\<exists>b. IsInEnabledPeriodAt (\<lambda>_. Inr daily) ''0 0 * * *'' (hours 8) (hours 30) = Some (Inr b) \<and>
     (b \<longleftrightarrow> (\<exists>u \<in> midnights. u \<le> hours 30 \<and> hours 30 < u + hours 8))"
proof (rule enabled_period_correct)
  show "next_activation midnights daily" by (rule daily_activations)
  show "0 \<notin> midnights" using hours_pos by (auto simp: midnights_def)
qed (simp_all add: five_years_def hours_def)

lemma wrap64_over:
  assumes "2 ^ 63 \<le> x" "x < 2 ^ 63 + 2 ^ 64"
  shows "wrap64 x = x - 2 ^ 64"
proof -
  have "(x + 2 ^ 63) mod 2 ^ 64 = (x + 2 ^ 63 - 2 ^ 64) mod 2 ^ 64" using minus_mod_self2 [of "x + 2 ^ 63" "2 ^ 64"] by simp
  also have "\<dots> = x + 2 ^ 63 - 2 ^ 64" using assms by (intro mod_pos_pos_trivial) auto
  finally show ?thesis by (simp add: wrap64_def)
qed

text \<open>
  A positive duration so long that the look-back of \<open>duration + 24h\<close> exceeds the range of
  \<^verbatim>\<open>time.Duration\<close> makes the look-back negative: the search starts in the future and the
  service is never enabled, although every activation of the last three centuries is in its window.
\<close>

theorem huge_duration_never_enabled:
  assumes "schedule \<noteq> []" and "parse schedule = Inr Next" and "next_activation T Next"
    and "duration < 2 ^ 63" and "2 ^ 63 < duration + hours 24"
  shows "IsInEnabledPeriodAt parse schedule duration now = Some (Inr False)"
proof -
  have H: "hours 24 = 86400000000000" by (simp add: hours_def)
  have "wrap64 (duration + hours 24) = duration + hours 24 - 2 ^ 64"
    using assms(4,5) unfolding H by (intro wrap64_over) auto
  moreover have "wrap64 (- (duration + hours 24 - 2 ^ 64)) = - (duration + hours 24 - 2 ^ 64)"
    using assms(4,5) unfolding H by (intro wrap64_id) auto
  moreover have "0 < - (duration + hours 24 - 2 ^ 64)" using assms(4) unfolding H by simp
  ultimately have early: "now < now + wrap64 (- wrap64 (duration + hours 24))" by simp
  let ?n = "Next (now + wrap64 (- wrap64 (duration + hours 24)))"
  have "?n = 0 \<or> now < ?n"
    using next_activationD(2) [OF assms(3), of "now + wrap64 (- wrap64 (duration + hours 24))"] early by fastforce
  then have "findLastTriggerTime Next now (wrap64 (duration + hours 24)) = Some 0"
    unfolding findLastTriggerTime_def Let_def by (subst trigger_loop.simps) auto
  then show ?thesis
    using assms(1,2) by (simp add: IsInEnabledPeriodAt_def ParseCronSchedule_def)
qed

theorem huge_duration_never_enabled_witness:
  "IsInEnabledPeriodAt (\<lambda>_. Inr daily) ''0 0 * * *'' (hours 2562047) (hours 30) = Some (Inr False)"
  by (rule huge_duration_never_enabled [OF _ _ daily_activations]) (simp_all add: hours_def)

end
