(* ===== verification/Scale_Handler.thy ===== *)
theory Scale_Handler
  imports Prometheus Cron
begin

text \<open>
  The scale handler, \<^verbatim>\<open>src/pkg/scaling/scale_handler.go\<close>: the periodic check that decides for
  every ElastiService whether its target goes to zero, goes up or stays, the two handlers that act
  on the decision, and \<^verbatim>\<open>Scale\<close>, the only code that changes a replica count. A call that
  does not return (only the cron loop could) is a \<open>Panic\<close>: nothing after it runs.
\<close>

section \<open>KEDA and status patches\<close>

definition kedaPausedAnnotation :: string where
  "kedaPausedAnnotation = ''autoscaling.keda.sh/paused''"

definition kedaPausedReplicasAnnotation :: string where
  "kedaPausedReplicasAnnotation = ''autoscaling.keda.sh/paused-replicas''"

definition keda_patch :: "bool \<Rightarrow> (string \<times> string option) list" where
  "keda_patch paused =
     (if paused then [(kedaPausedAnnotation, Some ''true''), (kedaPausedReplicasAnnotation, Some ''0'')]
      else [(kedaPausedAnnotation, Some ''false''), (kedaPausedReplicasAnnotation, None)])"

definition UpdateKedaScaledObjectPausedState ::
  "('w, 'x) api_scheme \<Rightarrow> string \<Rightarrow> string \<Rightarrow> bool \<Rightarrow> (('w, 'z) st_scheme, unit) prog" where
  "UpdateKedaScaledObjectPausedState api scaledObjectName namespace paused =
     attempt (api_write api (PatchScaledObject namespace scaledObjectName (keda_patch paused)))
       ''failed to patch ScaledObject'' (\<lambda>_. ret ())"

definition UpdateLastScaledUpTime ::
  "('w, 'x) api_scheme \<Rightarrow> string \<Rightarrow> string \<Rightarrow> (('w, 'z) st_scheme, unit) prog" where
  "UpdateLastScaledUpTime api crdName namespace =
     handle (time_now api) fail (\<lambda>now.
     attempt (api_write api (PatchLastScaledUp namespace crdName now))
       ''failed to patch ElastiService status'' (\<lambda>_. ret ()))"

definition createEvent ::
  "('w, 'x) api_scheme \<Rightarrow> string \<Rightarrow> string \<Rightarrow> string \<Rightarrow> string \<Rightarrow> (('w, 'z) st_scheme, 'b) prog \<Rightarrow> (('w, 'z) st_scheme, 'b) prog" where
  "createEvent api namespace name eventType reason k =
     ignoring (api_write api (RecordEvent namespace name eventType reason)) k"

section \<open>Scale\<close>

definition APIVersionStrToGVK :: "('w, 'x) api_scheme \<Rightarrow> string \<Rightarrow> string \<Rightarrow> go_error + gvk" where
  "APIVersionStrToGVK api apiVersion kind =
     (case a_ParseGroupVersion api apiVersion of
        Inl err \<Rightarrow> Inl (EWrap ''failed to parse API version'' err)
      | Inr (g, v) \<Rightarrow> Inr \<lparr>gvk_Group = g, gvk_Version = v, gvk_Kind = kind\<rparr>)"

definition target_resource :: "gvk \<Rightarrow> group_resource" where
  "target_resource targetGVK =
     \<lparr>gr_Group = gvk_Group targetGVK, gr_Resource = KindToResource (gvk_Kind targetGVK)\<rparr>"

text \<open>The loop of at most \<open>n\<close> attempts to read the scale subresource.\<close>

fun get_scale :: "('w, 'x) api_scheme \<Rightarrow> nat \<Rightarrow> string \<Rightarrow> group_resource \<Rightarrow> string \<Rightarrow> (('w, 'z) st_scheme, scale) prog" where
  "get_scale api 0 namespace gr targetName = fail (EMsg '''')"
| "get_scale api (Suc n) namespace gr targetName =
     handle (api_read (a_getScale api namespace gr targetName))
       (\<lambda>err. if IsNoMatchError err
              then ignoring (api_write api ResetRESTMapper)
                     (if n = 0 then fail err else get_scale api n namespace gr targetName)
              else fail err)
       ret"

definition Scale ::
  "('w, 'x) api_scheme \<Rightarrow> string \<Rightarrow> gvk \<Rightarrow> string \<Rightarrow> int \<Rightarrow> (('w, 'z) st_scheme, bool) prog" where
  "Scale api namespace targetGVK targetName desiredReplicas =
     (let gr = target_resource targetGVK in
      handle (get_scale api 2 namespace gr targetName)
        (\<lambda>err. createEvent api namespace targetName ''Error'' ''FailedToScale''
                 (fail (EWrap ''failed to get scale'' err)))
        (\<lambda>currentScale.
           if sc_StatusReplicas currentScale = desiredReplicas then ret False
           else if desiredReplicas > 0 \<and> sc_StatusReplicas currentScale > desiredReplicas then ret False
           else handle (api_write api (UpdateScale namespace gr targetName (currentScale\<lparr>sc_SpecReplicas := desiredReplicas\<rparr>)))
                  (\<lambda>err. createEvent api namespace targetName ''Warning'' ''FailedToScale''
                           (fail (EWrap ''failed to update scale'' err)))
                  (\<lambda>_. createEvent api namespace targetName ''Normal'' ''SuccessToScale'' (ret True))))"

definition ScaleToMinReplicas ::
  "('w, 'x) api_scheme \<Rightarrow> string \<Rightarrow> es_spec \<Rightarrow> (('w, 'z) st_scheme, bool) prog" where
  "ScaleToMinReplicas api namespace spec =
     (let scaleTargetRef = fst (GetScaleTargetRef spec);
          replicas = (if MinTargetReplicas spec < 1 then 1 else MinTargetReplicas spec)
      in attempt (pure_call (APIVersionStrToGVK api (tr_APIVersion scaleTargetRef) (tr_Kind scaleTargetRef)))
           ''failed to parse API version'' (\<lambda>targetGVK.
         Scale api namespace targetGVK (tr_Name scaleTargetRef) replicas))"

section \<open>The decision\<close>

datatype scale_direction = ScaleUp | ScaleDown | NoScale

definition resolveCooldownPeriod :: "elasti_service \<Rightarrow> duration" where
  "resolveCooldownPeriod es =
     (let c = second * CooldownPeriod (Spec es) in if c = 0 then DefaultCooldownPeriod else c)"

definition isInEnabledPeriod :: "libs \<Rightarrow> ('w, 'x) api_scheme \<Rightarrow> enabled_period \<Rightarrow> (('w, 'z) st_scheme, bool) prog" where
  "isInEnabledPeriod l api enabledPeriod =
     (let schedule = (if ep_Schedule enabledPeriod = [] then ''0 0 * * *'' else ep_Schedule enabledPeriod);
          durationStr = (if ep_Duration enabledPeriod = [] then ''24h'' else ep_Duration enabledPeriod)
      in attempt (pure_call (ValidateDuration (ParseDuration l) durationStr)) ''invalid duration'' (\<lambda>duration.
         handle (time_now api) fail (\<lambda>now.
         case IsInEnabledPeriodAt (cron_Parse l) schedule duration now of
           None \<Rightarrow> panic ''does not return''
         | Some r \<Rightarrow> attempt (pure_call r) ''failed to check enabled period'' ret)))"

definition createScalerForTrigger :: "libs \<Rightarrow> env \<Rightarrow> scale_trigger \<Rightarrow> duration \<Rightarrow> go_error + prometheus_scaler" where
  "createScalerForTrigger l Getenv trigger cooldown =
     (if trig_Type trigger = ''prometheus''
      then (case NewPrometheusScaler l Getenv (trig_Metadata trigger) cooldown of
              Inl err \<Rightarrow> Inl (EWrap ''failed to create scaler'' err)
            | Inr sc \<Rightarrow> Inr sc)
      else Inl (EMsg ''unsupported trigger type''))"

text \<open>The loop over the triggers, once the guards before it have passed.\<close>

fun check_triggers ::
  "libs \<Rightarrow> ('w, 'x) api_scheme \<Rightarrow> duration \<Rightarrow> scale_trigger list \<Rightarrow> (('w, 'z) scaler_st_scheme, scale_direction) prog" where
  "check_triggers l api cooldown [] = ret ScaleDown"
| "check_triggers l api cooldown (trigger # rest) =
     attempt (pure_call (createScalerForTrigger l (a_getenv api) trigger cooldown)) ''failed to create scaler'' (\<lambda>sc.
     handle (IsHealthy l api sc) (\<lambda>_. fail (EMsg ''scaler is not healthy'')) (\<lambda>healthy.
     if \<not> healthy then ret NoScale
     else attempt (ShouldScaleToZero l api sc) ''failed to check scaler'' (\<lambda>scaleToZero.
          if \<not> scaleToZero then ret ScaleUp
          else check_triggers l api cooldown rest)))"

definition calculateScaleDirection ::
  "libs \<Rightarrow> ('w, 'x) api_scheme \<Rightarrow> duration \<Rightarrow> elasti_service \<Rightarrow> (('w, 'z) scaler_st_scheme, scale_direction) prog" where
  "calculateScaleDirection l api cooldown es =
     (if length (Triggers (Spec es)) = 0 then fail (EMsg ''no triggers found'')
      else handle (time_now api) fail (\<lambda>now.
        if es_CreationTimestamp es + cooldown > now then ret NoScale
        else (let triggers = check_triggers l api cooldown (Triggers (Spec es)) in
              case EnabledPeriod (Spec es) of
                None \<Rightarrow> triggers
              | Some enabledPeriod \<Rightarrow>
                  handle (isInEnabledPeriod l api enabledPeriod) (\<lambda>_. ret ScaleUp) (\<lambda>enabled.
                    if \<not> enabled then ret ScaleUp else triggers))))"

section \<open>The handlers\<close>

definition is_keda :: "es_spec \<Rightarrow> string option" where
  "is_keda spec =
     (case Autoscaler spec of
        None \<Rightarrow> None
      | Some a \<Rightarrow> if ToLower (as_Type a) = ''keda'' then Some (as_Name a) else None)"

definition handleScaleToZero :: "('w, 'x) api_scheme \<Rightarrow> elasti_service \<Rightarrow> (('w, 'z) st_scheme, unit) prog" where
  "handleScaleToZero api es =
     (let cooldown = resolveCooldownPeriod es;
          spec = fst (GetSpec es);
          scale_down =
            attempt (pure_call (APIVersionStrToGVK api (tr_APIVersion (ScaleTargetRef spec)) (tr_Kind (ScaleTargetRef spec))))
              ''failed to parse API version'' (\<lambda>targetGVK.
            attempt (Scale api (es_Namespace es) targetGVK (tr_Name (ScaleTargetRef spec)) 0)
              ''failed to scale target to zero'' (\<lambda>_. ret ()));
          proceed =
            (case is_keda spec of
               Some scaledObject \<Rightarrow>
                 attempt (UpdateKedaScaledObjectPausedState api scaledObject (es_Namespace es) True)
                   ''failed to update Keda ScaledObject'' (\<lambda>_. scale_down)
             | None \<Rightarrow> scale_down)
      in case LastScaledUpTime (Status es) of
           None \<Rightarrow> proceed
         | Some lastTime \<Rightarrow> handle (time_now api) fail (\<lambda>now. if now - lastTime < cooldown then ret () else proceed))"

definition handleScaleFromZero :: "('w, 'x) api_scheme \<Rightarrow> elasti_service \<Rightarrow> (('w, 'z) st_scheme, unit) prog" where
  "handleScaleFromZero api es =
     (let spec = fst (GetSpec es);
          scale_up = attempt (ScaleToMinReplicas api (es_Namespace es) spec) ''failed to scale target from zero'' (\<lambda>_. ret ())
      in ignoring (UpdateLastScaledUpTime api (es_Name es) (es_Namespace es))
           (case is_keda spec of
              Some scaledObject \<Rightarrow>
                attempt (UpdateKedaScaledObjectPausedState api scaledObject (es_Namespace es) False)
                  ''failed to update Keda ScaledObject'' (\<lambda>_. scale_up)
            | None \<Rightarrow> scale_up))"

section \<open>The periodic check\<close>

definition scale_item :: "libs \<Rightarrow> ('w, 'x) api_scheme \<Rightarrow> elasti_service \<Rightarrow> (('w, 'z) scaler_st_scheme, unit) prog" where
  "scale_item l api es =
     handle (calculateScaleDirection l api (resolveCooldownPeriod es) es) (\<lambda>_. ret ()) (\<lambda>scaleDirection.
       case scaleDirection of
         NoScale \<Rightarrow> ret ()
       | ScaleDown \<Rightarrow> ignoring (handleScaleToZero api es) (ret ())
       | ScaleUp \<Rightarrow> ignoring (handleScaleFromZero api es) (ret ()))"

text \<open>An item that does not convert is skipped; so is an item whose handler fails.\<close>

fun scale_items :: "libs \<Rightarrow> ('w, 'x) api_scheme \<Rightarrow> (go_error + elasti_service) list \<Rightarrow> (('w, 'z) scaler_st_scheme, unit) prog" where
  "scale_items l api [] = ret ()"
| "scale_items l api (Inl err # items) = scale_items l api items"
| "scale_items l api (Inr es # items) = handle (scale_item l api es) (\<lambda>_. scale_items l api items) (\<lambda>_. scale_items l api items)"

text \<open>The errors of the lists, in order.\<close>

fun scale_namespaces :: "libs \<Rightarrow> ('w, 'x) api_scheme \<Rightarrow> string list \<Rightarrow> (('w, 'z) scaler_st_scheme, go_error list) prog" where
  "scale_namespaces l api [] = ret []"
| "scale_namespaces l api (ns # rest) =
     handle (api_read (a_dynListES api ns))
       (\<lambda>err. handle (scale_namespaces l api rest) fail (\<lambda>errs. ret (EWrap ''namespace'' err # errs)))
       (\<lambda>items. handle (scale_items l api items) fail (\<lambda>_. scale_namespaces l api rest))"

definition checkAndScale :: "libs \<Rightarrow> ('w, 'x) api_scheme \<Rightarrow> string list \<Rightarrow> (('w, 'z) scaler_st_scheme, unit) prog" where
  "checkAndScale l api watchNamespaces =
     handle (scale_namespaces l api (listNamespaces watchNamespaces)) fail (\<lambda>listErrs.
       if length listErrs > 0 then fail (EJoin ''failed to list ElastiServices'' listErrs) else ret ())"

text \<open>\<^verbatim>\<open>StartScaleDownWatcher\<close>: the period of the ticker.\<close>

definition polling_interval :: "libs \<Rightarrow> env \<Rightarrow> duration" where
  "polling_interval l Getenv =
     (let envInterval = Getenv ''POLLING_INTERVAL''
      in if envInterval \<noteq> [] then
           (case ParseDuration l envInterval of
              Inl _ \<Rightarrow> 30 * second
            | Inr duration \<Rightarrow> if duration \<le> 0 then 30 * second else duration)
         else 30 * second)"

section \<open>What the handlers ask for\<close>

lemma asks_event [asks_intro]:
  "P (RecordEvent namespace name eventType reason) \<Longrightarrow> asks P k \<Longrightarrow> asks P (createEvent api namespace name eventType reason k)"
  unfolding createEvent_def by (intro asks_ignoring asks_write)

lemma asks_get_scale: "P ResetRESTMapper \<Longrightarrow> asks P (get_scale api n namespace gr name)"
  by (induction n) (auto intro!: asks_intro)

text \<open>The requests of one \<^verbatim>\<open>Scale\<close>: the target at the desired count, and events about it.\<close>

definition scale_request :: "string \<Rightarrow> group_resource \<Rightarrow> string \<Rightarrow> int \<Rightarrow> kube_write \<Rightarrow> bool" where
  "scale_request namespace gr name desired w \<longleftrightarrow>
     w = ResetRESTMapper \<or> (\<exists>t r. w = RecordEvent namespace name t r) \<or>
     (\<exists>sc. w = UpdateScale namespace gr name sc \<and> sc_SpecReplicas sc = desired)"

lemma Scale_asks: "asks (scale_request namespace (target_resource g) name desired) (Scale api namespace g name desired)"
  unfolding Scale_def Let_def
  by (intro asks_handle asks_get_scale asks_event asks_fail asks_if asks_ret asks_write)
    (auto simp: scale_request_def)

lemma asks_attempt_pure:
  "(\<And>a. r = Inr a \<Longrightarrow> asks P (k a)) \<Longrightarrow> asks P (attempt (pure_call r) msg k)"
  unfolding attempt_def by (intro asks_handle_pure asks_fail)

text \<open>The target of a spec, with the group the API version names.\<close>

definition target_request :: "string \<Rightarrow> es_spec \<Rightarrow> int \<Rightarrow> kube_write \<Rightarrow> bool" where
  "target_request namespace spec desired w \<longleftrightarrow>
     (\<exists>group. scale_request namespace
        \<lparr>gr_Group = group, gr_Resource = KindToResource (tr_Kind (ScaleTargetRef spec))\<rparr>
        (tr_Name (ScaleTargetRef spec)) desired w)"

lemma APIVersionStrToGVK_kind: "APIVersionStrToGVK api v k = Inr g \<Longrightarrow> gvk_Kind g = k"
  by (auto simp: APIVersionStrToGVK_def split: sum.splits)

lemma target_request_Scale:
  assumes "gvk_Kind g = tr_Kind (fst (GetScaleTargetRef spec))"
  shows "asks (target_request namespace spec desired)
    (Scale api namespace g (tr_Name (fst (GetScaleTargetRef spec))) desired)"
proof (rule asks_mono [OF Scale_asks])
  have "tr_Name (fst (GetScaleTargetRef spec)) = tr_Name (ScaleTargetRef spec)"
    by (simp add: GetScaleTargetRef_def Let_def)
  moreover have "target_resource g =
      \<lparr>gr_Group = gvk_Group g, gr_Resource = KindToResource (tr_Kind (ScaleTargetRef spec))\<rparr>"
    using assms KindToResource_legacy [of spec] by (simp add: target_resource_def)
  ultimately show "scale_request namespace (target_resource g) (tr_Name (fst (GetScaleTargetRef spec))) desired w \<Longrightarrow>
      target_request namespace spec desired w" for w
    unfolding target_request_def by metis
qed

definition min_replicas :: "es_spec \<Rightarrow> int" where
  "min_replicas spec = max 1 (MinTargetReplicas spec)"

lemma ScaleToMinReplicas_asks:
  "asks (target_request namespace spec (min_replicas spec)) (ScaleToMinReplicas api namespace spec)"
proof -
  have "(if MinTargetReplicas spec < 1 then 1 else MinTargetReplicas spec) = min_replicas spec"
    by (simp add: min_replicas_def)
  then show ?thesis
    unfolding ScaleToMinReplicas_def Let_def
    by (intro asks_attempt_pure) (simp add: target_request_Scale APIVersionStrToGVK_kind)
qed

lemma target_request_legacy:
  "target_request namespace (snd (GetScaleTargetRef spec)) desired w \<longleftrightarrow> target_request namespace spec desired w"
  using KindToResource_legacy [of spec]
  by (simp add: target_request_def GetScaleTargetRef_spec) (simp add: GetScaleTargetRef_def Let_def)

definition zero_request :: "elasti_service \<Rightarrow> kube_write \<Rightarrow> bool" where
  "zero_request es w \<longleftrightarrow>
     (\<exists>so. is_keda (Spec es) = Some so \<and> w = PatchScaledObject (es_Namespace es) so (keda_patch True)) \<or>
     target_request (es_Namespace es) (Spec es) 0 w"

definition up_request :: "elasti_service \<Rightarrow> kube_write \<Rightarrow> bool" where
  "up_request es w \<longleftrightarrow>
     (\<exists>t. w = PatchLastScaledUp (es_Namespace es) (es_Name es) t) \<or>
     (\<exists>so. is_keda (Spec es) = Some so \<and> w = PatchScaledObject (es_Namespace es) so (keda_patch False)) \<or>
     target_request (es_Namespace es) (Spec es) (min_replicas (Spec es)) w"

lemma is_keda_GetSpec [simp]: "is_keda (fst (GetSpec es)) = is_keda (Spec es)"
  by (simp add: is_keda_def GetSpec_eq GetScaleTargetRef_spec)

lemma asks_keda:
  "P (PatchScaledObject namespace so (keda_patch b)) \<Longrightarrow> asks P (UpdateKedaScaledObjectPausedState api so namespace b)"
  unfolding UpdateKedaScaledObjectPausedState_def by (intro asks_attempt asks_write asks_ret)

lemma asks_last_scaled_up:
  "(\<And>t. P (PatchLastScaledUp namespace name t)) \<Longrightarrow> asks P (UpdateLastScaledUpTime api name namespace)"
  unfolding UpdateLastScaledUpTime_def by (intro asks_handle asks_now asks_fail asks_attempt asks_write asks_ret)

lemma handleScaleToZero_asks: "asks (zero_request es) (handleScaleToZero api es)"
proof -
  have "asks (zero_request es) (Scale api (es_Namespace es) g (tr_Name (ScaleTargetRef (fst (GetSpec es)))) 0)"
    if "gvk_Kind g = tr_Kind (ScaleTargetRef (fst (GetSpec es)))" for g
    using that target_request_Scale [of g "Spec es" "es_Namespace es" 0 api]
    by (auto simp: GetSpec_eq GetScaleTargetRef_spec zero_request_def elim: asks_mono)
  then show ?thesis
    unfolding handleScaleToZero_def Let_def
    by (intro asks_option asks_handle asks_now asks_fail asks_if asks_ret asks_attempt asks_attempt_pure asks_keda)
      (auto simp: zero_request_def dest: APIVersionStrToGVK_kind)
qed

lemma handleScaleFromZero_asks: "asks (up_request es) (handleScaleFromZero api es)"
proof -
  have "asks (up_request es) (ScaleToMinReplicas api (es_Namespace es) (fst (GetSpec es)))"
  proof (rule asks_mono [OF ScaleToMinReplicas_asks])
    have "min_replicas (fst (GetSpec es)) = min_replicas (Spec es)"
      by (simp add: min_replicas_def GetSpec_eq GetScaleTargetRef_spec)
    then show "target_request (es_Namespace es) (fst (GetSpec es)) (min_replicas (fst (GetSpec es))) w \<Longrightarrow> up_request es w" for w
      by (simp add: up_request_def GetSpec_eq target_request_legacy)
  qed
  then show ?thesis
    unfolding handleScaleFromZero_def Let_def
    by (intro asks_ignoring asks_last_scaled_up asks_option asks_attempt asks_keda asks_ret)
      (auto simp: up_request_def)
qed

section \<open>Namespaces\<close>

fun write_namespace :: "kube_write \<Rightarrow> string option" where
  "write_namespace (CreateService v) = Some (svc_Namespace v)"
| "write_namespace (UpdateService v) = Some (svc_Namespace v)"
| "write_namespace (DeleteService k) = Some (nn_namespace k)"
| "write_namespace (CreateSlice v) = Some (eps_Namespace v)"
| "write_namespace (UpdateSlice v) = Some (eps_Namespace v)"
| "write_namespace (DeleteSlice k) = Some (nn_namespace k)"
| "write_namespace (UpdateES e) = Some (es_Namespace e)"
| "write_namespace (PatchESStatus k _ _) = Some (nn_namespace k)"
| "write_namespace (PatchLastScaledUp ns _ _) = Some ns"
| "write_namespace (PatchScaledObject ns _ _) = Some ns"
| "write_namespace (UpdateScale ns _ _ _) = Some ns"
| "write_namespace ResetRESTMapper = None"
| "write_namespace (RecordEvent ns _ _ _) = Some ns"
| "write_namespace (HttpGet _ _ _) = None"

text \<open>Every request is for one namespace of \<open>N\<close> or for none.\<close>

definition in_namespaces :: "string set \<Rightarrow> kube_write \<Rightarrow> bool" where
  "in_namespaces N w \<longleftrightarrow> (case write_namespace w of None \<Rightarrow> True | Some ns \<Rightarrow> ns \<in> N)"

lemma target_request_in_ns: "target_request ns spec d w \<Longrightarrow> ns \<in> N \<Longrightarrow> in_namespaces N w"
  by (auto simp: target_request_def scale_request_def in_namespaces_def)

lemma zero_request_in_ns: "zero_request es w \<Longrightarrow> es_Namespace es \<in> N \<Longrightarrow> in_namespaces N w"
  by (auto simp: zero_request_def intro: target_request_in_ns) (auto simp: in_namespaces_def)

lemma up_request_in_ns: "up_request es w \<Longrightarrow> es_Namespace es \<in> N \<Longrightarrow> in_namespaces N w"
  by (auto simp: up_request_def intro: target_request_in_ns) (auto simp: in_namespaces_def)

lemma is_query_in_ns: "is_query w \<Longrightarrow> in_namespaces N w"
  by (cases w) (auto simp: in_namespaces_def)

lemma asks_enabled: "asks P (isInEnabledPeriod l api ep)"
  unfolding isInEnabledPeriod_def Let_def
  by (intro asks_attempt asks_pure asks_handle asks_now asks_fail asks_option asks_panic asks_ret)

lemma check_triggers_queries: "asks is_query (check_triggers l api cooldown ts)"
  by (induction ts)
    (auto intro!: asks_intro prom.healthy_queries prom.to_zero_queries)

lemma calculateScaleDirection_queries: "asks is_query (calculateScaleDirection l api cooldown es)"
  unfolding calculateScaleDirection_def Let_def
  by (intro asks_if asks_fail asks_handle asks_now asks_ret asks_option asks_enabled check_triggers_queries)

lemma scale_item_in_ns:
  assumes "es_Namespace es \<in> N"
  shows "asks (in_namespaces N) (scale_item l api es)"
proof -
  have "asks (in_namespaces N) (calculateScaleDirection l api c es)" for c
    using calculateScaleDirection_queries is_query_in_ns by (rule asks_mono)
  moreover have "asks (in_namespaces N) (handleScaleToZero api es)" "asks (in_namespaces N) (handleScaleFromZero api es)"
    using assms by (auto intro: asks_mono [OF handleScaleToZero_asks] asks_mono [OF handleScaleFromZero_asks]
        zero_request_in_ns up_request_in_ns)
  ultimately show ?thesis
    unfolding scale_item_def
    by (intro asks_handle asks_ret) (auto split: scale_direction.split intro!: asks_intro)
qed

lemma scale_items_in_ns:
  "(\<And>es. Inr es \<in> set items \<Longrightarrow> es_Namespace es \<in> N) \<Longrightarrow> asks (in_namespaces N) (scale_items l api items)"
proof (induction items)
  case (Cons item items)
  then show ?case by (cases item) (auto intro!: asks_handle scale_item_in_ns)
qed (simp add: asks_ret)

lemma asks_handle_post:
  assumes "asks P m" "\<And>e. asks P (onerr e)" and "\<And>s a s'. m s = (Ok a, s') \<Longrightarrow> asks P (k a)"
  shows "asks P (handle m onerr k)"
proof -
  have "handle m onerr k = handle m onerr (\<lambda>a. if \<exists>s s'. m s = (Ok a, s') then k a else fail (EMsg []))"
    by (auto simp: handle_def fun_eq_iff split: prod.split outcome.split)
  moreover have "asks P \<dots>" using assms(1,2) by (intro asks_handle asks_if asks_fail) (auto intro: assms(3))
  ultimately show ?thesis by simp
qed

text \<open>The list call returns objects of the namespace it was asked for.\<close>

definition lists_namespace :: "('w, 'x) api_scheme \<Rightarrow> bool" where
  "lists_namespace api \<longleftrightarrow>
     (\<forall>ns w items w' es. ns \<noteq> [] \<longrightarrow> a_dynListES api ns w = (Inr items, w') \<longrightarrow> Inr es \<in> set items \<longrightarrow> es_Namespace es = ns)"

lemma lists_namespaceD:
  "lists_namespace api \<Longrightarrow> a_dynListES api ns w = (Inr items, w') \<Longrightarrow> Inr es \<in> set items \<Longrightarrow> ns \<noteq> [] \<Longrightarrow>
   es_Namespace es = ns"
  unfolding lists_namespace_def by blast

lemma scale_namespaces_in_ns:
  assumes "lists_namespace api"
  shows "[] \<notin> set nss \<Longrightarrow> set nss \<subseteq> N \<Longrightarrow> asks (in_namespaces N) (scale_namespaces l api nss)"
proof (induction nss)
  case (Cons ns nss)
  have items: "asks (in_namespaces N) (scale_items l api items)"
    if read: "api_read (a_dynListES api ns) s = (Ok items, s')" for items s s'
  proof (rule scale_items_in_ns)
    fix es assume "Inr es \<in> set items"
    moreover obtain w where "a_dynListES api ns (world s) = (Inr items, w)"
      using read by (auto simp: api_read_def lift_sum_def split: prod.splits sum.splits)
    ultimately have "es_Namespace es = ns"
      using Cons.prems(1) by (auto intro: lists_namespaceD [OF assms])
    then show "es_Namespace es \<in> N" using Cons.prems by simp
  qed
  show ?case
    unfolding scale_namespaces.simps using Cons
    by (intro asks_handle_post asks_read asks_handle asks_fail asks_ret) (auto intro: items)
qed (simp add: asks_ret)

section \<open>Behaviour of the operations\<close>

lemma get_scale_ok:
  "a_getScale api ns gr name (world s) = (Inr sc, w) \<Longrightarrow> get_scale api (Suc n) ns gr name s = (Ok sc, s\<lparr>world := w\<rparr>)"
  by (simp add: handle_def api_read_def)

lemma api_write_cases:
  obtains (accepted) w where "api_write api wr s = (Ok (), s\<lparr>world := w, writes := writes s @ [(wr, True)]\<rparr>)"
  | (rejected) e w where "api_write api wr s = (Err e, s\<lparr>world := w, writes := writes s @ [(wr, False)]\<rparr>)"
proof (cases "a_write api wr (world s)")
  case (Pair r w)
  then show ?thesis using that by (cases r) (auto simp: api_write_def)
qed

lemma createEvent_run:
  "\<exists>ok w. createEvent api ns name t r k s = k (s\<lparr>world := w, writes := writes s @ [(RecordEvent ns name t r, ok)]\<rparr>)"
  by (cases rule: api_write_cases [of api "RecordEvent ns name t r" s]) (auto simp: createEvent_def)

text \<open>The states from which all triggers, one after the other, vote for zero.\<close>

fun vote_zero ::
  "libs \<Rightarrow> ('w, 'x) api_scheme \<Rightarrow> duration \<Rightarrow> scale_trigger list \<Rightarrow> ('w, 'z) scaler_st_scheme \<Rightarrow> ('w, 'z) scaler_st_scheme option" where
  "vote_zero l api cooldown [] s = Some s"
| "vote_zero l api cooldown (t # ts) s =
     (case createScalerForTrigger l (a_getenv api) t cooldown of
        Inl _ \<Rightarrow> None
      | Inr sc \<Rightarrow>
          (case IsHealthy l api sc s of
             (Ok True, s1) \<Rightarrow>
               (case ShouldScaleToZero l api sc s1 of
                  (Ok True, s2) \<Rightarrow> vote_zero l api cooldown ts s2
                | _ \<Rightarrow> None)
           | _ \<Rightarrow> None))"

lemma check_triggers_ScaleDown:
  "check_triggers l api cooldown ts s = (Ok ScaleDown, s') \<longleftrightarrow> vote_zero l api cooldown ts s = Some s'"
proof (induction ts arbitrary: s)
  case (Cons t ts)
  show ?case
    using Cons.IH
    by (auto simp: attempt_def handle_def pure_call_def
        split: sum.splits prod.splits outcome.splits if_splits)
qed auto

lemma time_now_run: "time_now api s = (Ok (fst (a_now api (world s))), s\<lparr>world := snd (a_now api (world s))\<rparr>)"
  by (simp add: time_now_def api_ask_def split: prod.splits)

section \<open>Properties\<close>

text \<open>
  C2: the check decides to scale a target to zero exactly if the ElastiService has triggers, was
  created at least one cooldown period ago, is in its enabled period if it has one, and every
  trigger in turn has a healthy scaler that votes for zero.
\<close>

theorem scale_down_decision:
  "calculateScaleDirection l api cooldown es s = (Ok ScaleDown, s') \<longleftrightarrow>
     Triggers (Spec es) \<noteq> [] \<and>
     es_CreationTimestamp es + cooldown \<le> fst (a_now api (world s)) \<and>
     (\<exists>s2. (case EnabledPeriod (Spec es) of
              None \<Rightarrow> s2 = s\<lparr>world := snd (a_now api (world s))\<rparr>
            | Some ep \<Rightarrow> isInEnabledPeriod l api ep (s\<lparr>world := snd (a_now api (world s))\<rparr>) = (Ok True, s2)) \<and>
           vote_zero l api cooldown (Triggers (Spec es)) s2 = Some s')"
proof (cases "EnabledPeriod (Spec es)")
  case None
  then show ?thesis
    by (auto simp: calculateScaleDirection_def time_now_run handle_run check_triggers_ScaleDown)
next
  case (Some ep)
  show ?thesis
    by (cases "isInEnabledPeriod l api ep (s\<lparr>world := snd (a_now api (world s))\<rparr>)")
      (auto simp: calculateScaleDirection_def time_now_run handle_run Some check_triggers_ScaleDown
        split: outcome.splits if_splits)
qed

text \<open>
  C25: \<^verbatim>\<open>Scale\<close> changes nothing if the target reports the desired count, or more than a
  positive desired count: it never lowers a target that is up, except to zero. Otherwise it sends
  one update of the replica count to the desired value and one event, and returns true exactly if
  the update was accepted.
\<close>

theorem scale_effect:
  assumes "a_getScale api ns (target_resource g) name (world s) = (Inr sc, w)"
    and "Scale api ns g name desired s = (r, s')"
  shows "if sc_StatusReplicas sc = desired \<or> (0 < desired \<and> desired < sc_StatusReplicas sc)
    then r = Ok False \<and> s' = s\<lparr>world := w\<rparr>
    else \<exists>ok event_ok.
      writes s' = writes s @
        [(UpdateScale ns (target_resource g) name (sc\<lparr>sc_SpecReplicas := desired\<rparr>), ok),
         (RecordEvent ns name (if ok then ''Normal'' else ''Warning'') (if ok then ''SuccessToScale'' else ''FailedToScale''), event_ok)] \<and>
      (if ok then r = Ok True else \<exists>e. r = Err e)"
proof -
  have get: "get_scale api 2 ns (target_resource g) name s = (Ok sc, s\<lparr>world := w\<rparr>)"
    using get_scale_ok [OF assms(1), of 1] by (simp add: numeral_2_eq_2)
  show ?thesis
  proof (cases "sc_StatusReplicas sc = desired \<or> (0 < desired \<and> desired < sc_StatusReplicas sc)")
    case True
    then show ?thesis using assms(2) by (auto simp: Scale_def Let_def get)
  next
    case False
    let ?up = "UpdateScale ns (target_resource g) name (sc\<lparr>sc_SpecReplicas := desired\<rparr>)"
    have goal: ?thesis
      if "Scale api ns g name desired s = (r', s'')" "writes s'' = writes s @ [(?up, ok),
          (RecordEvent ns name (if ok then ''Normal'' else ''Warning'') (if ok then ''SuccessToScale'' else ''FailedToScale''), evt)]"
        "if ok then r' = Ok True else \<exists>e. r' = Err e" for r' s'' ok evt
      using that assms(2) False by (simp only: if_False prod.inject) blast
    show ?thesis
    proof (cases rule: api_write_cases [of api ?up "s\<lparr>world := w\<rparr>"])
      case (accepted w')
      obtain evt w'' where "createEvent api ns name ''Normal'' ''SuccessToScale'' (ret True)
          (s\<lparr>world := w', writes := writes s @ [(?up, True)]\<rparr>) =
          (Ok True, s\<lparr>world := w'', writes := writes s @ [(?up, True), (RecordEvent ns name ''Normal'' ''SuccessToScale'', evt)]\<rparr>)"
        using createEvent_run [of api ns name "''Normal''" "''SuccessToScale''" "ret True"
            "s\<lparr>world := w', writes := writes s @ [(?up, True)]\<rparr>"] by auto
      with accepted False have "Scale api ns g name desired s =
          (Ok True, s\<lparr>world := w'', writes := writes s @ [(?up, True), (RecordEvent ns name ''Normal'' ''SuccessToScale'', evt)]\<rparr>)"
        by (simp add: Scale_def Let_def get)
      then show ?thesis by (rule goal [where ok = True and evt = evt]) simp_all
    next
      case (rejected e w')
      obtain evt w'' where "createEvent api ns name ''Warning'' ''FailedToScale'' (fail (EWrap ''failed to update scale'' e))
          (s\<lparr>world := w', writes := writes s @ [(?up, False)]\<rparr>) =
          (Err (EWrap ''failed to update scale'' e) :: bool outcome,
           s\<lparr>world := w'', writes := writes s @ [(?up, False), (RecordEvent ns name ''Warning'' ''FailedToScale'', evt)]\<rparr>)"
        using createEvent_run [of api ns name "''Warning''" "''FailedToScale''"
            "fail (EWrap ''failed to update scale'' e)" "s\<lparr>world := w', writes := writes s @ [(?up, False)]\<rparr>"] by auto
      with rejected False have "Scale api ns g name desired s =
          (Err (EWrap ''failed to update scale'' e),
           s\<lparr>world := w'', writes := writes s @ [(?up, False), (RecordEvent ns name ''Warning'' ''FailedToScale'', evt)]\<rparr>)"
        by (simp add: Scale_def Let_def get)
      then show ?thesis by (rule goal [where ok = False and evt = evt]) simp_all
    qed
  qed
qed

text \<open>A cluster whose scale subresource always reads \<open>sc\<close>, and a state to start from.\<close>

definition scale_api :: "scale \<Rightarrow> unit api" where
  "scale_api sc = (constant_api numeric_response)\<lparr>a_getScale := (\<lambda>_ _ _ w. (Inr sc, w))\<rparr>"

definition start_st :: "unit scaler_st" where
  "start_st = \<lparr>world = (), writes = [], promQueryResponse = zero_response\<rparr>"

definition deployment_gvk :: gvk where
  "deployment_gvk = \<lparr>gvk_Group = ''apps'', gvk_Version = ''v1'', gvk_Kind = ''Deployment''\<rparr>"

theorem scale_effect_witness:
  "\<exists>ok event_ok. writes (snd (Scale (scale_api \<lparr>sc_SpecReplicas = 1, sc_StatusReplicas = 1\<rparr>) ''shop'' deployment_gvk ''web'' 0 start_st)) =
     [(UpdateScale ''shop'' (target_resource deployment_gvk) ''web'' \<lparr>sc_SpecReplicas = 0, sc_StatusReplicas = 1\<rparr>, ok),
      (RecordEvent ''shop'' ''web'' (if ok then ''Normal'' else ''Warning'') (if ok then ''SuccessToScale'' else ''FailedToScale''), event_ok)]"
proof -
  let ?api = "scale_api \<lparr>sc_SpecReplicas = 1, sc_StatusReplicas = 1\<rparr>"
  obtain r s' where run: "Scale ?api ''shop'' deployment_gvk ''web'' 0 start_st = (r, s')" by fastforce
  have "a_getScale ?api ''shop'' (target_resource deployment_gvk) ''web'' (world start_st) =
      (Inr \<lparr>sc_SpecReplicas = 1, sc_StatusReplicas = 1\<rparr>, ())"
    by (simp add: scale_api_def)
  from scale_effect [OF this run] show ?thesis
    using run by (auto simp: start_st_def)
qed

lemma keda_then:
  assumes body: "asks (\<lambda>_. True) body"
    and run: "attempt (UpdateKedaScaledObjectPausedState api so ns b) msg (\<lambda>_. body) t = (r, t')"
  shows "\<exists>ok new. writes t' = writes t @ (PatchScaledObject ns so (keda_patch b), ok) # new \<and>
    (if ok then True else new = [] \<and> (\<exists>e. r = Err e))"
proof (cases rule: api_write_cases [of api "PatchScaledObject ns so (keda_patch b)" t])
  case (accepted w)
  let ?t = "t\<lparr>world := w, writes := writes t @ [(PatchScaledObject ns so (keda_patch b), True)]\<rparr>"
  have "body ?t = (r, t')"
    using run accepted by (simp add: UpdateKedaScaledObjectPausedState_def)
  moreover obtain new where "writes (snd (body ?t)) = writes ?t @ new"
    using body unfolding asks_def by blast
  ultimately show ?thesis by (intro exI [of _ True] exI [of _ new]) simp
next
  case (rejected e w)
  then show ?thesis
    using run by (intro exI [of _ False] exI [of _ "[]"]) (auto simp: UpdateKedaScaledObjectPausedState_def)
qed

text \<open>
  C28: for a target that KEDA manages, the first request of the scale to zero pauses the
  ScaledObject, and nothing else is asked for unless the server accepted that.
\<close>

theorem keda_paused_first:
  fixes s :: "('w, 'z) st_scheme"
  assumes "is_keda (Spec es) = Some so" and "handleScaleToZero api es s = (r, s')"
  shows "writes s' = writes s \<or>
    (\<exists>ok new. writes s' = writes s @ (PatchScaledObject (es_Namespace es) so (keda_patch True), ok) # new \<and>
       (if ok then True else new = [] \<and> (\<exists>e. r = Err e)))"
proof -
  define body :: "(('w, 'z) st_scheme, unit) prog" where "body =
    attempt (pure_call (APIVersionStrToGVK api (tr_APIVersion (ScaleTargetRef (fst (GetSpec es)))) (tr_Kind (ScaleTargetRef (fst (GetSpec es))))))
      ''failed to parse API version'' (\<lambda>targetGVK.
    attempt (Scale api (es_Namespace es) targetGVK (tr_Name (ScaleTargetRef (fst (GetSpec es)))) 0)
      ''failed to scale target to zero'' (\<lambda>_. ret ()))"
  define pause :: "(('w, 'z) st_scheme, unit) prog" where "pause =
    attempt (UpdateKedaScaledObjectPausedState api so (es_Namespace es) True) ''failed to update Keda ScaledObject'' (\<lambda>_. body)"
  have body: "asks (\<lambda>_. True) body"
    unfolding body_def by (intro asks_attempt asks_pure asks_ret asks_mono [OF Scale_asks]) simp
  have "handleScaleToZero api es s =
    (case LastScaledUpTime (Status es) of None \<Rightarrow> pause s
     | Some t \<Rightarrow> if fst (a_now api (world s)) - t < resolveCooldownPeriod es
                then (Ok (), s\<lparr>world := snd (a_now api (world s))\<rparr>)
                else pause (s\<lparr>world := snd (a_now api (world s))\<rparr>))"
    using assms(1)
    by (simp add: handleScaleToZero_def Let_def pause_def body_def time_now_run handle_run split: option.split)
  then consider "writes s' = writes s" | "pause s = (r, s')" | "pause (s\<lparr>world := snd (a_now api (world s))\<rparr>) = (r, s')"
    using assms(2) by (auto split: option.splits if_splits)
  then show ?thesis
    using keda_then [OF body, of api so "es_Namespace es" True "''failed to update Keda ScaledObject''" _ r s']
    unfolding pause_def by cases fastforce+
qed

definition sample_spec :: es_spec where
  "sample_spec =
     \<lparr>ScaleTargetRef = \<lparr>tr_APIVersion = ''apps/v1'', tr_Kind = ''deployments'', tr_Name = ''web''\<rparr>,
      Service = ''web'', ProbeResponse = [], MinTargetReplicas = 1, CooldownPeriod = 60,
      Triggers = [\<lparr>trig_Type = ''prometheus'', trig_Metadata = sample_metadata\<rparr>],
      Autoscaler = Some \<lparr>as_Type = ''KEDA'', as_Name = ''web-so''\<rparr>, EnabledPeriod = None\<rparr>"

definition sample_es :: elasti_service where
  "sample_es =
     \<lparr>es_Name = ''web-es'', es_Namespace = ''shop'', es_CreationTimestamp = 0, es_DeletionTimestamp = None,
      es_Finalizers = [], Spec = sample_spec,
      Status = \<lparr>LastReconciledTime = 0, LastScaledUpTime = None, Mode = []\<rparr>\<rparr>"

theorem keda_paused_first_witness:
  "\<exists>ok new. writes (snd (handleScaleToZero (scale_api \<lparr>sc_SpecReplicas = 1, sc_StatusReplicas = 1\<rparr>) sample_es start_st)) =
     (PatchScaledObject ''shop'' ''web-so'' (keda_patch True), ok) # new"
proof -
  let ?api = "scale_api \<lparr>sc_SpecReplicas = 1, sc_StatusReplicas = 1\<rparr>"
  obtain r s' where run: "handleScaleToZero ?api sample_es start_st = (r, s')" by fastforce
  have keda: "is_keda (Spec sample_es) = Some ''web-so''" by code_simp
  have "writes (snd (handleScaleToZero ?api sample_es start_st)) \<noteq> []" by code_simp
  then show ?thesis
    using keda_paused_first [OF keda run] run by (auto simp: sample_es_def start_st_def)
qed

text \<open>
  Scaling up, whether from the periodic check or for a request, asks for at least one
  replica, at least the configured minimum, of the target of the spec, and for a KEDA target
  unpauses the ScaledObject of the spec; no request names another object or namespace.
\<close>

theorem scale_up_requests:
  "asks (\<lambda>w. up_request es w \<and>
     (case w of UpdateScale ns gr name sc \<Rightarrow> sc_SpecReplicas sc = max 1 (MinTargetReplicas (Spec es)) | _ \<Rightarrow> True))
   (handleScaleFromZero api es)"
  by (rule asks_mono [OF handleScaleFromZero_asks])
    (auto simp: up_request_def target_request_def scale_request_def min_replicas_def split: kube_write.splits)

text \<open>
  In namespace-scoped mode the periodic check asks for nothing outside the watched
  namespaces, as long as a list for a namespace returns objects of that namespace.
\<close>

lemma scale_check_scoped:
  assumes "lists_namespace api" and "watch \<noteq> []" and "[] \<notin> set watch"
  shows "asks (in_namespaces (set watch)) (checkAndScale l api watch)"
  unfolding checkAndScale_def using assms
  by (intro asks_handle asks_fail asks_if asks_ret scale_namespaces_in_ns) (auto simp: listNamespaces_def)

definition listing_api :: "unit api" where
  "listing_api = (constant_api numeric_response)\<lparr>a_dynListES := (\<lambda>ns w. (Inr [Inr (sample_es\<lparr>es_Namespace := ns\<rparr>)], w))\<rparr>"

text \<open>
  A namespace whose list fails does not keep the others from being scaled: the check goes on
  as if the namespace were not in the list, and reports its error at the end.
\<close>

theorem list_failure_isolated:
  assumes "a_dynListES api ns (world s) = (Inl err, w)"
  shows "snd (scale_namespaces l api (ns # rest) s) = snd (scale_namespaces l api rest (s\<lparr>world := w\<rparr>)) \<and>
    (case fst (scale_namespaces l api rest (s\<lparr>world := w\<rparr>)) of
       Ok errs \<Rightarrow> fst (scale_namespaces l api (ns # rest) s) = Ok (EWrap ''namespace'' err # errs)
     | Err e \<Rightarrow> fst (scale_namespaces l api (ns # rest) s) = Err e
     | Panic p \<Rightarrow> fst (scale_namespaces l api (ns # rest) s) = Panic p)"
proof -
  have "api_read (a_dynListES api ns) s = (Err err, s\<lparr>world := w\<rparr>)"
    using assms by (simp add: api_read_def)
  then show ?thesis by (simp add: handle_run split: prod.splits outcome.splits)
qed

theorem list_failure_isolated_witness:
  "fst (scale_namespaces sample_libs (listing_api\<lparr>a_dynListES := (\<lambda>_ w. (Inl (EMsg ''forbidden''), w))\<rparr>) [''shop''] start_st) =
   Ok [EWrap ''namespace'' (EMsg ''forbidden'')]"
  using list_failure_isolated [of "listing_api\<lparr>a_dynListES := (\<lambda>_ w. (Inl (EMsg ''forbidden''), w))\<rparr>" "''shop''" start_st
      "EMsg ''forbidden''" "()" sample_libs "[]"]
  by simp

text \<open>
  \<^verbatim>\<open>Scale\<close> looks at the replicas the target still reports, not at the replicas that are
  asked for: a target that was just set to zero but still has running pods is left at zero by
  \<^verbatim>\<open>ScaleToMinReplicas\<close>, which answers that no scaling is required.
\<close>

theorem restore_trusts_status:
  assumes "a_ParseGroupVersion api (tr_APIVersion (ScaleTargetRef spec)) = Inr (grp, ver)"
    and "\<And>gr name. a_getScale api ns gr name (world s) = (Inr sc, w)"
    and "sc_SpecReplicas sc = 0" and "max 1 (MinTargetReplicas spec) \<le> sc_StatusReplicas sc"
  shows "ScaleToMinReplicas api ns spec s = (Ok False, s\<lparr>world := w\<rparr>)"
proof -
  have ref: "tr_APIVersion (fst (GetScaleTargetRef spec)) = tr_APIVersion (ScaleTargetRef spec)"
    by (simp add: GetScaleTargetRef_def Let_def)
  have get: "get_scale api 2 ns gr name s = (Ok sc, s\<lparr>world := w\<rparr>)" for gr name
    using get_scale_ok [OF assms(2), of 1] by (simp add: numeral_2_eq_2)
  show ?thesis
    using assms(1,4)
    by (auto simp: ScaleToMinReplicas_def Let_def APIVersionStrToGVK_def ref attempt_def handle_run pure_call_def Scale_def get)
qed

theorem restore_trusts_status_witness:
  "ScaleToMinReplicas (scale_api \<lparr>sc_SpecReplicas = 0, sc_StatusReplicas = 2\<rparr>) ''shop'' sample_spec start_st =
   (Ok False, start_st)"
  using restore_trusts_status [of "scale_api \<lparr>sc_SpecReplicas = 0, sc_StatusReplicas = 2\<rparr>" sample_spec "[]" "''apps/v1''"
      "''shop''" start_st "\<lparr>sc_SpecReplicas = 0, sc_StatusReplicas = 2\<rparr>" "()"]
  by (simp add: scale_api_def constant_api_def sample_spec_def start_st_def)

end
