(* ===== verification/Informers.thy ===== *)
theory Informers
  imports Scale_Handler
begin

text \<open>
  The state the operator keeps in memory: the CRD directory
  (\<^verbatim>\<open>src/operator/internal/crddirectory/directory.go\<close>), the informer manager
  (\<^verbatim>\<open>src/operator/internal/informer/informer.go\<close>) and the \<^verbatim>\<open>sync.Once\<close> values that
  guard the start of informers (\<^verbatim>\<open>opsInformer.go\<close>). An informer is known by the number of its
  goroutine; \<open>running\<close> are the goroutines whose stop channel is open. The order in which
  \<^verbatim>\<open>sync.Map.Range\<close> visits the keys is an argument.
\<close>

section \<open>CRD directory\<close>

record crd_details =
  CRDName :: string
  cd_Spec :: es_spec
  cd_Status :: es_status

type_synonym directory = "(string, crd_details) sync_map option"   \<comment> \<open>\<open>None\<close>: not initialised\<close>

definition InitDirectory :: "directory \<Rightarrow> directory" where
  "InitDirectory d = (case d of None \<Rightarrow> Some sm_empty | Some m \<Rightarrow> Some m)"

definition AddCRD :: "string \<Rightarrow> crd_details \<Rightarrow> directory \<Rightarrow> directory outcome" where
  "AddCRD serviceName crdDetails d =
     (case d of
        None \<Rightarrow> Panic ''CRDDirectory not initialized''
      | Some services \<Rightarrow> Ok (Some (Store services serviceName crdDetails)))"

definition RemoveCRD :: "string \<Rightarrow> directory \<Rightarrow> directory outcome" where
  "RemoveCRD serviceName d =
     (case d of
        None \<Rightarrow> Panic ''CRDDirectory not initialized''
      | Some services \<Rightarrow> Ok (Some (Delete services serviceName)))"

definition GetCRD :: "string \<Rightarrow> directory \<Rightarrow> crd_details option outcome" where
  "GetCRD serviceName d =
     (case d of
        None \<Rightarrow> Panic ''CRDDirectory not initialized''
      | Some services \<Rightarrow> Ok (Load services serviceName))"

text \<open>\<^verbatim>\<open>ListAllCRDs\<close>: the entries in the order \<open>keys\<close> of the range.\<close>

definition ListAllCRDs :: "string list \<Rightarrow> directory \<Rightarrow> (string \<times> crd_details) list" where
  "ListAllCRDs keys d =
     (case d of
        None \<Rightarrow> []
      | Some services \<Rightarrow> List.map_filter (\<lambda>k. map_option (Pair k) (Load services k)) keys)"

section \<open>Informers\<close>

text \<open>What the event handlers of an informer close over.\<close>

datatype handler =
    ScaleTargetRefChangeHandler elasti_service nsname
  | PublicServiceChangeHandler elasti_service nsname

record request_watch =
  rw_Req :: nsname
  rw_ResourceName :: string
  rw_ResourceNamespace :: string
  rw_GVR :: gvr
  rw_Handlers :: handler

record informer_info =
  inf_id :: nat
  inf_Req :: request_watch

definition informer_key :: "string \<Rightarrow> string \<Rightarrow> string \<Rightarrow> string \<Rightarrow> string" where
  "informer_key crd ns resource name =
     ToLower crd @ ''/'' @ ToLower ns @ ''/'' @ ToLower resource @ ''/'' @ ToLower name"

definition getKeyFromRequestWatch :: "request_watch \<Rightarrow> string" where
  "getKeyFromRequestWatch req =
     informer_key (nn_name (rw_Req req)) (rw_ResourceNamespace req) (gvr_resource (rw_GVR req)) (rw_ResourceName req)"

record key_params =
  kp_Namespace :: string
  kp_CRDName :: string
  kp_ResourceType :: string
  kp_ResourceName :: string

definition GetKey :: "key_params \<Rightarrow> string" where
  "GetKey p = informer_key (kp_CRDName p) (kp_Namespace p) (kp_ResourceType p) (kp_ResourceName p)"

record 'w op_st = "'w scaler_st" +
  directory :: directory
  informers :: "(string, informer_info) sync_map"
  running :: "nat set"
  next_id :: nat
  startLocks :: "(string, bool) sync_map"      \<comment> \<open>the \<^verbatim>\<open>sync.Once\<close> values: whether done\<close>

definition verifyTargetExist :: "('w, 'x) api_scheme \<Rightarrow> request_watch \<Rightarrow> (('w, 'z) op_st_scheme, unit) prog" where
  "verifyTargetExist api req =
     attempt (api_read (a_getDynamic api (rw_GVR req) (rw_ResourceNamespace req) (rw_ResourceName req)))
       ''resource doesn't exist'' (\<lambda>_. ret ())"

definition run_informer :: "request_watch \<Rightarrow> (('w, 'z) op_st_scheme, nat) prog" where
  "run_informer req = (\<lambda>s.
     (Ok (next_id s),
      s\<lparr>informers := Store (informers s) (getKeyFromRequestWatch req) \<lparr>inf_id = next_id s, inf_Req = req\<rparr>,
        running := insert (next_id s) (running s), next_id := Suc (next_id s)\<rparr>))"

definition close_and_delete :: "nat \<Rightarrow> string \<Rightarrow> (('w, 'z) op_st_scheme, unit) prog" where
  "close_and_delete i key = (\<lambda>s.
     if i \<in> running s then (Ok (), s\<lparr>running := running s - {i}, informers := Delete (informers s) key\<rparr>)
     else (Panic ''close of closed channel'', s))"

definition enableInformer :: "('w, 'x) api_scheme \<Rightarrow> request_watch \<Rightarrow> (('w, 'z) op_st_scheme, unit) prog" where
  "enableInformer api req =
     attempt (api_read (a_addEventHandler api (rw_GVR req) (rw_ResourceNamespace req) (rw_ResourceName req))) ''enableInformer'' (\<lambda>_.
     handle (run_informer req) fail (\<lambda>informerStop.
     handle (api_ask (a_waitForSync api (rw_GVR req) (rw_ResourceNamespace req) (rw_ResourceName req))) fail (\<lambda>synced.
       if \<not> synced
       then handle (close_and_delete informerStop (getKeyFromRequestWatch req)) fail
              (\<lambda>_. fail (EMsg ''failed to sync informer within timeout''))
       else ret ())))"

definition Add :: "('w, 'x) api_scheme \<Rightarrow> request_watch \<Rightarrow> (('w, 'z) op_st_scheme, unit) prog" where
  "Add api req = (\<lambda>s.
     case Load (informers s) (getKeyFromRequestWatch req) of
       Some _ \<Rightarrow> (Ok (), s)
     | None \<Rightarrow>
         attempt (verifyTargetExist api req) ''target not found'' (\<lambda>_.
         attempt (enableInformer api req) ''failed to enable to informer'' (\<lambda>_. ret ())) s)"

definition StopInformer :: "string \<Rightarrow> (('w, 'z) op_st_scheme, unit) prog" where
  "StopInformer key = (\<lambda>s.
     case Load (informers s) key of
       None \<Rightarrow> (Err (EMsg ''informer not found, already stopped''), s)
     | Some info \<Rightarrow> close_and_delete (inf_id info) key s)"

definition crd_prefix :: "string \<Rightarrow> string \<Rightarrow> string" where
  "crd_prefix crdName namespace = ToLower crdName @ ''/'' @ ToLower namespace @ ''/''"

fun stop_keys :: "(string \<Rightarrow> bool) \<Rightarrow> string list \<Rightarrow> (('w, 'z) op_st_scheme, unit) prog" where
  "stop_keys P [] = ret ()"
| "stop_keys P (key # keys) = (\<lambda>s.
     case Load (informers s) key of
       Some info \<Rightarrow>
         if P key then ignoring (StopInformer (getKeyFromRequestWatch (inf_Req info))) (stop_keys P keys) s
         else stop_keys P keys s
     | None \<Rightarrow> stop_keys P keys s)"

definition StopForCRD :: "string list \<Rightarrow> string \<Rightarrow> string \<Rightarrow> (('w, 'z) op_st_scheme, unit) prog" where
  "StopForCRD keys crdName namespace = stop_keys (\<lambda>key. HasPrefix key (crd_prefix crdName namespace)) keys"

definition Stop :: "string list \<Rightarrow> (('w, 'z) op_st_scheme, unit) prog" where
  "Stop keys = stop_keys (\<lambda>_. True) keys"

section \<open>Start locks\<close>

definition getMutexKeyForPublicSVC :: "nsname \<Rightarrow> string" where
  "getMutexKeyForPublicSVC req = nn_string req @ ''public-service''"

definition getMutexKeyForTargetRef :: "nsname \<Rightarrow> string" where
  "getMutexKeyForTargetRef req = nn_string req @ ''scale-target-ref''"

definition resetMutexForInformer :: "string \<Rightarrow> (('w, 'z) op_st_scheme, unit) prog" where
  "resetMutexForInformer key = (\<lambda>s. (Ok (), s\<lparr>startLocks := Delete (startLocks s) key\<rparr>))"

text \<open>\<^verbatim>\<open>getMutexForInformerStart(key).Do(f)\<close>: \<open>Ok None\<close> if \<open>f\<close> did not run.\<close>

definition once_do :: "string \<Rightarrow> (('w, 'z) op_st_scheme, unit) prog \<Rightarrow> (('w, 'z) op_st_scheme, go_error option) prog" where
  "once_do key f = (\<lambda>s.
     let ((isDone, _), locks) = LoadOrStore (startLocks s) key False;
         s1 = s\<lparr>startLocks := locks\<rparr>
     in if isDone then (Ok None, s1)
        else (case f s1 of
                (r, s2) \<Rightarrow>
                  (let s3 = s2\<lparr>startLocks := Store (startLocks s2) key True\<rparr>
                   in case r of Ok _ \<Rightarrow> (Ok None, s3) | Err e \<Rightarrow> (Ok (Some e), s3) | Panic p \<Rightarrow> (Panic p, s3))))"

section \<open>Invariants of programs\<close>

text \<open>\<open>keeps I m\<close>: the program preserves \<open>I\<close>, whatever its outcome.\<close>

definition keeps :: "('s \<Rightarrow> bool) \<Rightarrow> ('s, 'a) prog \<Rightarrow> bool" where
  "keeps I m \<longleftrightarrow> (\<forall>s. I s \<longrightarrow> I (snd (m s)))"

named_theorems keeps_intro

lemma keepsD: "keeps I m \<Longrightarrow> I s \<Longrightarrow> m s = (r, s') \<Longrightarrow> I s'"
  by (auto simp: keeps_def dest: spec [of _ s])

lemma keeps_ret [keeps_intro]: "keeps I (ret a)" by (simp add: keeps_def)
lemma keeps_fail [keeps_intro]: "keeps I (fail e)" by (simp add: keeps_def)
lemma keeps_panic [keeps_intro]: "keeps I (panic e)" by (simp add: keeps_def)
lemma keeps_pure [keeps_intro]: "keeps I (pure_call r)" by (simp add: keeps_def pure_call_def)

lemma keeps_handle [keeps_intro]:
  assumes "keeps I m" "\<And>e. keeps I (onerr e)" "\<And>a. keeps I (k a)"
  shows "keeps I (handle m onerr k)"
  unfolding keeps_def
proof (intro allI impI)
  fix s assume "I s"
  then show "I (snd (handle m onerr k s))"
    using assms by (cases rule: handle_cases [of m s onerr k]) (auto simp: keeps_def dest: spec [of _ s])
qed

lemma keeps_attempt [keeps_intro]: "keeps I m \<Longrightarrow> (\<And>a. keeps I (k a)) \<Longrightarrow> keeps I (attempt m msg k)"
  unfolding attempt_def by (intro keeps_handle keeps_fail)

lemma keeps_ignoring [keeps_intro]: "keeps I m \<Longrightarrow> keeps I k \<Longrightarrow> keeps I (ignoring m k)"
  unfolding ignoring_def by (intro keeps_handle)

lemma keeps_deferred [keeps_intro]: "keeps I d \<Longrightarrow> keeps I body \<Longrightarrow> keeps I (deferred d body)"
  by (simp add: keeps_def deferred_run)

lemma keeps_if [keeps_intro]: "(b \<Longrightarrow> keeps I m) \<Longrightarrow> (\<not> b \<Longrightarrow> keeps I n) \<Longrightarrow> keeps I (if b then m else n)"
  by simp

lemma keeps_option [keeps_intro]:
  "(x = None \<Longrightarrow> keeps I m) \<Longrightarrow> (\<And>a. x = Some a \<Longrightarrow> keeps I (f a)) \<Longrightarrow>
   keeps I (case x of None \<Rightarrow> m | Some a \<Rightarrow> f a)"
  by (cases x) auto

section \<open>One informer per resource, none leaked\<close>

text \<open>
  The informers of the map are exactly the running goroutines, each stored under the key of its
  own request.
\<close>

definition inf_ok :: "(string, informer_info) sync_map \<Rightarrow> nat set \<Rightarrow> nat \<Rightarrow> bool" where
  "inf_ok m run n \<longleftrightarrow>
     (\<forall>k i. Load m k = Some i \<longrightarrow> k = getKeyFromRequestWatch (inf_Req i)) \<and>
     (\<forall>j. j \<in> run \<longleftrightarrow> (\<exists>k i. Load m k = Some i \<and> inf_id i = j)) \<and>
     (\<forall>k i k' i'. Load m k = Some i \<longrightarrow> Load m k' = Some i' \<longrightarrow> inf_id i = inf_id i' \<longrightarrow> k = k') \<and>
     (\<forall>j \<in> run. j < n)"

definition inf_inv :: "('w, 'z) op_st_scheme \<Rightarrow> bool" where
  "inf_inv s \<longleftrightarrow> inf_ok (informers s) (running s) (next_id s)"

lemma inf_okD:
  assumes "inf_ok m run n"
  shows "Load m k = Some i \<Longrightarrow> k = getKeyFromRequestWatch (inf_Req i)"
    and "\<And>j. j \<in> run \<longleftrightarrow> (\<exists>k i. Load m k = Some i \<and> inf_id i = j)"
    and "Load m k = Some i \<Longrightarrow> Load m k' = Some i' \<Longrightarrow> inf_id i = inf_id i' \<Longrightarrow> k = k'"
    and "j \<in> run \<Longrightarrow> j < n"
    and "Load m k = Some i \<Longrightarrow> inf_id i \<in> run"
  using assms unfolding inf_ok_def by blast+

lemma inf_okI:
  assumes "\<And>k i. Load m k = Some i \<Longrightarrow> k = getKeyFromRequestWatch (inf_Req i)"
    and "\<And>j. j \<in> run \<longleftrightarrow> (\<exists>k i. Load m k = Some i \<and> inf_id i = j)"
    and "\<And>k i k' i'. Load m k = Some i \<Longrightarrow> Load m k' = Some i' \<Longrightarrow> inf_id i = inf_id i' \<Longrightarrow> k = k'"
    and "\<And>j. j \<in> run \<Longrightarrow> j < n"
  shows "inf_ok m run n"
  unfolding inf_ok_def using assms by (intro conjI allI impI ballI)

lemma inf_ok_start:
  assumes ok: "inf_ok m run n" and none: "Load m (getKeyFromRequestWatch req) = None"
  shows "inf_ok (Store m (getKeyFromRequestWatch req) \<lparr>inf_id = n, inf_Req = req\<rparr>) (insert n run) (Suc n)"
    (is "inf_ok ?m _ _")
proof (rule inf_okI)
  let ?key = "getKeyFromRequestWatch req"
  have at: "Load ?m k = (if k = ?key then Some \<lparr>inf_id = n, inf_Req = req\<rparr> else Load m k)" for k
    by simp
  show "k = getKeyFromRequestWatch (inf_Req i)" if "Load ?m k = Some i" for k i
  proof (cases "k = ?key")
    case True
    then have "i = \<lparr>inf_id = n, inf_Req = req\<rparr>" using that by simp
    with True show ?thesis by simp
  next
    case False
    then show ?thesis using that by (intro inf_okD(1) [OF ok]) simp
  qed
  show "j \<in> insert n run \<longleftrightarrow> (\<exists>k i. Load ?m k = Some i \<and> inf_id i = j)" for j
  proof
    assume "j \<in> insert n run"
    then consider "j = n" | k i where "Load m k = Some i" "inf_id i = j"
      using inf_okD(2) [OF ok, of j] by blast
    then show "\<exists>k i. Load ?m k = Some i \<and> inf_id i = j"
    proof cases
      case 1
      then show ?thesis by (intro exI [of _ ?key] exI [of _ "\<lparr>inf_id = n, inf_Req = req\<rparr>"]) simp
    next
      case 2
      moreover have "k \<noteq> ?key" using 2 none by auto
      ultimately show ?thesis by (intro exI [of _ k] exI [of _ i]) simp
    qed
  next
    assume "\<exists>k i. Load ?m k = Some i \<and> inf_id i = j"
    then obtain k i where ki: "Load ?m k = Some i" "inf_id i = j" by blast
    then show "j \<in> insert n run"
      using inf_okD(5) [OF ok, of k i] unfolding at by (cases "k = ?key") auto
  qed
  show "j < Suc n" if "j \<in> insert n run" for j
    using that inf_okD(4) [OF ok, of j] by auto
  fix k i k' i'
  assume eq: "Load ?m k = Some i" "Load ?m k' = Some i'" "inf_id i = inf_id i'"
  have other: "inf_id i < n" if "Load m k = Some i" for k i
    using inf_okD(4,5) [OF ok] that by blast
  show "k = k'"
  proof (cases "k = ?key \<or> k' = ?key")
    case True
    then show ?thesis using eq other [of k i] other [of k' i'] unfolding at by (auto split: if_splits)
  next
    case False
    then have "Load m k = Some i" "Load m k' = Some i'" using eq by simp_all
    then show ?thesis using eq(3) by (rule inf_okD(3) [OF ok])
  qed
qed

lemma inf_ok_stop:
  assumes ok: "inf_ok m run n" and some: "Load m k = Some i"
  shows "inf_ok (Delete m k) (run - {inf_id i}) n" (is "inf_ok ?m _ _")
proof (rule inf_okI)
  have at: "Load ?m k' = (if k' = k then None else Load m k')" for k' by simp
  show "k' = getKeyFromRequestWatch (inf_Req i')" if "Load ?m k' = Some i'" for k' i'
    using that inf_okD(1) [OF ok] unfolding at by (simp split: if_splits)
  show "j < n" if "j \<in> run - {inf_id i}" for j
    using that inf_okD(4) [OF ok, of j] by auto
  show "k1 = k2" if "Load ?m k1 = Some i1" "Load ?m k2 = Some i2" "inf_id i1 = inf_id i2" for k1 i1 k2 i2
  proof (rule inf_okD(3) [OF ok])
    show "Load m k1 = Some i1" "Load m k2 = Some i2" using that(1,2) unfolding at by (simp_all split: if_splits)
  qed (rule that(3))
  show "j \<in> run - {inf_id i} \<longleftrightarrow> (\<exists>k' i'. Load ?m k' = Some i' \<and> inf_id i' = j)" for j
  proof
    assume "j \<in> run - {inf_id i}"
    then obtain k' i' where ki: "Load m k' = Some i'" "inf_id i' = j" "j \<noteq> inf_id i"
      using inf_okD(2) [OF ok, of j] by blast
    with some have "k' \<noteq> k" by auto
    with ki show "\<exists>k' i'. Load ?m k' = Some i' \<and> inf_id i' = j" by (intro exI [of _ k'] exI [of _ i']) simp
  next
    assume "\<exists>k' i'. Load ?m k' = Some i' \<and> inf_id i' = j"
    then obtain k' i' where ki: "Load ?m k' = Some i'" "inf_id i' = j" by blast
    then have "k' \<noteq> k" "Load m k' = Some i'" unfolding at by (cases "k' = k"; simp)+
    then show "j \<in> run - {inf_id i}"
      using ki(2) inf_okD(5) [OF ok, of k' i'] inf_okD(3) [OF ok _ some, of k' i'] by blast
  qed
qed

text \<open>Programs that do not touch the informers.\<close>

lemma inf_inv_cong:
  "informers s' = informers s \<Longrightarrow> running s' = running s \<Longrightarrow> next_id s' = next_id s \<Longrightarrow> inf_inv s' = inf_inv s"
  by (simp add: inf_inv_def)

lemma keeps_read [keeps_intro]: "(\<And>s w. I (s\<lparr>world := w\<rparr>) = I s) \<Longrightarrow> keeps I (api_read f)"
  by (auto simp: keeps_def api_read_def split: prod.splits)

lemma keeps_ask [keeps_intro]: "(\<And>s w. I (s\<lparr>world := w\<rparr>) = I s) \<Longrightarrow> keeps I (api_ask f)"
  by (auto simp: keeps_def api_ask_def split: prod.splits)

lemma keeps_write [keeps_intro]:
  "(\<And>s w ws. I (s\<lparr>world := w, writes := ws\<rparr>) = I s) \<Longrightarrow> keeps I (api_write api wr)"
  by (auto simp: keeps_def api_write_def split: prod.splits sum.splits)

lemma inf_inv_updates [simp]:
  "inf_inv (s\<lparr>world := w\<rparr>) = inf_inv s"
  "inf_inv (s\<lparr>world := w, writes := ws\<rparr>) = inf_inv s"
  "inf_inv (s\<lparr>startLocks := l\<rparr>) = inf_inv s"
  "inf_inv (s\<lparr>directory := d\<rparr>) = inf_inv s"
  by (simp_all add: inf_inv_def)

lemma close_and_delete_ok:
  assumes "inf_inv s" "Load (informers s) k = Some i"
  shows "close_and_delete (inf_id i) k s =
      (Ok (), s\<lparr>running := running s - {inf_id i}, informers := Delete (informers s) k\<rparr>)"
    and "inf_inv (s\<lparr>running := running s - {inf_id i}, informers := Delete (informers s) k\<rparr>)"
proof -
  have "inf_id i \<in> running s" using assms inf_okD(5) by (auto simp: inf_inv_def)
  then show "close_and_delete (inf_id i) k s =
      (Ok (), s\<lparr>running := running s - {inf_id i}, informers := Delete (informers s) k\<rparr>)"
    by (simp add: close_and_delete_def)
  show "inf_inv (s\<lparr>running := running s - {inf_id i}, informers := Delete (informers s) k\<rparr>)"
    using inf_ok_stop assms by (simp add: inf_inv_def)
qed

lemma keeps_StopInformer [keeps_intro]: "keeps inf_inv (StopInformer key)"
  unfolding keeps_def
proof (intro allI impI)
  fix s :: "('a, 'b) op_st_scheme"
  assume "inf_inv s"
  then show "inf_inv (snd (StopInformer key s))"
    using close_and_delete_ok [of s key] by (cases "Load (informers s) key") (auto simp: StopInformer_def)
qed

lemma enableInformer_inv:
  assumes inv: "inf_inv s" and none: "Load (informers s) (getKeyFromRequestWatch req) = None"
  shows "inf_inv (snd (enableInformer api req s)) \<and> (\<nexists>p. fst (enableInformer api req s) = Panic p)"
proof -
  let ?key = "getKeyFromRequestWatch req"
  let ?i = "\<lparr>inf_id = next_id s, inf_Req = req\<rparr>"
  define started where "started = (\<lambda>w. s\<lparr>world := w, informers := Store (informers s) ?key ?i,
      running := insert (next_id s) (running s), next_id := Suc (next_id s)\<rparr>)"
  have inv': "inf_inv (started w)" for w
    using inf_ok_start [OF _ none] inv by (simp add: inf_inv_def started_def)
  have stop: "close_and_delete (next_id s) ?key (started w) =
      (Ok (), (started w)\<lparr>running := running (started w) - {next_id s}, informers := Delete (informers (started w)) ?key\<rparr>)"
    "inf_inv ((started w)\<lparr>running := running (started w) - {next_id s}, informers := Delete (informers (started w)) ?key\<rparr>)" for w
    using close_and_delete_ok [OF inv', where k = ?key and i = ?i] by (simp_all add: started_def)
  show ?thesis
  proof (cases "a_addEventHandler api (rw_GVR req) (rw_ResourceNamespace req) (rw_ResourceName req) (world s)")
    case (Pair r w)
    obtain ok w' where sync: "a_waitForSync api (rw_GVR req) (rw_ResourceNamespace req) (rw_ResourceName req) w = (ok, w')"
      by fastforce
    have "api_ask (a_waitForSync api (rw_GVR req) (rw_ResourceNamespace req) (rw_ResourceName req)) (started w) = (Ok ok, started w')"
      using sync by (simp add: api_ask_def started_def)
    moreover have "run_informer req (s\<lparr>world := w\<rparr>) = (Ok (next_id s), started w)"
      by (simp add: run_informer_def started_def)
    moreover have "api_read (a_addEventHandler api (rw_GVR req) (rw_ResourceNamespace req) (rw_ResourceName req)) s =
        (lift_sum r, s\<lparr>world := w\<rparr>)"
      using Pair by (simp add: api_read_def)
    ultimately show ?thesis
      using inv inv' [of w'] stop [of w'] by (cases r; cases ok) (simp_all add: enableInformer_def)
  qed
qed

lemma verifyTargetExist_state:
  "verifyTargetExist api req s = (r, s') \<Longrightarrow> (\<exists>w. s' = s\<lparr>world := w\<rparr>) \<and> (\<nexists>p. r = Panic p)"
  by (cases "a_getDynamic api (rw_GVR req) (rw_ResourceNamespace req) (rw_ResourceName req) (world s)")
    (auto simp: verifyTargetExist_def attempt_def handle_run api_read_def lift_sum_def split: sum.splits)

lemma Add_inv:
  assumes inv: "inf_inv s"
  shows "inf_inv (snd (Add api req s)) \<and> (\<nexists>p. fst (Add api req s) = Panic p)"
proof (cases "Load (informers s) (getKeyFromRequestWatch req)")
  case None
  obtain r s1 where v: "verifyTargetExist api req s = (r, s1)" by fastforce
  then obtain w where s1: "s1 = s\<lparr>world := w\<rparr>" and np: "\<nexists>p. r = Panic p"
    using verifyTargetExist_state [OF v] by auto
  have en: "inf_inv (snd (enableInformer api req s1)) \<and> (\<nexists>p. fst (enableInformer api req s1) = Panic p)"
    using enableInformer_inv [of s1 req api] inv None s1 by simp
  show ?thesis
  proof (cases r)
    case (Ok u)
    obtain r2 s2 where e: "enableInformer api req s1 = (r2, s2)" by fastforce
    then show ?thesis using en v None Ok by (cases r2) (simp_all add: Add_def)
  next
    case (Err e)
    then show ?thesis using v None s1 inv by (simp add: Add_def)
  qed (use np in simp)
qed (use inv in \<open>simp add: Add_def\<close>)

lemma keeps_Add [keeps_intro]: "keeps inf_inv (Add api req)"
  using Add_inv by (auto simp: keeps_def)

text \<open>Stopping a list of keys removes those that are selected, and nothing else.\<close>

lemma stop_keys_run:
  "inf_inv s \<Longrightarrow> distinct keys \<Longrightarrow>
   \<exists>s'. stop_keys P keys s = (Ok (), s') \<and> inf_inv s' \<and>
     (\<forall>k. Load (informers s') k = (if k \<in> set keys \<and> P k then None else Load (informers s) k)) \<and>
     startLocks s' = startLocks s \<and> directory s' = directory s \<and> writes s' = writes s \<and> world s' = world s"
proof (induction keys arbitrary: s)
  case (Cons key keys)
  show ?case
  proof (cases "\<exists>i. Load (informers s) key = Some i \<and> P key")
    case True
    then obtain i where i: "Load (informers s) key = Some i" "P key" by blast
    let ?s = "s\<lparr>running := running s - {inf_id i}, informers := Delete (informers s) key\<rparr>"
    note cd = close_and_delete_ok [OF Cons.prems(1) i(1)]
    have "getKeyFromRequestWatch (inf_Req i) = key"
      using Cons.prems(1) i(1) inf_okD(1) by (fastforce simp: inf_inv_def)
    then have "stop_keys P (key # keys) s = stop_keys P keys ?s"
      using i cd(1) by (simp add: StopInformer_def)
    moreover obtain s' where s': "stop_keys P keys ?s = (Ok (), s')" "inf_inv s'"
        "\<forall>k. Load (informers s') k = (if k \<in> set keys \<and> P k then None else Load (informers ?s) k)"
        "startLocks s' = startLocks s \<and> directory s' = directory s \<and> writes s' = writes s \<and> world s' = world s"
      using Cons.IH [OF cd(2)] Cons.prems(2) by auto
    ultimately show ?thesis using i(2) Cons.prems(2) by (intro exI [of _ s']) simp
  next
    case False
    then have "stop_keys P (key # keys) s = stop_keys P keys s" by (auto split: option.splits)
    moreover obtain s' where s': "stop_keys P keys s = (Ok (), s')" "inf_inv s'"
        "\<forall>k. Load (informers s') k = (if k \<in> set keys \<and> P k then None else Load (informers s) k)"
        "startLocks s' = startLocks s \<and> directory s' = directory s \<and> writes s' = writes s \<and> world s' = world s"
      using Cons.IH [OF Cons.prems(1)] Cons.prems(2) by auto
    ultimately show ?thesis using False by (intro exI [of _ s']) auto
  qed
qed simp

section \<open>Keys\<close>

lemma append_sep_inject:
  "c \<notin> set a \<Longrightarrow> c \<notin> set b \<Longrightarrow> a @ c # x = b @ c # y \<longleftrightarrow> a = b \<and> x = y"
  by (induction a arbitrary: b; case_tac b) auto

lemma lower_char_slash: "lower_char c = CHR ''/'' \<longleftrightarrow> c = CHR ''/''"
proof
  assume l: "lower_char c = CHR ''/''"
  show "c = CHR ''/''"
  proof (rule ccontr)
    assume "c \<noteq> CHR ''/''"
    with l have b: "65 \<le> (of_char c :: nat)" "(of_char c :: nat) \<le> 90" and e: "char_of (of_char c + 32 :: nat) = CHR ''/''"
      by (auto simp: lower_char_def Let_def split: if_splits)
    from e have "of_char (char_of (of_char c + 32 :: nat)) = (of_char (CHR ''/'') :: nat)" by simp
    with b show False by simp
  qed
qed (simp add: lower_char_def)

lemma ToLower_slash [simp]: "CHR ''/'' \<in> set (ToLower s) \<longleftrightarrow> CHR ''/'' \<in> set s"
  by (auto simp: ToLower_def image_iff) (metis lower_char_slash)+

definition no_slash :: "string \<Rightarrow> bool" where
  "no_slash s \<longleftrightarrow> CHR ''/'' \<notin> set s"

lemma informer_key_inject:
  assumes "no_slash crd" "no_slash ns" "no_slash res" "no_slash crd'" "no_slash ns'" "no_slash res'"
  shows "informer_key crd ns res name = informer_key crd' ns' res' name' \<longleftrightarrow>
    EqualFold crd crd' \<and> EqualFold ns ns' \<and> EqualFold res res' \<and> EqualFold name name'"
  using assms by (simp add: informer_key_def no_slash_def EqualFold_def append_sep_inject)

lemma crd_prefix_key:
  assumes "no_slash crd" "no_slash ns" "no_slash crd'" "no_slash ns'"
  shows "HasPrefix (informer_key crd ns res name) (crd_prefix crd' ns') \<longleftrightarrow> EqualFold crd crd' \<and> EqualFold ns ns'"
proof -
  have "HasPrefix (informer_key crd ns res name) (crd_prefix crd' ns') \<longleftrightarrow>
    (\<exists>r. ToLower crd @ CHR ''/'' # ToLower ns @ CHR ''/'' # ToLower res @ ''/'' @ ToLower name =
         ToLower crd' @ CHR ''/'' # ToLower ns' @ CHR ''/'' # r)"
    by (simp add: HasPrefix_iff informer_key_def crd_prefix_def)
  then show ?thesis
    using assms by (simp add: no_slash_def EqualFold_def append_sep_inject)
qed

lemma once_do_fresh:
  "Load (startLocks s) key = None \<Longrightarrow> f (s\<lparr>startLocks := Store (startLocks s) key False\<rparr>) = (Err e, s2) \<Longrightarrow>
   once_do key f s = (Ok (Some e), s2\<lparr>startLocks := Store (startLocks s2) key True\<rparr>)"
  by (simp add: once_do_def LoadOrStore_absent)

lemma once_do_done: "Load (startLocks s) key = Some True \<Longrightarrow> once_do key f s = (Ok None, s)"
  by (simp add: once_do_def LoadOrStore_present)

lemma keeps_once [keeps_intro]:
  assumes "keeps I f" "\<And>s l. I (s\<lparr>startLocks := l\<rparr>) = I s"
  shows "keeps I (once_do key f)"
  unfolding keeps_def
proof (intro allI impI)
  fix s assume "I s"
  obtain v l where ll: "LoadOrStore (startLocks s) key False = (v, l)" by fastforce
  have "I (s\<lparr>startLocks := l\<rparr>)" using \<open>I s\<close> assms(2) by simp
  then have "I (snd (f (s\<lparr>startLocks := l\<rparr>)))" using assms(1) by (simp add: keeps_def)
  then show "I (snd (once_do key f s))"
    using \<open>I s\<close> assms(2) ll by (cases v) (auto simp: once_do_def Let_def split: prod.split outcome.split)
qed

section \<open>The informer manager as a system\<close>

definition inf_init :: "('w, 'z) op_st_scheme \<Rightarrow> bool" where
  "inf_init s \<longleftrightarrow> informers s = sm_empty \<and> running s = {} \<and> next_id s = 0"

inductive inf_step :: "('w, 'x) api_scheme \<Rightarrow> ('w, 'z) op_st_scheme \<Rightarrow> ('w, 'z) op_st_scheme \<Rightarrow> bool" for api where
  add: "inf_step api s (snd (Add api req s))"
| stop: "inf_step api s (snd (StopInformer key s))"
| stop_crd: "distinct keys \<Longrightarrow> inf_step api s (snd (StopForCRD keys crd ns s))"
| stop_all: "distinct keys \<Longrightarrow> inf_step api s (snd (Stop keys s))"
| other: "inf_step api s (s\<lparr>world := w\<rparr>)"

lemma stop_keys_inv: "inf_inv s \<Longrightarrow> distinct keys \<Longrightarrow> inf_inv (snd (stop_keys P keys s))"
  using stop_keys_run [of s keys P] by auto

lemma inf_inv_init: "inf_init s \<Longrightarrow> inf_inv s"
  by (simp add: inf_init_def inf_inv_def inf_ok_def)

lemma inf_inv_step: "inf_inv s \<Longrightarrow> inf_step api s t \<Longrightarrow> inf_inv t"
  by (erule inf_step.cases)
    (auto simp: StopForCRD_def Stop_def Add_inv stop_keys_inv
      dest: keeps_StopInformer [unfolded keeps_def, rule_format])

interpretation inf_sys: invariant_system inf_init "inf_step api" inf_inv for api
  by unfold_locales (auto intro: inf_inv_init inf_inv_step)

section \<open>Properties\<close>

text \<open>
  Whatever informers are added and stopped, in whatever order and with whatever failures of
  the API server, the goroutines that run are exactly the informers of the map, each under the key
  of its own resource: no informer is leaked, and no resource of a CRD is watched twice.
\<close>

theorem informers_not_leaked:
  assumes "reach inf_init (inf_step api) s"
  shows "(j \<in> running s \<longleftrightarrow> (\<exists>key i. Load (informers s) key = Some i \<and> inf_id i = j)) \<and>
    (Load (informers s) key = Some i \<longrightarrow> key = getKeyFromRequestWatch (inf_Req i))"
proof -
  have "inf_ok (informers s) (running s) (next_id s)"
    using inf_sys.reach_inv [OF assms] by (simp add: inf_inv_def)
  then show ?thesis using inf_okD(1,2) by blast
qed

definition start_op :: "unit op_st" where
  "start_op =
     \<lparr>world = (), writes = [], promQueryResponse = zero_response, directory = Some sm_empty, informers = sm_empty,
      running = {}, next_id = 0, startLocks = sm_empty\<rparr>"

definition sample_watch :: request_watch where
  "sample_watch =
     \<lparr>rw_Req = \<lparr>nn_namespace = ''shop'', nn_name = ''web-es''\<rparr>, rw_ResourceName = ''web'',
      rw_ResourceNamespace = ''shop'', rw_GVR = ServiceGVR,
      rw_Handlers = PublicServiceChangeHandler sample_es \<lparr>nn_namespace = ''shop'', nn_name = ''web-es''\<rparr>\<rparr>"

definition watch_api :: "unit api" where
  "watch_api = (constant_api numeric_response)\<lparr>a_getDynamic := (\<lambda>_ _ _ w. (Inr (), w))\<rparr>"

definition watching_op :: "unit op_st" where
  "watching_op = snd (Add watch_api sample_watch start_op)"

lemma watching_op_eq:
  "watching_op = start_op\<lparr>informers := Store sm_empty (getKeyFromRequestWatch sample_watch) \<lparr>inf_id = 0, inf_Req = sample_watch\<rparr>,
     running := {0}, next_id := 1\<rparr>"
  by (simp add: watching_op_def Add_def start_op_def verifyTargetExist_def enableInformer_def attempt_def handle_run
      api_read_def api_ask_def run_informer_def watch_api_def constant_api_def)

lemma watching_op_reach: "reach inf_init (inf_step watch_api) watching_op"
proof -
  have "reach inf_init (inf_step watch_api) start_op"
    by (rule reach_init) (simp add: inf_init_def start_op_def)
  then show ?thesis unfolding watching_op_def by (rule reach_step) (rule inf_step.add)
qed

theorem informers_not_leaked_witness:
  "0 \<in> running watching_op \<and> (\<exists>key i. Load (informers watching_op) key = Some i \<and> inf_id i = 0)"
  using informers_not_leaked [OF watching_op_reach, of 0] by (simp add: watching_op_eq)

text \<open>
  Stopping the informers of a CRD stops all of its informers and no other: an informer is left
  exactly if its CRD has another name or its resource is in another namespace (up to case),
  provided names and namespaces contain no slash.
\<close>

theorem stop_for_crd_exact:
  assumes "reach inf_init (inf_step api) s" and "distinct keys" and "set keys = {k. Load (informers s) k \<noteq> None}"
    and "no_slash crd" and "no_slash ns"
    and "\<And>k i. Load (informers s) k = Some i \<Longrightarrow> no_slash (nn_name (rw_Req (inf_Req i))) \<and> no_slash (rw_ResourceNamespace (inf_Req i))"
  shows "\<exists>s'. StopForCRD keys crd ns s = (Ok (), s') \<and>
    (\<forall>k i. Load (informers s') k = Some i \<longleftrightarrow> Load (informers s) k = Some i \<and>
       \<not> (EqualFold (nn_name (rw_Req (inf_Req i))) crd \<and> EqualFold (rw_ResourceNamespace (inf_Req i)) ns))"
proof -
  have inv: "inf_inv s" using assms(1) by (rule inf_sys.reach_inv)
  obtain s' where s': "StopForCRD keys crd ns s = (Ok (), s')"
      "\<forall>k. Load (informers s') k = (if k \<in> set keys \<and> HasPrefix k (crd_prefix crd ns) then None else Load (informers s) k)"
    using stop_keys_run [OF inv assms(2)] unfolding StopForCRD_def by blast
  have pre: "HasPrefix k (crd_prefix crd ns) \<longleftrightarrow>
      EqualFold (nn_name (rw_Req (inf_Req i))) crd \<and> EqualFold (rw_ResourceNamespace (inf_Req i)) ns"
    if i: "Load (informers s) k = Some i" for k i
  proof -
    have "k = getKeyFromRequestWatch (inf_Req i)"
      using inv i inf_okD(1) unfolding inf_inv_def by blast
    then show ?thesis
      using crd_prefix_key assms(4,5) assms(6) [OF i] by (simp add: getKeyFromRequestWatch_def)
  qed
  have "Load (informers s') k = Some i \<longleftrightarrow> Load (informers s) k = Some i \<and>
      \<not> (EqualFold (nn_name (rw_Req (inf_Req i))) crd \<and> EqualFold (rw_ResourceNamespace (inf_Req i)) ns)" for k i
    using s'(2) pre [of k i] assms(3) by (cases "Load (informers s) k") (auto split: if_splits)
  with s'(1) show ?thesis by blast
qed

theorem stop_for_crd_exact_witness:
  "\<exists>s'. StopForCRD [getKeyFromRequestWatch sample_watch] ''web-es'' ''shop'' watching_op = (Ok (), s') \<and>
     (\<forall>k i. Load (informers s') k = Some i \<longleftrightarrow> Load (informers watching_op) k = Some i \<and>
        \<not> (EqualFold (nn_name (rw_Req (inf_Req i))) ''web-es'' \<and> EqualFold (rw_ResourceNamespace (inf_Req i)) ''shop''))"
  by (rule stop_for_crd_exact [OF watching_op_reach])
    (auto simp: watching_op_eq no_slash_def sample_watch_def split: if_splits)

end
