(* ===== verification/Sha256.thy ===== *)
theory Sha256
  imports Prelude "HOL-Library.Word"
begin

unbundle bit_operations_syntax

text \<open>
  The hash of Go's \<^verbatim>\<open>crypto/sha256\<close> and its \<^verbatim>\<open>hex.EncodeToString\<close>
  (FIPS 180-4), which \<^verbatim>\<open>src/pkg/utils/utils.go\<close> uses to keep generated names unique.
  A message is a byte string; all arithmetic is on 32-bit words.
\<close>

type_synonym u32 = "32 word"

definition rotr :: "nat \<Rightarrow> u32 \<Rightarrow> u32" where
  "rotr n x = drop_bit n x OR push_bit (32 - n) x"

definition Ch :: "u32 \<Rightarrow> u32 \<Rightarrow> u32 \<Rightarrow> u32" where
  "Ch x y z = (x AND y) XOR (NOT x AND z)"

definition Maj :: "u32 \<Rightarrow> u32 \<Rightarrow> u32 \<Rightarrow> u32" where
  "Maj a b c = (a AND b) XOR (a AND c) XOR (b AND c)"

definition big_sigma0 :: "u32 \<Rightarrow> u32" where
  "big_sigma0 x = rotr 2 x XOR rotr 13 x XOR rotr 22 x"

definition big_sigma1 :: "u32 \<Rightarrow> u32" where
  "big_sigma1 x = rotr 6 x XOR rotr 11 x XOR rotr 25 x"

definition small_sigma0 :: "u32 \<Rightarrow> u32" where
  "small_sigma0 x = rotr 7 x XOR rotr 18 x XOR drop_bit 3 x"

definition small_sigma1 :: "u32 \<Rightarrow> u32" where
  "small_sigma1 x = rotr 17 x XOR rotr 19 x XOR drop_bit 10 x"

text \<open>
  The constants as the standard defines them: the first 32 bits of the fractional parts of the cube
  roots of the first 64 primes, and of the square roots of the first 8. \<open>int_root\<close> finds an integer
  root bit by bit; 35 bits hold the roots of primes below 512 scaled by \<open>2 ^ 32\<close>.
\<close>

definition primes :: "nat list" where
  "primes =
    [2, 3, 5, 7, 11, 13, 17, 19, 23, 29, 31, 37, 41, 43, 47, 53,
     59, 61, 67, 71, 73, 79, 83, 89, 97, 101, 103, 107, 109, 113, 127, 131,
     137, 139, 149, 151, 157, 163, 167, 173, 179, 181, 191, 193, 197, 199, 211, 223,
     227, 229, 233, 239, 241, 251, 257, 263, 269, 271, 277, 281, 283, 293, 307, 311]"

fun int_root :: "nat \<Rightarrow> int \<Rightarrow> nat \<Rightarrow> int \<Rightarrow> int" where
  "int_root k x 0 acc = acc"
| "int_root k x (Suc b) acc = int_root k x b (if (acc + 2 ^ b) ^ k \<le> x then acc + 2 ^ b else acc)"

definition root_bits :: "nat \<Rightarrow> nat \<Rightarrow> u32" where
  "root_bits k p = word_of_int (int_root k (int p * 2 ^ (32 * k)) 35 0)"

definition K256 :: "u32 list" where
  "K256 = map (root_bits 3) primes"

definition H256 :: "u32 list" where
  "H256 = map (root_bits 2) (take 8 primes)"

text \<open>Padding: the byte 128, zeros, and the length in bits as eight big-endian bytes.\<close>

definition be_bytes :: "nat \<Rightarrow> int \<Rightarrow> u32 list" where
  "be_bytes k n = map (\<lambda>i. word_of_int (n div 256 ^ i mod 256)) (rev [0..<k])"

definition pad_message :: "u32 list \<Rightarrow> u32 list" where
  "pad_message bs =
     bs @ [128] @ replicate ((119 - length bs mod 64) mod 64) 0
        @ be_bytes 8 (8 * int (length bs))"

fun be_words :: "u32 list \<Rightarrow> u32 list" where
  "be_words (a # b # c # d # rest) = (((a * 256 + b) * 256 + c) * 256 + d) # be_words rest"
| "be_words _ = []"

text \<open>The message schedule, kept newest first: 48 words on top of the 16 of the block.\<close>

fun extend_schedule :: "nat \<Rightarrow> u32 list \<Rightarrow> u32 list" where
  "extend_schedule 0 ws = rev ws"
| "extend_schedule (Suc n) ws =
     extend_schedule n
       ((small_sigma1 (ws ! 1) + ws ! 6 + small_sigma0 (ws ! 14) + ws ! 15) # ws)"

fun sha_round :: "u32 list \<Rightarrow> u32 \<times> u32 \<Rightarrow> u32 list" where
  "sha_round [a, b, c, d, e, f, g, h] (k, w) =
     (let t1 = h + big_sigma1 e + Ch e f g + k + w;
          t2 = big_sigma0 a + Maj a b c
      in [t1 + t2, a, b, c, d + t1, e, f, g])"
| "sha_round hs kw = hs"

definition compress_block :: "u32 list \<Rightarrow> u32 list \<Rightarrow> u32 list" where
  "compress_block hs block =
     map2 (+) hs (foldl sha_round hs (zip K256 (extend_schedule 48 (rev block))))"

fun hash_blocks :: "nat \<Rightarrow> u32 list \<Rightarrow> u32 list \<Rightarrow> u32 list" where
  "hash_blocks 0 hs ws = hs"
| "hash_blocks (Suc n) hs ws = hash_blocks n (compress_block hs (take 16 ws)) (drop 16 ws)"

definition sha256_words :: "string \<Rightarrow> u32 list" where
  "sha256_words s =
     (let ws = be_words (pad_message (map of_char s)) in hash_blocks (length ws div 16) H256 ws)"

definition hex_digit :: "nat \<Rightarrow> char" where
  "hex_digit n = ''0123456789abcdef'' ! (n mod 16)"

definition hex_word :: "u32 \<Rightarrow> string" where
  "hex_word w = map (\<lambda>i. hex_digit (unat (drop_bit (4 * i) w AND 15))) (rev [0..<8])"

definition sha256_hex :: "string \<Rightarrow> string" where
  "sha256_hex s = concat (map hex_word (sha256_words s))"

text \<open>The digest is 64 hexadecimal digits for every message.\<close>

definition hex_chars :: "string" where
  "hex_chars = ''0123456789abcdef''"

lemma hex_digit_in: "hex_digit n \<in> set hex_chars"
proof -
  have "n mod 16 < length ''0123456789abcdef''" by simp
  then have "''0123456789abcdef'' ! (n mod 16) \<in> set ''0123456789abcdef''" by (rule nth_mem)
  then show ?thesis by (simp only: hex_digit_def hex_chars_def)
qed

lemma hex_word_chars: "set (hex_word w) \<subseteq> set hex_chars"
  by (auto simp: hex_word_def hex_digit_in)

lemma length_hex_word [simp]: "length (hex_word w) = 8"
  by (simp add: hex_word_def)

lemma length_sha_round [simp]: "length (sha_round hs kw) = length hs"
  by (induction hs kw rule: sha_round.induct) (auto simp: Let_def)

lemma length_foldl_sha_round [simp]: "length (foldl sha_round hs kws) = length hs"
  by (induction kws arbitrary: hs) auto

lemma length_compress_block [simp]: "length (compress_block hs b) = length hs"
  by (simp add: compress_block_def)

lemma length_hash_blocks [simp]: "length (hash_blocks n hs ws) = length hs"
  by (induction n arbitrary: hs ws) auto

lemma length_sha256_words [simp]: "length (sha256_words s) = 8"
  by (simp add: sha256_words_def Let_def H256_def primes_def)

lemma length_concat_hex: "length (concat (map hex_word ws)) = 8 * length ws"
  by (induction ws) auto

lemma length_sha256_hex [simp]: "length (sha256_hex s) = 64"
  by (simp add: sha256_hex_def length_concat_hex)

lemma sha256_hex_chars: "set (sha256_hex s) \<subseteq> set hex_chars"
  using hex_word_chars by (auto simp: sha256_hex_def)

text \<open>The search finds the integer root; three of the standard's constants.\<close>

lemma int_root_correct:
  assumes "0 < k" and "acc ^ k \<le> x" and "x < (acc + 2 ^ b) ^ k"
  shows "int_root k x b acc ^ k \<le> x \<and> x < (int_root k x b acc + 1) ^ k"
  using assms by (induction b arbitrary: acc) (auto simp: algebra_simps)

lemma root_bits_ends: "root_bits 3 2 = 0x428a2f98" "root_bits 3 311 = 0xc67178f2" "root_bits 2 19 = 0x5be0cd19"
  by code_simp+

end
