(* ===== verification/Naming.thy ===== *)
theory Naming
  imports Sha256
begin

text \<open>
  Generated names, \<^verbatim>\<open>src/pkg/utils/utils.go\<close>: the private service of a public
  service and the EndpointSlice that points a public service at the resolver. Both are
  \<open>buildName\<close> with different suffixes and limits. The contract \<open>bounded_namer\<close>
  (length limit, DNS label characters, distinct names unless the hashes collide) is what the
  controller and the resolver rely on when they compute the same name independently.
\<close>

definition name_prefix :: string where
  "name_prefix = ''elasti-''"

definition privateServicePostfix :: string where
  "privateServicePostfix = ''-pvt''"

definition endpointSlicePostfix :: string where
  "endpointSlicePostfix = ''-endpointslice-to-resolver''"

definition hashLength :: nat where
  "hashLength = 10"

definition maxServiceNameLength :: nat where
  "maxServiceNameLength = 63"

definition maxEndpointSliceNameLength :: nat where
  "maxEndpointSliceNameLength = 253"

lemmas name_consts = name_prefix_def privateServicePostfix_def endpointSlicePostfix_def
  hashLength_def maxServiceNameLength_def maxEndpointSliceNameLength_def

definition buildName :: "string \<Rightarrow> string \<Rightarrow> nat \<Rightarrow> string" where
  "buildName name postfix maxLength =
     (let hashed = take hashLength (sha256_hex name);
          overhead = length name_prefix + length postfix + 1 + hashLength;
          maxNameLength = maxLength - overhead;
          name' = (if length name > maxNameLength
                   then TrimRightWhile (\<lambda>c. c = CHR ''-'') (take maxNameLength name)
                   else name)
      in name_prefix @ name' @ postfix @ ''-'' @ hashed)"

definition GetPrivateServiceName :: "string \<Rightarrow> string" where
  "GetPrivateServiceName publicSVCName =
     buildName publicSVCName privateServicePostfix maxServiceNameLength"

definition GetEndpointSliceToResolverName :: "string \<Rightarrow> string" where
  "GetEndpointSliceToResolverName serviceName =
     buildName serviceName endpointSlicePostfix maxEndpointSliceNameLength"

text \<open>The characters of an RFC 1035 label, and the label check of the API server.\<close>

definition label_char :: "char \<Rightarrow> bool" where
  "label_char c \<longleftrightarrow>
     (let n = (of_char c :: nat) in (97 \<le> n \<and> n \<le> 122) \<or> (48 \<le> n \<and> n \<le> 57) \<or> n = 45)"

definition lower_alpha :: "char \<Rightarrow> bool" where
  "lower_alpha c \<longleftrightarrow> (let n = (of_char c :: nat) in 97 \<le> n \<and> n \<le> 122)"

definition is_rfc1035_label :: "nat \<Rightarrow> string \<Rightarrow> bool" where
  "is_rfc1035_label limit s \<longleftrightarrow>
     s \<noteq> [] \<and> length s \<le> limit \<and> list_all label_char s \<and> lower_alpha (hd s) \<and> last s \<noteq> CHR ''-''"

lemma hex_chars_label: "c \<in> set hex_chars \<Longrightarrow> label_char c \<and> c \<noteq> CHR ''-''"
  by (auto simp: hex_chars_def label_char_def)

definition name_hash :: "string \<Rightarrow> string" where
  "name_hash s = take hashLength (sha256_hex s)"

lemma length_name_hash [simp]: "length (name_hash s) = hashLength"
  by (simp add: name_hash_def hashLength_def)

lemma name_hash_chars: "c \<in> set (name_hash s) \<Longrightarrow> c \<in> set hex_chars"
  using sha256_hex_chars by (auto simp: name_hash_def dest: in_set_takeD)

lemma name_hash_not_Nil [simp]: "name_hash s \<noteq> []"
proof
  assume "name_hash s = []"
  then have "length (name_hash s) = 0" by (simp only: list.size)
  then show False by (simp only: length_name_hash hashLength_def)
qed

text \<open>The part of the source name that survives, and the shape of the result.\<close>

definition kept_name :: "string \<Rightarrow> string \<Rightarrow> nat \<Rightarrow> string" where
  "kept_name name postfix maxLength =
     (let m = maxLength - (length name_prefix + length postfix + 1 + hashLength)
      in if length name > m then TrimRightWhile (\<lambda>c. c = CHR ''-'') (take m name) else name)"

lemma buildName_shape:
  "buildName name postfix maxLength =
     name_prefix @ kept_name name postfix maxLength @ postfix @ ''-'' @ name_hash name"
  by (simp add: buildName_def kept_name_def name_hash_def Let_def)

lemma kept_name_prefix: "\<exists>r. name = kept_name name postfix maxLength @ r"
proof -
  define m where "m = maxLength - (length name_prefix + length postfix + 1 + hashLength)"
  obtain r where "take m name = TrimRightWhile (\<lambda>c. c = CHR ''-'') (take m name) @ r"
    using TrimRightWhile_prefix by blast
  then have "name = TrimRightWhile (\<lambda>c. c = CHR ''-'') (take m name) @ r @ drop m name"
    by (metis append.assoc append_take_drop_id)
  then show ?thesis by (auto simp: kept_name_def Let_def m_def)
qed

lemma kept_name_set: "set (kept_name name postfix maxLength) \<subseteq> set name"
  using kept_name_prefix [of name postfix maxLength] by (metis Un_upper1 set_append)

lemma kept_name_length:
  "length (kept_name name postfix maxLength)
     \<le> maxLength - (length name_prefix + length postfix + 1 + hashLength)"
  by (auto simp: kept_name_def Let_def intro: order_trans [OF TrimRightWhile_length])

lemma kept_name_id:
  "length name \<le> maxLength - (length name_prefix + length postfix + 1 + hashLength)
   \<Longrightarrow> kept_name name postfix maxLength = name"
  by (simp add: kept_name_def)

lemma buildName_length:
  assumes "length name_prefix + length postfix + 1 + hashLength \<le> maxLength"
  shows "length (buildName name postfix maxLength) \<le> maxLength"
  using assms kept_name_length [of name postfix maxLength] by (simp add: buildName_shape)

lemma buildName_hash:
  "buildName a postfix maxLength = buildName b postfix maxLength \<Longrightarrow> name_hash a = name_hash b"
  by (simp add: buildName_shape)

lemma buildName_inj_short:
  assumes "length a \<le> maxLength - (length name_prefix + length postfix + 1 + hashLength)"
    and "length b \<le> maxLength - (length name_prefix + length postfix + 1 + hashLength)"
    and eq: "buildName a postfix maxLength = buildName b postfix maxLength"
  shows "a = b"
proof -
  from eq have "length (buildName a postfix maxLength) = length (buildName b postfix maxLength)"
    by simp
  then have "length a = length b"
    using assms(1,2) by (simp add: buildName_shape kept_name_id)
  then show ?thesis
    using eq assms(1,2) by (simp add: buildName_shape kept_name_id)
qed

lemma buildName_label:
  assumes "length name_prefix + length postfix + 1 + hashLength \<le> maxLength"
    and "list_all label_char name" and "list_all label_char postfix"
  shows "is_rfc1035_label maxLength (buildName name postfix maxLength)"
proof -
  have kept: "list_all label_char (kept_name name postfix maxLength)"
    using assms(2) kept_name_set [of name postfix maxLength] by (auto simp: list_all_iff)
  have hash: "list_all label_char (name_hash name)"
    using name_hash_chars hex_chars_label by (auto simp: list_all_iff)
  have "last (name_hash name) \<noteq> CHR ''-''"
    using name_hash_chars hex_chars_label last_in_set [OF name_hash_not_Nil] by blast
  with kept hash assms show ?thesis
    using buildName_length [OF assms(1), of name]
    by (simp add: is_rfc1035_label_def buildName_shape name_prefix_def label_char_def lower_alpha_def)
qed

section \<open>The contract of a generated name\<close>

locale bounded_namer =
  fixes namer :: "string \<Rightarrow> string"
    and limit :: nat
    and exact :: nat
  assumes name_length: "length (namer s) \<le> limit"
    and name_label: "list_all label_char s \<Longrightarrow> is_rfc1035_label limit (namer s)"
    and name_collision: "namer s = namer t \<Longrightarrow> name_hash s = name_hash t"
    and name_exact: "length s \<le> exact \<Longrightarrow> length t \<le> exact \<Longrightarrow> namer s = namer t \<Longrightarrow> s = t"
begin

lemma distinct_hashes_distinct_names: "name_hash s \<noteq> name_hash t \<Longrightarrow> namer s \<noteq> namer t"
  using name_collision by blast

lemma inj_on_short: "inj_on namer {s. length s \<le> exact}"
  by (auto intro: inj_onI name_exact)

lemma distinct_map_short: "\<forall>s \<in> set ss. length s \<le> exact \<Longrightarrow> distinct (map namer ss) = distinct ss"
  using inj_on_subset [OF inj_on_short, of "set ss"] by (auto simp: distinct_map)

end

interpretation pvt: bounded_namer GetPrivateServiceName 63 41
proof
  fix s t
  show "length (GetPrivateServiceName s) \<le> 63"
    using buildName_length [of privateServicePostfix 63 s]
    by (simp add: GetPrivateServiceName_def name_consts)
  show "list_all label_char s \<Longrightarrow> is_rfc1035_label 63 (GetPrivateServiceName s)"
    using buildName_label [of privateServicePostfix 63 s]
    by (simp add: GetPrivateServiceName_def name_consts label_char_def)
  show "GetPrivateServiceName s = GetPrivateServiceName t \<Longrightarrow> name_hash s = name_hash t"
    unfolding GetPrivateServiceName_def by (rule buildName_hash)
  show "length s \<le> 41 \<Longrightarrow> length t \<le> 41 \<Longrightarrow>
      GetPrivateServiceName s = GetPrivateServiceName t \<Longrightarrow> s = t"
    unfolding GetPrivateServiceName_def by (rule buildName_inj_short) (simp_all add: name_consts)
qed

interpretation eps: bounded_namer GetEndpointSliceToResolverName 253 209
proof
  fix s t
  show "length (GetEndpointSliceToResolverName s) \<le> 253"
    using buildName_length [of endpointSlicePostfix 253 s]
    by (simp add: GetEndpointSliceToResolverName_def name_consts)
  show "list_all label_char s \<Longrightarrow> is_rfc1035_label 253 (GetEndpointSliceToResolverName s)"
    using buildName_label [of endpointSlicePostfix 253 s]
    by (simp add: GetEndpointSliceToResolverName_def name_consts label_char_def)
  show "GetEndpointSliceToResolverName s = GetEndpointSliceToResolverName t \<Longrightarrow> name_hash s = name_hash t"
    unfolding GetEndpointSliceToResolverName_def by (rule buildName_hash)
  show "length s \<le> 209 \<Longrightarrow> length t \<le> 209 \<Longrightarrow>
      GetEndpointSliceToResolverName s = GetEndpointSliceToResolverName t \<Longrightarrow> s = t"
    unfolding GetEndpointSliceToResolverName_def
    by (rule buildName_inj_short) (simp_all add: name_consts)
qed

section \<open>Properties\<close>

text \<open>
  C30: the private service name is a valid service name (an RFC 1035 label of at most 63
  characters) for every service name, however long, and two services share a private name only
  if the first ten hexadecimal digits of their SHA-256 digests agree, and never when both names
  have at most 41 characters.
\<close>

theorem private_service_names:
  "list_all label_char s \<Longrightarrow> is_rfc1035_label 63 (GetPrivateServiceName s) \<and>
   (GetPrivateServiceName s = GetPrivateServiceName t \<longrightarrow>
      take 10 (sha256_hex s) = take 10 (sha256_hex t) \<and>
      (length s \<le> 41 \<longrightarrow> length t \<le> 41 \<longrightarrow> s = t))"
  using pvt.name_label pvt.name_collision pvt.name_exact
  by (metis hashLength_def name_hash_def)

theorem private_service_names_witness:
  "is_rfc1035_label 63 (GetPrivateServiceName ''target-deployment'') \<and>
   GetPrivateServiceName ''target-deployment'' \<noteq> GetPrivateServiceName ''target''"
  using private_service_names [of "''target-deployment''" "''target''"]
  by (simp add: label_char_def)

text \<open>
  The endpoint slice name stays within 253 characters, and two services whose names have at
  most 209 characters never share an endpoint slice.
\<close>

theorem endpoint_slice_names:
  "list_all label_char s \<Longrightarrow> is_rfc1035_label 253 (GetEndpointSliceToResolverName s) \<and>
   (length s \<le> 209 \<longrightarrow> length t \<le> 209 \<longrightarrow>
    GetEndpointSliceToResolverName s = GetEndpointSliceToResolverName t \<longrightarrow> s = t)"
  using eps.name_label eps.name_exact by metis

theorem endpoint_slice_names_witness:
  "is_rfc1035_label 253 (GetEndpointSliceToResolverName ''target-deployment'') \<and>
   GetEndpointSliceToResolverName ''target-deployment'' \<noteq> GetEndpointSliceToResolverName ''target''"
  using endpoint_slice_names [of "''target-deployment''" "''target''"]
  by (simp add: label_char_def)

end
