(* ===== verification/Proxy_Objects.thy ===== *)
theory Proxy_Objects
  imports Informers Naming
begin

text \<open>
  The objects that put the resolver in front of a service: the private service, which keeps the
  selector of the public one, and the endpoint slice that adds the resolver's addresses to the
  public service (\<^verbatim>\<open>opsServices.go\<close> and \<^verbatim>\<open>opsEndpointslices.go\<close> of
  \<^verbatim>\<open>src/operator/internal/controller\<close>, with \<^verbatim>\<open>pkg/k8shelper\<close>). The configuration of the
  resolver is read from the environment at every use and panics if a variable is missing.
\<close>

section \<open>Helpers\<close>

definition with_config :: "('w, 'x) api_scheme \<Rightarrow> (resolver_config \<Rightarrow> ('s, 'a) prog) \<Rightarrow> ('s, 'a) prog" where
  "with_config api k = (case GetResolverConfig (a_getenv api) of Inl p \<Rightarrow> panic p | Inr c \<Rightarrow> k c)"

text \<open>
  An object an informer delivers: \<open>None\<close> if it is not an \<^verbatim>\<open>*unstructured.Unstructured\<close>,
  otherwise what the converter makes of it.
\<close>

type_synonym 'a watched = "(go_error + 'a) option"

definition UnstructuredToResource :: "'a watched \<Rightarrow> ('s, 'a) prog" where
  "UnstructuredToResource obj =
     (case obj of
        None \<Rightarrow> panic ''interface conversion: not *unstructured.Unstructured''
      | Some (Inl e) \<Rightarrow> fail (EWrap ''UnstructuredToResource'' e)
      | Some (Inr resource) \<Rightarrow> ret resource)"

definition svc_key :: "service \<Rightarrow> nsname" where
  "svc_key svc = \<lparr>nn_namespace = svc_Namespace svc, nn_name = svc_Name svc\<rparr>"

definition slice_key :: "endpoint_slice \<Rightarrow> nsname" where
  "slice_key sl = \<lparr>nn_namespace = eps_Namespace sl, nn_name = eps_Name sl\<rparr>"

section \<open>The private service\<close>

definition deletePrivateService :: "('w, 'x) api_scheme \<Rightarrow> nsname \<Rightarrow> (('w, 'z) st_scheme, unit) prog" where
  "deletePrivateService api publicService =
     handle (api_read (a_getService api (publicService\<lparr>nn_name := GetPrivateServiceName (nn_name publicService)\<rparr>)))
       (\<lambda>err. if IsNotFound err then ret () else fail (EWrap ''failed to get private service'' err))
       (\<lambda>privateSVC. attempt (api_write api (DeleteService (svc_key privateSVC))) ''failed to delete private service''
          (\<lambda>_. ret ()))"

definition no_node_ports :: "service_port list \<Rightarrow> service_port list" where
  "no_node_ports ports = map (\<lambda>p. p\<lparr>sp_NodePort := 0\<rparr>) ports"

definition private_copy :: "service \<Rightarrow> service" where
  "private_copy publicSVC =
     publicSVC\<lparr>svc_Name := GetPrivateServiceName (svc_Name publicSVC), svc_ClusterIP := [], svc_ClusterIPs := [],
       svc_Ports := no_node_ports (svc_Ports publicSVC), svc_ResourceVersion := [], svc_OwnerReferences := []\<rparr>"

definition checkAndCreatePrivateService ::
  "('w, 'x) api_scheme \<Rightarrow> service \<Rightarrow> elasti_service \<Rightarrow> (('w, 'z) st_scheme, string) prog" where
  "checkAndCreatePrivateService api publicSVC es =
     (let privateServiceName = GetPrivateServiceName (svc_Name publicSVC);
          create =
            attempt (pure_call (a_controllerReference api es (private_copy publicSVC))) ''checkAndCreatePrivateService'' (\<lambda>ref.
            attempt (api_write api (CreateService ((private_copy publicSVC)\<lparr>svc_OwnerReferences := [ref]\<rparr>)))
              ''checkAndCreatePrivateService'' (\<lambda>_. ret privateServiceName))
      in handle (api_read (a_getService api \<lparr>nn_namespace = svc_Namespace publicSVC, nn_name = privateServiceName\<rparr>))
           (\<lambda>_. create) (\<lambda>_. ret privateServiceName))"

definition handlePublicServiceChanges ::
  "('w, 'x) api_scheme \<Rightarrow> service watched \<Rightarrow> string \<Rightarrow> (('w, 'z) st_scheme, unit) prog" where
  "handlePublicServiceChanges api obj serviceName =
     attempt (UnstructuredToResource obj) ''failed to convert unstructured to service'' (\<lambda>publicSVC.
       if svc_Name publicSVC \<noteq> serviceName
       then fail (EMsg ''public service is not same as mentioned in CRD; informer misconfigured'')
       else
         handle (api_read (a_getService api
             \<lparr>nn_namespace = svc_Namespace publicSVC, nn_name = GetPrivateServiceName (svc_Name publicSVC)\<rparr>))
           (\<lambda>err. if IsNotFound err then fail (EWrap ''private service not found'' err)
                  else fail (EWrap ''failed to get private service'' err))
           (\<lambda>privateSVC.
              attempt (api_write api (UpdateService (privateSVC\<lparr>svc_Selector := svc_Selector publicSVC,
                  svc_Ports := no_node_ports (svc_Ports publicSVC)\<rparr>)))
                ''failed to update private service'' (\<lambda>_. ret ())))"

section \<open>The endpoint slice to the resolver\<close>

definition ErrNoResolverPodFound :: go_error where
  "ErrNoResolverPodFound = EMsg ''no Resolver pod found''"

definition slice_addresses :: "endpoint_slice list \<Rightarrow> string list" where
  "slice_addresses slices = concat (map (\<lambda>sl. concat (map ep_Addresses (eps_Endpoints sl))) slices)"

definition getIPsForResolver :: "('w, 'x) api_scheme \<Rightarrow> (('w, 'z) st_scheme, string list) prog" where
  "getIPsForResolver api =
     with_config api (\<lambda>c.
       let inNamespace = (if length (GetWatchNamespaces (a_getenv api)) > 0 then Some (Namespace c) else None)
       in attempt (api_read (a_listSlices api (ServiceName c) inNamespace)) ''getIPsForResolver'' (\<lambda>resolverSlices.
            let resolverPodIPs = slice_addresses resolverSlices
            in if length resolverPodIPs = 0 then fail ErrNoResolverPodFound else ret resolverPodIPs))"

definition deleteEndpointsliceToResolver :: "('w, 'x) api_scheme \<Rightarrow> nsname \<Rightarrow> (('w, 'z) st_scheme, unit) prog" where
  "deleteEndpointsliceToResolver api service =
     handle (api_read (a_getSlice api (service\<lparr>nn_name := GetEndpointSliceToResolverName (nn_name service)\<rparr>)))
       (\<lambda>err. if IsNotFound err then ret () else fail (EWrap ''failed to get endpointslice'' err))
       (\<lambda>endpointSlice. attempt (api_write api (DeleteSlice (slice_key endpointSlice))) ''failed to delete endpointslice''
          (\<lambda>_. ret ()))"

definition slice_to_resolver :: "service \<Rightarrow> service_port \<Rightarrow> resolver_config \<Rightarrow> string list \<Rightarrow> endpoint_slice" where
  "slice_to_resolver svc port c ips =
     \<lparr>eps_Name = GetEndpointSliceToResolverName (svc_Name svc), eps_Namespace = svc_Namespace svc,
      eps_Labels = [(''kubernetes.io/service-name'', svc_Name svc)], eps_AddressType = ''IPv4'',
      eps_Ports = [\<lparr>epp_Name = sp_Name port, epp_Protocol = ''TCP'', epp_Port = ReverseProxyPort c\<rparr>],
      eps_Endpoints = map (\<lambda>ip. \<lparr>ep_Addresses = [ip], ep_Ready = None\<rparr>) ips\<rparr>"

text \<open>The request of the last step. \<^verbatim>\<open>service.Spec.Ports[0]\<close> panics for a service without ports.\<close>

definition put_slice ::
  "('w, 'x) api_scheme \<Rightarrow> service \<Rightarrow> string list \<Rightarrow> (endpoint_slice \<Rightarrow> kube_write) \<Rightarrow> (('w, 'z) st_scheme, unit) prog" where
  "put_slice api svc resolverPodIPs request =
     (case svc_Ports svc of
        [] \<Rightarrow> panic ''index out of range [0] with length 0''
      | port # _ \<Rightarrow>
          with_config api (\<lambda>c.
            attempt (api_write api (request (slice_to_resolver svc port c resolverPodIPs)))
              ''createOrUpdateEndpointsliceToResolver'' (\<lambda>_. ret ())))"

definition createOrUpdateEndpointsliceToResolver ::
  "('w, 'x) api_scheme \<Rightarrow> service \<Rightarrow> (('w, 'z) st_scheme, unit) prog" where
  "createOrUpdateEndpointsliceToResolver api svc =
     handle (getIPsForResolver api) fail (\<lambda>resolverPodIPs.
       handle (api_read (a_getSlice api
           \<lparr>nn_namespace = svc_Namespace svc, nn_name = GetEndpointSliceToResolverName (svc_Name svc)\<rparr>))
         (\<lambda>err. if IsNotFound err then put_slice api svc resolverPodIPs CreateSlice
                else fail (EWrap ''createOrUpdateEndpointsliceToResolver'' err))
         (\<lambda>_. put_slice api svc resolverPodIPs UpdateSlice))"

section \<open>Properties\<close>

lemma attempt_ret: "attempt (ret a) msg k = k a"
  by (simp add: fun_eq_iff)

lemma asks_with_config [asks_intro]: "(\<And>c. asks P (k c)) \<Longrightarrow> asks P (with_config api k)"
  by (auto simp: with_config_def asks_panic split: sum.splits)

lemma keeps_with_config [keeps_intro]: "(\<And>c. keeps I (k c)) \<Longrightarrow> keeps I (with_config api k)"
  by (auto simp: with_config_def keeps_panic split: sum.splits)

lemma asks_UnstructuredToResource [asks_intro]: "asks P (UnstructuredToResource obj)"
  by (auto simp: UnstructuredToResource_def asks_panic asks_fail asks_ret split: option.splits sum.splits)

lemma keeps_UnstructuredToResource [keeps_intro]: "keeps I (UnstructuredToResource obj)"
  by (auto simp: UnstructuredToResource_def keeps_panic keeps_fail keeps_ret split: option.splits sum.splits)

text \<open>The namespace the resolver's slices are listed in.\<close>

definition resolver_scope :: "('w, 'x) api_scheme \<Rightarrow> resolver_config \<Rightarrow> string option" where
  "resolver_scope api c = (if GetWatchNamespaces (a_getenv api) = [] then None else Some (Namespace c))"

lemma getIPsForResolver_run:
  assumes "getIPsForResolver api s = (r, s')"
  shows "writes s' = writes s \<and> (\<forall>ips. r = Ok ips \<longrightarrow>
    (\<exists>c slices. GetResolverConfig (a_getenv api) = Inr c \<and> ips \<noteq> [] \<and> ips = slice_addresses slices \<and>
       fst (a_listSlices api (ServiceName c) (resolver_scope api c) (world s)) = Inr slices))"
proof (cases "GetResolverConfig (a_getenv api)")
  case (Inl p)
  then show ?thesis using assms by (auto simp: getIPsForResolver_def with_config_def)
next
  case (Inr c)
  have list: "getIPsForResolver api = attempt (api_read (a_listSlices api (ServiceName c) (resolver_scope api c)))
      ''getIPsForResolver'' (\<lambda>sl. if slice_addresses sl = [] then fail ErrNoResolverPodFound else ret (slice_addresses sl))"
    using Inr by (simp add: getIPsForResolver_def with_config_def resolver_scope_def Let_def)
  obtain x w where x: "a_listSlices api (ServiceName c) (resolver_scope api c) (world s) = (x, w)" by fastforce
  then have "api_read (a_listSlices api (ServiceName c) (resolver_scope api c)) s = (lift_sum x, s\<lparr>world := w\<rparr>)"
    by (simp add: api_read_def)
  then show ?thesis using assms x Inr unfolding list by (cases x) (auto split: if_splits)
qed

lemma api_read_run: "\<exists>w. api_read f s = (lift_sum (fst (f (world s))), s\<lparr>world := w\<rparr>)"
  by (cases "f (world s)") (auto simp: api_read_def)

text \<open>What a run that had the addresses \<open>l\<close> of the resolver must have done.\<close>

definition slice_written ::
  "('w, 'x) api_scheme \<Rightarrow> service \<Rightarrow> string list \<Rightarrow> (kube_write \<times> bool) list \<Rightarrow> (kube_write \<times> bool) list \<Rightarrow> bool" where
  "slice_written api svc l before after \<longleftrightarrow>
     (\<exists>c sl. GetResolverConfig (a_getenv api) = Inr c \<and>
        (after = before @ [(CreateSlice sl, True)] \<or> after = before @ [(UpdateSlice sl, True)]) \<and>
        slice_key sl = \<lparr>nn_namespace = svc_Namespace svc, nn_name = GetEndpointSliceToResolverName (svc_Name svc)\<rparr> \<and>
        eps_Labels sl = [(''kubernetes.io/service-name'', svc_Name svc)] \<and>
        map epp_Port (eps_Ports sl) = [ReverseProxyPort c] \<and>
        map ep_Addresses (eps_Endpoints sl) = map (\<lambda>ip. [ip]) l)"

lemma put_slice_run:
  assumes run: "put_slice api svc l request s = (r, s')" and req: "request = CreateSlice \<or> request = UpdateSlice"
  shows "case r of
      Ok _ \<Rightarrow> slice_written api svc l (writes s) (writes s')
    | Err _ \<Rightarrow> \<exists>w. writes s' = writes s @ [(w, False)]
    | Panic _ \<Rightarrow> writes s' = writes s"
proof (cases "svc_Ports svc")
  case Nil
  then show ?thesis using run by (auto simp: put_slice_def)
next
  case (Cons p ps)
  show ?thesis
  proof (cases "GetResolverConfig (a_getenv api)")
    case (Inl m)
    then show ?thesis using run Cons by (auto simp: put_slice_def with_config_def)
  next
    case (Inr c)
    let ?sl = "slice_to_resolver svc p c l"
    show ?thesis
    proof (cases rule: api_write_cases [of api "request ?sl" s])
      case (accepted w)
      then have "r = Ok ()" "writes s' = writes s @ [(request ?sl, True)]"
        using run Cons Inr by (auto simp: put_slice_def with_config_def)
      then show ?thesis using req Inr
        by (auto simp: slice_written_def slice_to_resolver_def slice_key_def comp_def)
    next
      case (rejected e w)
      then show ?thesis using run Cons Inr by (auto simp: put_slice_def with_config_def)
    qed
  qed
qed

text \<open>
  C13: switching a service to the resolver is one request or none. If it succeeds, the slice that was
  created or updated has the derived name in the namespace of the service, is labelled with the
  service, has the port of the reverse proxy, and has exactly the addresses that the resolver's own
  slices have, one per endpoint and at least one. If it fails, the API server accepted nothing, and
  if it panics nothing was requested.
\<close>

theorem resolver_slice_routes:
  assumes run: "createOrUpdateEndpointsliceToResolver api svc s = (r, s')"
  shows "case r of
      Ok _ \<Rightarrow> \<exists>c slices. GetResolverConfig (a_getenv api) = Inr c \<and>
        fst (a_listSlices api (ServiceName c) (resolver_scope api c) (world s)) = Inr slices \<and>
        slice_addresses slices \<noteq> [] \<and> slice_written api svc (slice_addresses slices) (writes s) (writes s')
    | Err _ \<Rightarrow> writes s' = writes s \<or> (\<exists>w. writes s' = writes s @ [(w, False)])
    | Panic _ \<Rightarrow> writes s' = writes s"
proof -
  let ?key = "\<lparr>nn_namespace = svc_Namespace svc, nn_name = GetEndpointSliceToResolverName (svc_Name svc)\<rparr>"
  obtain x s1 where x: "getIPsForResolver api s = (x, s1)" by fastforce
  note ips = getIPsForResolver_run [OF x]
  show ?thesis
  proof (cases x)
    case (Ok l)
    obtain w where get: "api_read (a_getSlice api ?key) s1 = (lift_sum (fst (a_getSlice api ?key (world s1))), s1\<lparr>world := w\<rparr>)"
      using api_read_run [of "a_getSlice api ?key" s1] by blast
    have put: ?thesis if "put_slice api svc l request (s1\<lparr>world := w\<rparr>) = (r, s')" "request = CreateSlice \<or> request = UpdateSlice"
      for request
      using put_slice_run [OF that] ips Ok by (cases r) fastforce+
    have eq: "(case fst (a_getSlice api ?key (world s1)) of
        Inl e \<Rightarrow> if IsNotFound e then put_slice api svc l CreateSlice (s1\<lparr>world := w\<rparr>)
                 else (Err (EWrap ''createOrUpdateEndpointsliceToResolver'' e), s1\<lparr>world := w\<rparr>)
      | Inr _ \<Rightarrow> put_slice api svc l UpdateSlice (s1\<lparr>world := w\<rparr>)) = (r, s')"
      using run x Ok get by (cases "fst (a_getSlice api ?key (world s1))")
        (simp_all add: createOrUpdateEndpointsliceToResolver_def split: if_splits)
    then consider request where "put_slice api svc l request (s1\<lparr>world := w\<rparr>) = (r, s')" "request = CreateSlice \<or> request = UpdateSlice"
      | e where "r = Err e" "s' = s1\<lparr>world := w\<rparr>"
      by (auto split: sum.splits if_splits)
    then show ?thesis using put ips by cases auto
  qed (use x ips run in \<open>auto simp: createOrUpdateEndpointsliceToResolver_def\<close>)
qed

definition resolver_env :: env where
  "resolver_env = (\<lambda>_. [])(''ELASTI_RESOLVER_NAMESPACE'' := ''elasti'', ''ELASTI_RESOLVER_DEPLOYMENT_NAME'' := ''elasti-resolver'',
     ''ELASTI_RESOLVER_SERVICE_NAME'' := ''elasti-resolver-service'', ''ELASTI_RESOLVER_PORT'' := ''8013'',
     ''ELASTI_RESOLVER_PROXY_PORT'' := ''8012'')"

definition resolver_api :: "unit api" where
  "resolver_api = (constant_api numeric_response)\<lparr>a_getenv := resolver_env,
     a_listSlices := (\<lambda>_ _ w. (Inr [\<lparr>eps_Name = ''r'', eps_Namespace = ''elasti'', eps_Labels = [], eps_AddressType = ''IPv4'',
        eps_Ports = [], eps_Endpoints = [\<lparr>ep_Addresses = [''10.0.0.7''], ep_Ready = None\<rparr>]\<rparr>], w)),
     a_controllerReference := (\<lambda>es _. Inr \<lparr>or_Kind = ''ElastiService'', or_Name = es_Name es, or_Controller = True\<rparr>)\<rparr>"

definition web_service :: service where
  "web_service =
     \<lparr>svc_Name = ''web'', svc_Namespace = ''shop'', svc_Labels = [], svc_ResourceVersion = ''7'', svc_OwnerReferences = [],
      svc_Type = ''NodePort'', svc_Selector = [(''app'', ''web'')],
      svc_Ports = [\<lparr>sp_Name = ''http'', sp_Protocol = ''TCP'', sp_Port = 80, sp_TargetPort = ''8080'', sp_NodePort = 30080\<rparr>],
      svc_ClusterIP = ''10.1.1.1'', svc_ClusterIPs = [''10.1.1.1'']\<rparr>"

lemma resolver_api_config:
  "GetResolverConfig (a_getenv resolver_api) =
     Inr \<lparr>Namespace = ''elasti'', DeploymentName = ''elasti-resolver'', ServiceName = ''elasti-resolver-service'',
          Port = 8013, ReverseProxyPort = 8012\<rparr>"
  by code_simp

lemma resolver_api_fields:
  "a_listSlices resolver_api n x w = (Inr [\<lparr>eps_Name = ''r'', eps_Namespace = ''elasti'', eps_Labels = [],
     eps_AddressType = ''IPv4'', eps_Ports = [], eps_Endpoints = [\<lparr>ep_Addresses = [''10.0.0.7''], ep_Ready = None\<rparr>]\<rparr>], w)"
  "a_getSlice resolver_api k w = (Inl (EStatus NotFound), w)"
  "a_getService resolver_api k w = (Inl (EStatus NotFound), w)"
  "a_write resolver_api wr w = (Inr (), w)"
  by (simp_all add: resolver_api_def constant_api_def)

lemma resolver_api_run:
  "\<exists>sl. createOrUpdateEndpointsliceToResolver resolver_api web_service s =
     (Ok (), s\<lparr>world := (), writes := writes s @ [(CreateSlice sl, True)]\<rparr>)"
  using resolver_api_config
  by (fastforce simp add: createOrUpdateEndpointsliceToResolver_def getIPsForResolver_def put_slice_def with_config_def Let_def
      attempt_def handle_run api_read_def api_write_def slice_addresses_def web_service_def resolver_api_fields)

theorem resolver_slice_routes_witness:
  "\<exists>sl. map fst (writes (snd (createOrUpdateEndpointsliceToResolver resolver_api web_service start_st))) = [CreateSlice sl] \<and>
     map ep_Addresses (eps_Endpoints sl) = [[''10.0.0.7'']]"
proof -
  obtain sl where run: "createOrUpdateEndpointsliceToResolver resolver_api web_service start_st =
      (Ok (), start_st\<lparr>writes := [(CreateSlice sl, True)]\<rparr>)"
    using resolver_api_run [of start_st] by (auto simp: start_st_def)
  show ?thesis using resolver_slice_routes [OF run] run
    by (auto simp: slice_written_def start_st_def resolver_api_fields slice_addresses_def)
qed

text \<open>The API server returns the object that was asked for.\<close>

definition gets_named :: "('w, 'x) api_scheme \<Rightarrow> bool" where
  "gets_named api \<longleftrightarrow>
     (\<forall>n w svc. fst (a_getService api n w) = Inr svc \<longrightarrow> svc_key svc = n) \<and>
     (\<forall>n w sl. fst (a_getSlice api n w) = Inr sl \<longrightarrow> slice_key sl = n) \<and>
     (\<forall>n w es. fst (a_getES api n w) = Inr es \<longrightarrow> es_key es = n)"

lemma gets_namedD:
  assumes "gets_named api"
  shows "fst (a_getService api n w) = Inr svc \<Longrightarrow> svc_key svc = n"
    and "fst (a_getSlice api n w) = Inr sl \<Longrightarrow> slice_key sl = n"
    and "fst (a_getES api n w) = Inr es \<Longrightarrow> es_key es = n"
  using assms unfolding gets_named_def by blast+

lemma asks_handle_read:
  assumes "\<And>e. asks P (onerr e)" and "\<And>w a. fst (f w) = Inr a \<Longrightarrow> asks P (k a)"
  shows "asks P (handle (api_read f) onerr k)"
proof (rule asks_handle_post [OF asks_read assms(1)])
  fix s a s' assume "api_read f s = (Ok a, s')"
  then have "fst (f (world s)) = Inr a" by (cases "f (world s)"; cases "fst (f (world s))") (auto simp: api_read_def)
  then show "asks P (k a)" by (rule assms(2))
qed

text \<open>The private service selects the pods of the public service on the same ports, without node ports.\<close>

definition mirrors :: "service \<Rightarrow> service \<Rightarrow> bool" where
  "mirrors pub pvt \<longleftrightarrow> svc_key pvt = \<lparr>nn_namespace = svc_Namespace pub, nn_name = GetPrivateServiceName (svc_Name pub)\<rparr> \<and>
     svc_Selector pvt = svc_Selector pub \<and> svc_Ports pvt = map (\<lambda>p. p\<lparr>sp_NodePort := 0\<rparr>) (svc_Ports pub)"

text \<open>
  C14: what the operator creates for a public service and what it updates after a change of it is the
  private service of that service: the derived name in the same namespace, the selector and the
  ports of the public service, no node ports. A created one has no cluster IP, no resource version
  and no owner but the ElastiService.
\<close>

theorem private_service_mirrors:
  assumes "gets_named api"
  shows "asks (\<lambda>w. \<exists>pvt ref. w = CreateService pvt \<and> mirrors pub pvt \<and> svc_ClusterIP pvt = [] \<and> svc_ClusterIPs pvt = [] \<and>
      svc_ResourceVersion pvt = [] \<and> svc_OwnerReferences pvt = [ref] \<and>
      a_controllerReference api es (private_copy pub) = Inr ref) (checkAndCreatePrivateService api pub es) \<and>
    asks (\<lambda>w. \<exists>pvt. w = UpdateService pvt \<and> mirrors pub pvt) (handlePublicServiceChanges api (Some (Inr pub)) name)"
    (is "asks ?C ?create \<and> asks ?U ?change")
proof
  show "asks ?C ?create"
    unfolding checkAndCreatePrivateService_def Let_def
    by (intro asks_handle asks_read asks_attempt_pure asks_attempt asks_write asks_ret)
      (simp add: mirrors_def private_copy_def svc_key_def no_node_ports_def)
  let ?key = "\<lparr>nn_namespace = svc_Namespace pub, nn_name = GetPrivateServiceName (svc_Name pub)\<rparr>"
  have "?U (UpdateService (pvt\<lparr>svc_Selector := svc_Selector pub, svc_Ports := no_node_ports (svc_Ports pub)\<rparr>))"
    if "fst (a_getService api ?key w) = Inr pvt" for w pvt
    using gets_namedD(1) [OF assms that] by (simp add: mirrors_def svc_key_def no_node_ports_def)
  then show "asks ?U ?change"
    unfolding handlePublicServiceChanges_def UnstructuredToResource_def option.case sum.case attempt_ret
    by (intro asks_attempt asks_if asks_handle_read asks_write asks_ret asks_fail)
qed

definition private_api :: "unit api" where
  "private_api = resolver_api\<lparr>a_getService := (\<lambda>n w. (Inr (web_service\<lparr>svc_Name := nn_name n, svc_Namespace := nn_namespace n\<rparr>), w))\<rparr>"

theorem private_service_mirrors_witness:
  "asks (\<lambda>w. \<exists>pvt. w = UpdateService pvt \<and> mirrors web_service pvt)
     (handlePublicServiceChanges private_api (Some (Inr web_service)) ''web'' :: (unit scaler_st, unit) prog)"
proof -
  have "gets_named private_api"
    by (auto simp: gets_named_def private_api_def resolver_api_def constant_api_def svc_key_def)
  then show ?thesis using private_service_mirrors by blast
qed

end
