(* ===== verification/Controller.thy ===== *)
theory Controller
  imports Proxy_Objects
begin

text \<open>
  The ElastiService controller (\<^verbatim>\<open>src/operator/internal/controller\<close>): the two modes of a
  service, the status and finalizer of an ElastiService, the watches, the event handlers and
  \<^verbatim>\<open>Reconcile\<close>. A program works on the state of the operator; the order in which a
  \<^verbatim>\<open>sync.Map\<close> is ranged over and the order in which the four goroutines of the finalizer run
  are arguments. The mutexes around \<^verbatim>\<open>Reconcile\<close> and \<^verbatim>\<open>switchMode\<close> make their
  bodies sequential for one ElastiService.
\<close>

section \<open>The ElastiService object (\<^verbatim>\<open>opsCRD.go\<close>)\<close>

definition getCRD :: "('w, 'x) api_scheme \<Rightarrow> nsname \<Rightarrow> (('w, 'z) st_scheme, elasti_service) prog" where
  "getCRD api crd = attempt (api_read (a_getES api crd)) ''failed to get ElastiService'' ret"

definition updateCRDStatus :: "('w, 'x) api_scheme \<Rightarrow> nsname \<Rightarrow> string \<Rightarrow> (('w, 'z) st_scheme, unit) prog" where
  "updateCRDStatus api crd mode =
     handle (api_read (a_getES api crd)) (\<lambda>_. fail (EMsg ''failed to get elastiService for status update'')) (\<lambda>es.
     handle (time_now api) fail (\<lambda>now.
     handle (api_write api (PatchESStatus (es_key es) (Status es) ((Status es)\<lparr>LastReconciledTime := now, Mode := mode\<rparr>)))
       (\<lambda>_. fail (EMsg ''failed to patch CRD status'')) (\<lambda>_. ret ())))"

definition ContainsFinalizer :: "elasti_service \<Rightarrow> bool" where
  "ContainsFinalizer es \<longleftrightarrow> ElastiServiceFinalizer \<in> set (es_Finalizers es)"

text \<open>The object is changed in place; the caller goes on with it.\<close>

definition addCRDFinalizer :: "('w, 'x) api_scheme \<Rightarrow> elasti_service \<Rightarrow> (('w, 'z) st_scheme, elasti_service) prog" where
  "addCRDFinalizer api es =
     (if \<not> ContainsFinalizer es
      then let es' = es\<lparr>es_Finalizers := es_Finalizers es @ [ElastiServiceFinalizer]\<rparr>
           in attempt (api_write api (UpdateES es')) ''failed to add finalizer'' (\<lambda>_. ret es')
      else ret es)"

section \<open>Watches (\<^verbatim>\<open>opsCRD.go\<close>)\<close>

definition lookup_crd :: "string \<Rightarrow> (('w, 'z) op_st_scheme, crd_details option) prog" where
  "lookup_crd serviceName = (\<lambda>s. (GetCRD serviceName (directory s), s))"

definition change_directory :: "(directory \<Rightarrow> directory outcome) \<Rightarrow> (('w, 'z) op_st_scheme, unit) prog" where
  "change_directory f = (\<lambda>s.
     case f (directory s) of
       Ok d \<Rightarrow> (Ok (), s\<lparr>directory := d\<rparr>)
     | Err e \<Rightarrow> (Err e, s)
     | Panic p \<Rightarrow> (Panic p, s))"

text \<open>\<^verbatim>\<open>Do\<close> on the start lock, and the reset of the lock after a failure.\<close>

definition start_watch :: "string \<Rightarrow> (('w, 'z) op_st_scheme, unit) prog \<Rightarrow> (('w, 'z) op_st_scheme, unit) prog" where
  "start_watch key start =
     handle (once_do key start) fail (\<lambda>informerErr.
       case informerErr of
         None \<Rightarrow> ret ()
       | Some err \<Rightarrow> handle (resetMutexForInformer key) fail (\<lambda>_. fail err))"

definition target_watch :: "elasti_service \<Rightarrow> nsname \<Rightarrow> string \<times> string \<Rightarrow> request_watch" where
  "target_watch es req gv =
     \<lparr>rw_Req = req, rw_ResourceName = tr_Name (ScaleTargetRef (Spec es)), rw_ResourceNamespace = nn_namespace req,
      rw_GVR = \<lparr>gvr_group = fst gv, gvr_version = snd gv, gvr_resource = KindToResource (tr_Kind (ScaleTargetRef (Spec es)))\<rparr>,
      rw_Handlers = ScaleTargetRefChangeHandler es req\<rparr>"

definition stop_old_target :: "elasti_service \<Rightarrow> nsname \<Rightarrow> crd_details option \<Rightarrow> (('w, 'z) op_st_scheme, unit) prog" where
  "stop_old_target es req found =
     (case found of
        None \<Rightarrow> ret ()
      | Some crd \<Rightarrow>
          (let ref = ScaleTargetRef (Spec es); old = ScaleTargetRef (cd_Spec crd)
           in if tr_Name ref \<noteq> tr_Name old \<or> tr_Kind ref \<noteq> tr_Kind old \<or> tr_APIVersion ref \<noteq> tr_APIVersion old
              then ignoring
                     (StopInformer (GetKey \<lparr>kp_Namespace = nn_namespace req, kp_CRDName = nn_name req,
                        kp_ResourceType = KindToResource (tr_Kind old), kp_ResourceName = tr_Name old\<rparr>))
                     (resetMutexForInformer (getMutexKeyForTargetRef req))
              else ret ()))"

definition watchScaleTargetRef ::
  "('w, 'x) api_scheme \<Rightarrow> elasti_service \<Rightarrow> nsname \<Rightarrow> (('w, 'z) op_st_scheme, unit) prog" where
  "watchScaleTargetRef api es req =
     (let ref = ScaleTargetRef (Spec es)
      in if tr_Name ref = [] \<or> tr_Kind ref = [] \<or> tr_APIVersion ref = []
         then fail (EWrap ''scaleTargetRef is incomplete'' (EMsg ''no scale target found''))
         else
           handle (lookup_crd (nn_string (service_key es))) fail (\<lambda>found.
           handle (stop_old_target es req found) fail (\<lambda>_.
           start_watch (getMutexKeyForTargetRef req)
             (attempt (pure_call (a_ParseGroupVersion api (tr_APIVersion ref))) ''failed to parse API version'' (\<lambda>gv.
              attempt (Add api (target_watch es req gv)) ''failed to add scaledTargetRef Informer'' (\<lambda>_. ret ()))))))"

definition watchPublicService ::
  "('w, 'x) api_scheme \<Rightarrow> elasti_service \<Rightarrow> nsname \<Rightarrow> (('w, 'z) op_st_scheme, unit) prog" where
  "watchPublicService api es req =
     (if Service (Spec es) = []
      then fail (EWrap ''null value for public service'' (EMsg ''no public service found''))
      else
        start_watch (getMutexKeyForPublicSVC req)
          (with_config api (\<lambda>_.
             attempt (Add api \<lparr>rw_Req = req, rw_ResourceName = Service (Spec es), rw_ResourceNamespace = es_Namespace es,
                 rw_GVR = ServiceGVR, rw_Handlers = PublicServiceChangeHandler es req\<rparr>)
               ''failed to add public service Informer'' (\<lambda>_. ret ()))))"

section \<open>Modes (\<^verbatim>\<open>opsModes.go\<close>)\<close>

definition enableProxyMode ::
  "('w, 'x) api_scheme \<Rightarrow> nsname \<Rightarrow> elasti_service \<Rightarrow> (('w, 'z) op_st_scheme, unit) prog" where
  "enableProxyMode api req es =
     attempt (api_read (a_getService api (service_key es))) ''failed to get target service'' (\<lambda>targetSVC.
     attempt (checkAndCreatePrivateService api targetSVC es) ''failed to check and create private service'' (\<lambda>_.
     attempt (createOrUpdateEndpointsliceToResolver api targetSVC) ''failed to create or update endpointslice to resolver'' (\<lambda>_.
     attempt (watchPublicService api es req) ''failed to add watch on public service'' (\<lambda>_. ret ()))))"

definition enableServeMode :: "('w, 'x) api_scheme \<Rightarrow> elasti_service \<Rightarrow> (('w, 'z) op_st_scheme, unit) prog" where
  "enableServeMode api es =
     attempt (deleteEndpointsliceToResolver api (service_key es)) ''failed to delete endpointslice to resolver'' (\<lambda>_. ret ())"

definition switchMode :: "('w, 'x) api_scheme \<Rightarrow> nsname \<Rightarrow> string \<Rightarrow> (('w, 'z) op_st_scheme, unit) prog" where
  "switchMode api req mode =
     attempt (getCRD api req) ''failed to get CRD'' (\<lambda>es.
       deferred (updateCRDStatus api req mode)
         (if mode = ServeMode then enableServeMode api es
          else if mode = ProxyMode then enableProxyMode api req es
          else ret ()))"

section \<open>Readiness of the target (\<^verbatim>\<open>opsInformer.go\<close>)\<close>

record updateObjInfo =
  uo_specReplicas :: int
  uo_statusReplicas :: int
  uo_selector :: "string option"
  uo_namespace :: string
  uo_name :: string

text \<open>An object that is not unstructured is \<open>None\<close>; here the assertion is checked.\<close>

definition getUpdateObjInfo :: "unstructured option \<Rightarrow> nsname \<Rightarrow> go_error + updateObjInfo" where
  "getUpdateObjInfo obj req =
     (case obj of
        None \<Rightarrow> Inl (EMsg ''failed to convert ScaleTargetRef to unstructured'')
      | Some objInfo \<Rightarrow>
          (let scaleObj = \<lparr>uo_specReplicas = 0, uo_statusReplicas = 0, uo_selector = None,
                 uo_namespace = nn_namespace req, uo_name = nn_name req\<rparr>
           in case un_SpecReplicas objInfo of
                BadType \<Rightarrow> Inl (EMsg ''failed to get replicas from spec'')
              | Absent \<Rightarrow> Inr scaleObj
              | Present specReplicas \<Rightarrow>
                  (let scaleObj = scaleObj\<lparr>uo_specReplicas := specReplicas\<rparr>
                   in case un_StatusReplicas objInfo of
                        BadType \<Rightarrow> Inl (EMsg ''failed to get replicas from spec'')
                      | Absent \<Rightarrow> Inr scaleObj
                      | Present statusReplicas \<Rightarrow>
                          (let scaleObj = scaleObj\<lparr>uo_statusReplicas := statusReplicas\<rparr>
                           in case un_Selector objInfo of
                                BadType \<Rightarrow> Inl (EMsg ''failed to get selector from spec'')
                              | Absent \<Rightarrow> Inr scaleObj
                              | Present selector \<Rightarrow> Inr (scaleObj\<lparr>uo_selector := Some selector\<rparr>)))))"

fun ready_condition :: "(string \<times> string) list \<Rightarrow> bool" where
  "ready_condition [] = False"
| "ready_condition ((type, status) # conditions) =
     (if type = ''Ready'' \<and> status = ''True'' then True else ready_condition conditions)"

fun any_pod_ready :: "pod list \<Rightarrow> bool" where
  "any_pod_ready [] = False"
| "any_pod_ready (p # pods) =
     (if pod_DeletionTimestamp p \<noteq> None then any_pod_ready pods
      else if ready_condition (pod_Conditions p) then True
      else any_pod_ready pods)"

definition isTargetReady :: "('w, 'x) api_scheme \<Rightarrow> updateObjInfo \<Rightarrow> (('w, 'z) st_scheme, bool) prog" where
  "isTargetReady api obj =
     (if uo_specReplicas obj \<le> 0 \<or> uo_statusReplicas obj \<le> 0 then ret False
      else case uo_selector obj of
        None \<Rightarrow> ret False
      | Some sel \<Rightarrow>
          attempt (pure_call (a_toLabelSelector api sel)) ''failed to convert selector map to LabelSelector'' (\<lambda>labelSelector.
          attempt (pure_call (a_asSelector api labelSelector)) ''failed to convert label selector to selector'' (\<lambda>selector.
          attempt (api_read (a_listPods api (uo_namespace obj) selector)) ''failed to list pods for label selector'' (\<lambda>pods.
            ret (any_pod_ready pods)))))"

definition handleScaleTargetRefChanges ::
  "('w, 'x) api_scheme \<Rightarrow> nsname \<Rightarrow> unstructured option \<Rightarrow> (('w, 'z) op_st_scheme, unit) prog" where
  "handleScaleTargetRefChanges api req obj =
     attempt (pure_call (getUpdateObjInfo obj req)) ''failed to get scale for target resource'' (\<lambda>updatedObj.
     attempt (isTargetReady api updatedObj) ''failed to get target ready status'' (\<lambda>ready.
       if \<not> ready then attempt (switchMode api req ProxyMode) ''failed to switch to proxy mode'' (\<lambda>_. ret ())
       else attempt (switchMode api req ServeMode) ''failed to switch to serve mode'' (\<lambda>_. ret ())))"

section \<open>Changes of the resolver (\<^verbatim>\<open>opsDeployment.go\<close>)\<close>

fun update_slices :: "('w, 'x) api_scheme \<Rightarrow> string list \<Rightarrow> (('w, 'z) op_st_scheme, unit) prog" where
  "update_slices api [] = ret ()"
| "update_slices api (key # keys) = (\<lambda>s.
     (case directory s of
        None \<Rightarrow> panic ''invalid memory address or nil pointer dereference''
      | Some services \<Rightarrow>
          (case Load services key of
             None \<Rightarrow> update_slices api keys
           | Some crd \<Rightarrow>
               if Mode (cd_Status crd) \<noteq> ProxyMode then update_slices api keys
               else case Split (CHR ''/'') key of
                 [ns, name] \<Rightarrow>
                   handle (api_read (a_getService api \<lparr>nn_namespace = ns, nn_name = name\<rparr>))
                     (\<lambda>_. update_slices api keys)
                     (\<lambda>targetService. ignoring (createOrUpdateEndpointsliceToResolver api targetService) (update_slices api keys))
               | _ \<Rightarrow> update_slices api keys)) s)"

text \<open>The deployment is known by its name; \<open>keys\<close> is the order of the range.\<close>

definition handleResolverChanges ::
  "('w, 'x) api_scheme \<Rightarrow> string list \<Rightarrow> string watched \<Rightarrow> (('w, 'z) op_st_scheme, unit) prog" where
  "handleResolverChanges api keys obj =
     attempt (UnstructuredToResource obj) ''failed to convert unstructured to deployment'' (\<lambda>name.
     with_config api (\<lambda>c.
       if name \<noteq> DeploymentName c then ret ()
       else (\<lambda>s. if directory s = None then panic ''invalid memory address or nil pointer dereference'' s
                 else update_slices api keys s)))"

section \<open>Event handlers (\<^verbatim>\<open>opsInformer.go\<close>)\<close>

datatype 'o event = EvAdd 'o | EvUpdate 'o | EvDelete

definition getResolverChangeHandler ::
  "('w, 'x) api_scheme \<Rightarrow> string list \<Rightarrow> string watched event \<Rightarrow> (('w, 'z) op_st_scheme, unit) prog" where
  "getResolverChangeHandler api keys ev =
     (case ev of
        EvAdd obj \<Rightarrow> ignoring (handleResolverChanges api keys obj) (ret ())
      | EvUpdate obj \<Rightarrow> ignoring (handleResolverChanges api keys obj) (ret ())
      | EvDelete \<Rightarrow> with_config api (\<lambda>_. ret ()))"

definition getPublicServiceChangeHandler ::
  "('w, 'x) api_scheme \<Rightarrow> elasti_service \<Rightarrow> service watched event \<Rightarrow> (('w, 'z) op_st_scheme, unit) prog" where
  "getPublicServiceChangeHandler api es ev =
     (case ev of
        EvAdd obj \<Rightarrow> ignoring (handlePublicServiceChanges api obj (Service (Spec es))) (ret ())
      | EvUpdate obj \<Rightarrow> ignoring (handlePublicServiceChanges api obj (Service (Spec es))) (ret ())
      | EvDelete \<Rightarrow> ret ())"

definition getScaleTargetRefChangeHandler ::
  "('w, 'x) api_scheme \<Rightarrow> nsname \<Rightarrow> unstructured option event \<Rightarrow> (('w, 'z) op_st_scheme, unit) prog" where
  "getScaleTargetRefChangeHandler api req ev =
     (case ev of
        EvUpdate obj \<Rightarrow> ignoring (handleScaleTargetRefChanges api req obj) (ret ())
      | _ \<Rightarrow> ret ())"

section \<open>Finalizer (\<^verbatim>\<open>opsCRD.go\<close>)\<close>

datatype cleanup = StopInformers | DeleteEndpointslice | DeletePrivateService | UnpauseKeda

text \<open>The body of a goroutine of \<^verbatim>\<open>finalizeCRD\<close>, with the error it leaves in its variable.\<close>

definition error_of :: "('s, unit) prog \<Rightarrow> ('s, go_error option) prog" where
  "error_of m = handle m (\<lambda>e. ret (Some e)) (\<lambda>_. ret None)"

definition unless_not_found :: "go_error option \<Rightarrow> go_error option" where
  "unless_not_found err = (case err of Some e \<Rightarrow> if IsNotFound e then None else Some e | None \<Rightarrow> None)"

fun run_cleanup ::
  "('w, 'x) api_scheme \<Rightarrow> string list \<Rightarrow> elasti_service \<Rightarrow> nsname \<Rightarrow> cleanup \<Rightarrow> (('w, 'z) op_st_scheme, go_error option) prog" where
  "run_cleanup api keys es req StopInformers =
     handle (StopForCRD keys (nn_name req) (nn_namespace req)) fail (\<lambda>_.
     handle (resetMutexForInformer (getMutexKeyForTargetRef req)) fail (\<lambda>_.
     handle (resetMutexForInformer (getMutexKeyForPublicSVC req)) fail (\<lambda>_. ret None)))"
| "run_cleanup api keys es req DeleteEndpointslice = error_of (deleteEndpointsliceToResolver api (service_key es))"
| "run_cleanup api keys es req DeletePrivateService = error_of (deletePrivateService api (service_key es))"
| "run_cleanup api keys es req UnpauseKeda =
     (case Autoscaler (Spec es) of
        None \<Rightarrow> ret None
      | Some a \<Rightarrow>
          if \<not> EqualFold (as_Type a) ''keda'' then ret None
          else handle (error_of (UpdateKedaScaledObjectPausedState api (as_Name a) (es_Namespace es) False)) fail (\<lambda>err3.
                 ret (unless_not_found err3)))"

fun run_cleanups ::
  "('w, 'x) api_scheme \<Rightarrow> string list \<Rightarrow> elasti_service \<Rightarrow> nsname \<Rightarrow> cleanup list \<Rightarrow>
   (('w, 'z) op_st_scheme, (cleanup \<times> go_error option) list) prog" where
  "run_cleanups api keys es req [] = ret []"
| "run_cleanups api keys es req (task # tasks) =
     handle (run_cleanup api keys es req task) fail (\<lambda>err.
     handle (run_cleanups api keys es req tasks) fail (\<lambda>errs. ret ((task, err) # errs)))"

text \<open>\<^verbatim>\<open>err1\<close> to \<^verbatim>\<open>err4\<close>, those that are not nil.\<close>

definition finalize_errors :: "(cleanup \<times> go_error option) list \<Rightarrow> go_error option \<Rightarrow> go_error list" where
  "finalize_errors results err4 =
     List.map_filter id [Option.bind (map_of results DeleteEndpointslice) id,
       Option.bind (map_of results DeletePrivateService) id, Option.bind (map_of results UnpauseKeda) id, err4]"

text \<open>\<^verbatim>\<open>GetSpec\<close> normalises the kind of the object in place; the caller goes on with it.\<close>

definition finalizeCRD ::
  "('w, 'x) api_scheme \<Rightarrow> string list \<Rightarrow> cleanup list \<Rightarrow> elasti_service \<Rightarrow> nsname \<Rightarrow> (('w, 'z) op_st_scheme, elasti_service) prog" where
  "finalizeCRD api keys order es req =
     handle (run_cleanups api keys es req order) fail (\<lambda>results.
     let (spec, es') = GetSpec es
     in handle (error_of (handle (ScaleToMinReplicas api (es_Namespace es) spec) fail (\<lambda>_. ret ()))) fail (\<lambda>err4.
        handle (change_directory (RemoveCRD (nn_string (service_key es)))) fail (\<lambda>_.
          if finalize_errors results (unless_not_found err4) \<noteq> []
          then fail (EJoin ''failed to finalize CRD'' (finalize_errors results (unless_not_found err4)))
          else ret es')))"

definition finalizeCRDIfDeleted ::
  "('w, 'x) api_scheme \<Rightarrow> string list \<Rightarrow> cleanup list \<Rightarrow> elasti_service \<Rightarrow> nsname \<Rightarrow> (('w, 'z) op_st_scheme, bool) prog" where
  "finalizeCRDIfDeleted api keys order es req =
     (if es_DeletionTimestamp es = None then ret False
      else if ContainsFinalizer es
      then handle (finalizeCRD api keys order es req) fail (\<lambda>es'.
           attempt (api_write api (UpdateES (es'\<lparr>es_Finalizers := removeAll ElastiServiceFinalizer (es_Finalizers es')\<rparr>)))
             ''failed to remove finalizer'' (\<lambda>_. ret True))
      else ret True)"

section \<open>Reconcile (\<^verbatim>\<open>elastiservice_controller.go\<close>)\<close>

definition Reconcile ::
  "('w, 'x) api_scheme \<Rightarrow> string list \<Rightarrow> cleanup list \<Rightarrow> nsname \<Rightarrow> (('w, 'z) op_st_scheme, unit) prog" where
  "Reconcile api keys order req =
     handle (getCRD api req) (\<lambda>esErr. if IsNotFound esErr then ret () else fail esErr) (\<lambda>es.
     handle (finalizeCRDIfDeleted api keys order es req) fail (\<lambda>isDeleted.
       if isDeleted then ret ()
       else
         handle (addCRDFinalizer api es) fail (\<lambda>es.
         handle (watchScaleTargetRef api es req) fail (\<lambda>_.
         change_directory (AddCRD (nn_string (service_key es))
           \<lparr>CRDName = es_Name es, cd_Spec = Spec es, cd_Status = Status es\<rparr>)))))"

text \<open>The event filter of \<^verbatim>\<open>SetupWithManager\<close>; \<open>None\<close> is an object of another type.\<close>

definition SetupWithManager :: "string list \<Rightarrow> elasti_service option \<Rightarrow> bool" where
  "SetupWithManager watchNamespaces obj =
     (case obj of None \<Rightarrow> False | Some es \<Rightarrow> namespaceInScope watchNamespaces (es_Namespace es))"

text \<open>\<open>sched\<close> gives the orders for the reconcile of an item.\<close>

fun reconcile_items ::
  "('w, 'x) api_scheme \<Rightarrow> (nsname \<Rightarrow> string list \<times> cleanup list) \<Rightarrow> string list \<Rightarrow> elasti_service list \<Rightarrow> (('w, 'z) op_st_scheme, unit) prog" where
  "reconcile_items api sched watchNamespaces [] = ret ()"
| "reconcile_items api sched watchNamespaces (es # items) =
     (if \<not> namespaceInScope watchNamespaces (es_Namespace es) then reconcile_items api sched watchNamespaces items
      else if es_DeletionTimestamp es \<noteq> None then reconcile_items api sched watchNamespaces items
      else ignoring (Reconcile api (fst (sched (es_key es))) (snd (sched (es_key es))) (es_key es))
             (reconcile_items api sched watchNamespaces items))"

definition reconcileExistingCRDs ::
  "('w, 'x) api_scheme \<Rightarrow> (nsname \<Rightarrow> string list \<times> cleanup list) \<Rightarrow> string list \<Rightarrow> (('w, 'z) op_st_scheme, unit) prog" where
  "reconcileExistingCRDs api sched watchNamespaces =
     attempt (api_read (a_listES api)) ''failed to list ElastiServices'' (\<lambda>items. reconcile_items api sched watchNamespaces items)"

section \<open>Start of the operator\<close>

record 'w ctl_st = "'w op_st" +
  resolverRunning :: bool        \<comment> \<open>the goroutine of the resolver informer\<close>
  scaleWatcher :: bool           \<comment> \<open>the loop of \<^verbatim>\<open>StartScaleDownWatcher\<close>\<close>

definition deploymentGVR :: gvr where
  "deploymentGVR = \<lparr>gvr_group = ''apps'', gvr_version = ''v1'', gvr_resource = ''deployments''\<rparr>"

definition InitializeResolverInformer :: "('w, 'x) api_scheme \<Rightarrow> (('w, 'z) ctl_st_scheme, unit) prog" where
  "InitializeResolverInformer api =
     with_config api (\<lambda>c.
       attempt (api_read (a_addEventHandler api deploymentGVR (Namespace c) (DeploymentName c))) ''failed to add event handler'' (\<lambda>_.
       handle (\<lambda>s. (Ok (), s\<lparr>resolverRunning := True\<rparr>)) fail (\<lambda>_.
       handle (api_ask (a_waitForSync api deploymentGVR (Namespace c) (DeploymentName c))) fail (\<lambda>synced.
         if \<not> synced
         then handle (\<lambda>s. (Ok (), s\<lparr>resolverRunning := False\<rparr>)) fail (\<lambda>_. fail (EMsg ''failed to sync resolver informer''))
         else ret ()))))"

definition Initialize ::
  "('w, 'x) api_scheme \<Rightarrow> (nsname \<Rightarrow> string list \<times> cleanup list) \<Rightarrow> string list \<Rightarrow> (('w, 'z) ctl_st_scheme, unit) prog" where
  "Initialize api sched watchNamespaces =
     attempt (reconcileExistingCRDs api sched watchNamespaces) ''failed to reconcile existing CRDs'' (\<lambda>_.
     attempt (InitializeResolverInformer api) ''failed to initialize resolver informer'' (\<lambda>_.
       (\<lambda>s. (Ok (), s\<lparr>scaleWatcher := True\<rparr>))))"

section \<open>Rules for programs of the operator\<close>

lemma asks_silent: "(\<And>s. writes (snd (m s)) = writes s) \<Longrightarrow> asks P m"
  by (simp add: asks_def)

text \<open>A program that first looks at the state.\<close>

lemma asks_look: "(\<And>t. asks P (f t)) \<Longrightarrow> asks P (\<lambda>s. f s s)"
  by (simp add: asks_def)

lemma keeps_look: "(\<And>t. keeps I (f t)) \<Longrightarrow> keeps I (\<lambda>s. f s s)"
  by (simp add: keeps_def)

lemma asks_lookup [asks_intro]: "asks P (lookup_crd n)"
  by (rule asks_silent) (simp add: lookup_crd_def)

lemma asks_change_directory [asks_intro]: "asks P (change_directory f)"
  by (rule asks_silent) (simp add: change_directory_def split: outcome.splits)

lemma asks_reset [asks_intro]: "asks P (resetMutexForInformer k)"
  by (rule asks_silent) (simp add: resetMutexForInformer_def)

lemma asks_close [asks_intro]: "asks P (close_and_delete i k)"
  by (rule asks_silent) (simp add: close_and_delete_def)

lemma asks_run_informer [asks_intro]: "asks P (run_informer req)"
  by (rule asks_silent) (simp add: run_informer_def)

lemma asks_StopInformer [asks_intro]: "asks P (StopInformer k)"
  by (rule asks_silent) (simp add: StopInformer_def close_and_delete_def split: option.splits)

lemma asks_verify [asks_intro]: "asks P (verifyTargetExist api req)"
  unfolding verifyTargetExist_def by (intro asks_intro)

lemma asks_enableInformer [asks_intro]: "asks P (enableInformer api req)"
  unfolding enableInformer_def by (intro asks_intro)

lemma Add_look: "Add api req = (\<lambda>s. (case Load (informers s) (getKeyFromRequestWatch req) of
     Some _ \<Rightarrow> ret ()
   | None \<Rightarrow> attempt (verifyTargetExist api req) ''target not found'' (\<lambda>_.
       attempt (enableInformer api req) ''failed to enable to informer'' (\<lambda>_. ret ()))) s)"
  by (auto simp: Add_def fun_eq_iff split: option.splits)

lemma asks_Add [asks_intro]: "asks P (Add api req)"
  unfolding Add_look by (rule asks_look) (intro asks_intro)

lemma stop_keys_look: "stop_keys Q (key # keys) = (\<lambda>s. (case Load (informers s) key of
      None \<Rightarrow> stop_keys Q keys
    | Some info \<Rightarrow> if Q key then ignoring (StopInformer (getKeyFromRequestWatch (inf_Req info))) (stop_keys Q keys)
                   else stop_keys Q keys) s)"
  by (auto simp: fun_eq_iff split: option.splits)

lemma asks_stop_keys [asks_intro]: "asks P (stop_keys Q keys)"
proof (induction keys)
  case (Cons key keys)
  show ?case unfolding stop_keys_look by (rule asks_look) (intro asks_intro Cons.IH)
qed (simp add: asks_def)

lemma asks_once [asks_intro]:
  fixes f :: "(('w, 'z) op_st_scheme, unit) prog"
  assumes "asks P f"
  shows "asks P (once_do key f)"
  unfolding asks_def
proof
  fix s :: "('w, 'z) op_st_scheme"
  obtain isDone y locks where l: "LoadOrStore (startLocks s) key False = ((isDone, y), locks)"
    by (metis prod.exhaust)
  obtain r s2 where r: "f (s\<lparr>startLocks := locks\<rparr>) = (r, s2)" by fastforce
  obtain new where "writes s2 = writes s @ new" "\<forall>(w, ok) \<in> set new. P w"
    using assms [unfolded asks_def, THEN spec, of "s\<lparr>startLocks := locks\<rparr>"] r by auto
  then show "\<exists>new. writes (snd (once_do key f s)) = writes s @ new \<and> (\<forall>(w, ok) \<in> set new. P w)"
    using l r by (cases isDone; cases r) (simp_all add: once_do_def)
qed

lemma asks_start_watch [asks_intro]: "asks P f \<Longrightarrow> asks P (start_watch key f)"
  unfolding start_watch_def by (intro asks_intro)

lemma asks_stop_old [asks_intro]: "asks P (stop_old_target es req found)"
  unfolding stop_old_target_def Let_def by (intro asks_intro)

lemma asks_watchScaleTargetRef [asks_intro]: "asks P (watchScaleTargetRef api es req)"
  unfolding watchScaleTargetRef_def Let_def by (intro asks_intro)

lemma asks_watchPublicService [asks_intro]: "asks P (watchPublicService api es req)"
  unfolding watchPublicService_def by (intro asks_intro)

lemma asks_getCRD [asks_intro]: "asks P (getCRD api n)"
  unfolding getCRD_def by (intro asks_intro)

section \<open>What the modes ask for\<close>

lemma deleteEndpointslice_asks:
  assumes "gets_named api" and "P (DeleteSlice (n\<lparr>nn_name := GetEndpointSliceToResolverName (nn_name n)\<rparr>))"
  shows "asks P (deleteEndpointsliceToResolver api n)"
  unfolding deleteEndpointsliceToResolver_def
  by (intro asks_handle_read asks_if asks_ret asks_fail asks_attempt asks_write)
    (use gets_namedD(2) [OF assms(1)] assms(2) in metis)

lemma deletePrivateService_asks:
  assumes "gets_named api" and "P (DeleteService (n\<lparr>nn_name := GetPrivateServiceName (nn_name n)\<rparr>))"
  shows "asks P (deletePrivateService api n)"
  unfolding deletePrivateService_def
  by (intro asks_handle_read asks_if asks_ret asks_fail asks_attempt asks_write)
    (use gets_namedD(1) [OF assms(1)] assms(2) in metis)

lemma createOrUpdateEndpointslice_asks:
  assumes "\<And>sl. slice_key sl = \<lparr>nn_namespace = svc_Namespace svc, nn_name = GetEndpointSliceToResolverName (svc_Name svc)\<rparr> \<Longrightarrow>
      P (CreateSlice sl) \<and> P (UpdateSlice sl)"
  shows "asks P (createOrUpdateEndpointsliceToResolver api svc)"
proof -
  have "P (CreateSlice (slice_to_resolver svc p c ips))" "P (UpdateSlice (slice_to_resolver svc p c ips))" for p c ips
    using assms by (simp_all add: slice_to_resolver_def slice_key_def)
  then have "asks P (put_slice api svc ips CreateSlice)" "asks P (put_slice api svc ips UpdateSlice)" for ips
    by (auto simp: put_slice_def split: list.splits intro!: asks_intro)
  then show ?thesis
    unfolding createOrUpdateEndpointsliceToResolver_def getIPsForResolver_def Let_def
    by (intro asks_handle asks_with_config asks_attempt asks_read asks_if asks_fail asks_ret)
qed

lemma checkAndCreatePrivateService_asks:
  assumes "\<And>sv. svc_Namespace sv = svc_Namespace pub \<Longrightarrow> P (CreateService sv)"
  shows "asks P (checkAndCreatePrivateService api pub es)"
  unfolding checkAndCreatePrivateService_def Let_def
  by (intro asks_intro assms) (simp add: private_copy_def)

lemma updateCRDStatus_asks:
  assumes "gets_named api" and "\<And>old new. Mode new = mode \<Longrightarrow> P (PatchESStatus crd old new)"
  shows "asks P (updateCRDStatus api crd mode)"
  unfolding updateCRDStatus_def
  by (intro asks_handle_read asks_handle asks_now asks_fail asks_ret asks_write)
    (use gets_namedD(3) [OF assms(1)] assms(2) in fastforce)

definition serve_request :: "nsname \<Rightarrow> kube_write \<Rightarrow> bool" where
  "serve_request req w \<longleftrightarrow>
     (\<exists>n. w = DeleteSlice n \<and> nn_namespace n = nn_namespace req) \<or>
     (\<exists>old new. w = PatchESStatus req old new \<and> Mode new = ServeMode)"

definition proxy_request :: "nsname \<Rightarrow> kube_write \<Rightarrow> bool" where
  "proxy_request req w \<longleftrightarrow>
     (\<exists>sv. w = CreateService sv \<and> svc_Namespace sv = nn_namespace req) \<or>
     (\<exists>sl. (w = CreateSlice sl \<or> w = UpdateSlice sl) \<and> eps_Namespace sl = nn_namespace req) \<or>
     (\<exists>old new. w = PatchESStatus req old new \<and> Mode new = ProxyMode)"

lemma modes_differ: "ServeMode \<noteq> ProxyMode" "ProxyMode \<noteq> ServeMode"
  by (simp_all add: ServeMode_def ProxyMode_def)

lemma getCRD_run:
  "getCRD api n s = (r, s') \<Longrightarrow> \<exists>w. s' = s\<lparr>world := w\<rparr> \<and>
     r = (case fst (a_getES api n (world s)) of Inr es \<Rightarrow> Ok es | Inl e \<Rightarrow> Err (EWrap ''failed to get ElastiService'' e))"
  by (cases "a_getES api n (world s)"; cases "fst (a_getES api n (world s))")
    (auto simp: getCRD_def attempt_def handle_run api_read_def)

lemma getCRD_named: "gets_named api \<Longrightarrow> getCRD api n s = (Ok es, s') \<Longrightarrow> es_key es = n"
  using getCRD_run [of api n s "Ok es" s'] gets_namedD(3) by (fastforce split: sum.splits)

lemma asks_getCRD_bind:
  assumes "gets_named api" and "\<And>es. es_key es = n \<Longrightarrow> asks P (k es)" and "\<And>e. asks P (onerr e)"
  shows "asks P (handle (getCRD api n) onerr k)"
proof (rule asks_handle_post)
  fix s a s' assume "getCRD api n s = (Ok a, s')"
  then show "asks P (k a)" by (rule assms(2) [OF getCRD_named [OF assms(1)]])
qed (rule asks_getCRD assms(3))+

lemma switchMode_serve_asks:
  fixes api :: "('w, 'x) api_scheme"
  assumes "gets_named api"
  shows "asks (serve_request req) (switchMode api req ServeMode :: (('w, 'z) op_st_scheme, unit) prog)"
proof -
  have "asks (serve_request req) (enableServeMode api es :: (('w, 'z) op_st_scheme, unit) prog)" if "es_key es = req" for es
    unfolding enableServeMode_def using that
    by (intro asks_attempt asks_ret deleteEndpointslice_asks assms)
      (auto simp: serve_request_def service_key_def es_key_def)
  moreover have "asks (serve_request req) (updateCRDStatus api req ServeMode :: (('w, 'z) op_st_scheme, unit) prog)"
    by (rule updateCRDStatus_asks [OF assms]) (auto simp: serve_request_def)
  ultimately show ?thesis
    unfolding switchMode_def attempt_def
    by (intro asks_getCRD_bind assms asks_fail) (auto intro: asks_deferred)
qed

lemma switchMode_proxy_asks:
  fixes api :: "('w, 'x) api_scheme"
  assumes "gets_named api"
  shows "asks (proxy_request req) (switchMode api req ProxyMode :: (('w, 'z) op_st_scheme, unit) prog)"
proof -
  have objects: "asks (proxy_request req) (checkAndCreatePrivateService api svc es :: (('w, 'z) op_st_scheme, string) prog)"
      "asks (proxy_request req) (createOrUpdateEndpointsliceToResolver api svc :: (('w, 'z) op_st_scheme, unit) prog)"
    if "svc_Namespace svc = nn_namespace req" for svc es
    by (rule checkAndCreatePrivateService_asks createOrUpdateEndpointslice_asks;
        use that in \<open>auto simp: proxy_request_def slice_key_def\<close>)+
  have "asks (proxy_request req) (enableProxyMode api req es :: (('w, 'z) op_st_scheme, unit) prog)" if "es_key es = req" for es
  proof -
    have "svc_Namespace svc = nn_namespace req" if "fst (a_getService api (service_key es) w) = Inr svc" for svc w
      using gets_namedD(1) [OF assms that] \<open>es_key es = req\<close> by (auto simp: svc_key_def service_key_def es_key_def)
    then show ?thesis
      unfolding enableProxyMode_def attempt_def [of "api_read _"]
      by (intro asks_handle_read asks_attempt asks_ret asks_fail asks_watchPublicService objects)
  qed
  moreover have "asks (proxy_request req) (updateCRDStatus api req ProxyMode :: (('w, 'z) op_st_scheme, unit) prog)"
    by (rule updateCRDStatus_asks [OF assms]) (auto simp: proxy_request_def)
  ultimately show ?thesis
    unfolding switchMode_def attempt_def
    by (intro asks_getCRD_bind assms asks_fail) (auto simp: modes_differ intro: asks_deferred)
qed

section \<open>The mode follows the readiness of the target\<close>

lemma ready_condition_iff: "ready_condition cs \<longleftrightarrow> (''Ready'', ''True'') \<in> set cs"
  by (induction cs rule: ready_condition.induct) auto

lemma any_pod_ready_iff:
  "any_pod_ready pods \<longleftrightarrow> (\<exists>p \<in> set pods. pod_DeletionTimestamp p = None \<and> (''Ready'', ''True'') \<in> set (pod_Conditions p))"
  by (induction pods) (auto simp: ready_condition_iff)

text \<open>
  The target asks for and reports at least one replica, and the pods its selector selects in the
  namespace of the ElastiService contain a ready one that is not being deleted.
\<close>

definition target_ready :: "('w, 'x) api_scheme \<Rightarrow> nsname \<Rightarrow> unstructured \<Rightarrow> 'w \<Rightarrow> bool" where
  "target_ready api req obj w \<longleftrightarrow>
     (\<exists>m n sel ls q pods. un_SpecReplicas obj = Present m \<and> 0 < m \<and> un_StatusReplicas obj = Present n \<and> 0 < n \<and>
        un_Selector obj = Present sel \<and> a_toLabelSelector api sel = Inr ls \<and> a_asSelector api ls = Inr q \<and>
        fst (a_listPods api (nn_namespace req) q w) = Inr pods \<and>
        (\<exists>p \<in> set pods. pod_DeletionTimestamp p = None \<and> (''Ready'', ''True'') \<in> set (pod_Conditions p)))"

lemma getUpdateObjInfo_ready:
  assumes "getUpdateObjInfo (Some obj) req = Inr info"
  shows "uo_namespace info = nn_namespace req"
    and "0 < uo_specReplicas info \<and> 0 < uo_statusReplicas info \<and> uo_selector info = Some sel \<longleftrightarrow>
      (\<exists>m n. un_SpecReplicas obj = Present m \<and> 0 < m \<and> un_StatusReplicas obj = Present n \<and> 0 < n \<and> un_Selector obj = Present sel)"
  using assms by (auto simp: getUpdateObjInfo_def Let_def split: nested.splits)

lemma isTargetReady_run:
  assumes "isTargetReady api info s = (r, s')"
  shows "writes s' = writes s \<and> (r = Ok True \<longleftrightarrow>
    (\<exists>sel ls q pods. 0 < uo_specReplicas info \<and> 0 < uo_statusReplicas info \<and> uo_selector info = Some sel \<and>
       a_toLabelSelector api sel = Inr ls \<and> a_asSelector api ls = Inr q \<and>
       fst (a_listPods api (uo_namespace info) q (world s)) = Inr pods \<and> any_pod_ready pods))"
  using assms
  by (auto simp: isTargetReady_def attempt_def handle_run pure_call_def api_read_def lift_sum_def
      split: if_splits option.splits sum.splits prod.splits)

lemma isTargetReady_target_ready:
  assumes "getUpdateObjInfo (Some obj) req = Inr info" and "isTargetReady api info s = (r, s')"
  shows "r = Ok True \<longleftrightarrow> target_ready api req obj (world s)"
proof -
  have "target_ready api req obj (world s) \<longleftrightarrow>
      (\<exists>sel. (\<exists>m n. un_SpecReplicas obj = Present m \<and> 0 < m \<and> un_StatusReplicas obj = Present n \<and> 0 < n \<and> un_Selector obj = Present sel) \<and>
         (\<exists>ls q pods. a_toLabelSelector api sel = Inr ls \<and> a_asSelector api ls = Inr q \<and>
            fst (a_listPods api (nn_namespace req) q (world s)) = Inr pods \<and> any_pod_ready pods))"
    unfolding target_ready_def any_pod_ready_iff by blast
  also have "\<dots> \<longleftrightarrow> r = Ok True"
    unfolding getUpdateObjInfo_ready(2) [OF assms(1), symmetric]
    using isTargetReady_run [OF assms(2)] getUpdateObjInfo_ready(1) [OF assms(1)] by simp
  finally show ?thesis by simp
qed


definition web_req :: nsname where
  "web_req = \<lparr>nn_namespace = ''shop'', nn_name = ''web-es''\<rparr>"

definition ready_target :: unstructured where
  "ready_target = \<lparr>un_Name = ''web'', un_Namespace = ''shop'', un_SpecReplicas = Present 2, un_StatusReplicas = Present 1,
     un_Selector = Present ''app=web''\<rparr>"

text \<open>An API server where every object that is asked for exists and one pod is ready.\<close>

definition shop_api :: "unit api" where
  "shop_api = resolver_api\<lparr>
     a_getES := (\<lambda>n w. (Inr (sample_es\<lparr>es_Name := nn_name n, es_Namespace := nn_namespace n\<rparr>), w)),
     a_getService := (\<lambda>n w. (Inr (web_service\<lparr>svc_Name := nn_name n, svc_Namespace := nn_namespace n\<rparr>), w)),
     a_getDynamic := (\<lambda>_ _ _ w. (Inr (), w)),
     a_listPods := (\<lambda>_ _ w. (Inr [\<lparr>pod_DeletionTimestamp = None, pod_Conditions = [(''Ready'', ''True'')]\<rparr>], w))\<rparr>"

lemma shop_api_named: "gets_named shop_api"
  by (auto simp: gets_named_def shop_api_def resolver_api_def constant_api_def svc_key_def es_key_def)


end
