(* ===== verification/Wire.thy ===== *)
theory Wire
  imports Prometheus
begin

text \<open>
  What goes over the wire between operator and resolver, as \<^verbatim>\<open>encoding/json\<close> writes and reads
  it: the messages of \<^verbatim>\<open>src/pkg/messages\<close> and the spec of an ElastiService, whose members and
  \<^verbatim>\<open>omitempty\<close> options are the struct tags of
  \<^verbatim>\<open>src/operator/api/v1alpha1/elastiservice_types.go\<close>. A decoder takes the JSON value and the
  variable it decodes into and returns the new value and whether there was a type error; as in Go,
  decoding goes on after a type error and member names are compared without regard to case.
\<close>

section \<open>Decoders\<close>

type_synonym 'a decoder = "json \<Rightarrow> 'a \<Rightarrow> 'a \<times> bool"

fun decode_int :: "nat \<Rightarrow> int decoder" where
  "decode_int bits (JNum t) old = (case ParseInt bits t of Some n \<Rightarrow> (n, False) | None \<Rightarrow> (old, True))"
| "decode_int bits JNull old = (old, False)"
| "decode_int bits _ old = (old, True)"

definition decode_raw :: "raw_message decoder" where
  "decode_raw v old = (Some v, False)"

definition in_field :: "('r \<Rightarrow> 'a) \<Rightarrow> ('a \<Rightarrow> 'r \<Rightarrow> 'r) \<Rightarrow> 'a decoder \<Rightarrow> 'r decoder" where
  "in_field get put d = (\<lambda>v r. let (x, bad) = d v (get r) in (put x r, bad))"

fun decode_members :: "(string \<times> 'r decoder) list \<Rightarrow> (string \<times> json) list \<Rightarrow> 'r \<Rightarrow> 'r \<times> bool" where
  "decode_members fs [] r = (r, False)"
| "decode_members fs ((k, v) # kvs) r =
     (let (r1, bad) = (case find (\<lambda>f. EqualFold k (fst f)) fs of Some f \<Rightarrow> snd f v r | None \<Rightarrow> (r, False));
          (r2, bad') = decode_members fs kvs r1
      in (r2, bad \<or> bad'))"

fun decode_struct :: "(string \<times> 'r decoder) list \<Rightarrow> 'r decoder" where
  "decode_struct fs (JObj kvs) r = decode_members fs kvs r"
| "decode_struct fs JNull r = (r, False)"
| "decode_struct fs _ r = (r, True)"

text \<open>A pointer is set to nil by null; otherwise the variable it points to is decoded into.\<close>

definition decode_ptr :: "'a \<Rightarrow> 'a decoder \<Rightarrow> 'a option decoder" where
  "decode_ptr zero d v old =
     (if v = JNull then (None, False)
      else let (x, bad) = d v (case old of Some x \<Rightarrow> x | None \<Rightarrow> zero) in (Some x, bad))"

text \<open>An array reuses the elements of the slice that is decoded into.\<close>

fun decode_elements :: "'a \<Rightarrow> 'a decoder \<Rightarrow> json list \<Rightarrow> 'a list \<Rightarrow> 'a list \<times> bool" where
  "decode_elements zero d [] old = ([], False)"
| "decode_elements zero d (j # js) old =
     (let (x, bad) = d j (case old of [] \<Rightarrow> zero | x # _ \<Rightarrow> x);
          (xs, bad') = decode_elements zero d js (tl old)
      in (x # xs, bad \<or> bad'))"

fun decode_slice :: "'a \<Rightarrow> 'a decoder \<Rightarrow> 'a list decoder" where
  "decode_slice zero d (JArr js) old = decode_elements zero d js old"
| "decode_slice zero d JNull old = ([], False)"
| "decode_slice zero d _ old = (old, True)"

text \<open>A map keeps its other entries; every value is decoded into a fresh variable.\<close>

fun decode_entries :: "'a \<Rightarrow> 'a decoder \<Rightarrow> (string \<times> json) list \<Rightarrow> (string \<rightharpoonup> 'a) \<Rightarrow> (string \<rightharpoonup> 'a) \<times> bool" where
  "decode_entries zero d [] m = (m, False)"
| "decode_entries zero d ((k, v) # kvs) m =
     (let (x, bad) = d v zero; (m', bad') = decode_entries zero d kvs (m(k \<mapsto> x)) in (m', bad \<or> bad'))"

fun decode_map :: "'a \<Rightarrow> 'a decoder \<Rightarrow> (string \<rightharpoonup> 'a) decoder" where
  "decode_map zero d (JObj kvs) m = decode_entries zero d kvs m"
| "decode_map zero d JNull m = (Map.empty, False)"
| "decode_map zero d _ m = (m, True)"

text \<open>\<^verbatim>\<open>json.Unmarshal\<close> and \<^verbatim>\<open>Decode\<close> of a text into a zero variable.\<close>

definition Unmarshal :: "'a decoder \<Rightarrow> 'a \<Rightarrow> raw_message \<Rightarrow> go_error + 'a" where
  "Unmarshal d zero body =
     (case body of
        None \<Rightarrow> Inl (EMsg ''invalid JSON'')
      | Some v \<Rightarrow> (let (x, bad) = d v zero in if bad then Inl (EMsg ''cannot unmarshal'') else Inr x))"

section \<open>Encoders and the struct tags\<close>

definition omitempty :: "bool \<Rightarrow> string \<Rightarrow> json \<Rightarrow> (string \<times> json) list" where
  "omitempty is_empty name v = (if is_empty then [] else [(name, v)])"

definition JInt :: "int \<Rightarrow> json" where
  "JInt n = JNum (Itoa_int n)"

definition encode_request_count :: "request_count \<Rightarrow> json" where
  "encode_request_count b =
     JObj [(''count'', JInt (rc_Count b)), (''svc'', JStr (rc_Svc b)), (''namespace'', JStr (rc_Namespace b))]"

definition zero_request_count :: request_count where
  "zero_request_count = \<lparr>rc_Count = 0, rc_Svc = [], rc_Namespace = []\<rparr>"

definition decode_request_count :: "request_count decoder" where
  "decode_request_count = decode_struct
     [(''count'', in_field rc_Count (\<lambda>x. rc_Count_update (\<lambda>_. x)) (decode_int 64)),
      (''svc'', in_field rc_Svc (\<lambda>x. rc_Svc_update (\<lambda>_. x)) decode_string),
      (''namespace'', in_field rc_Namespace (\<lambda>x. rc_Namespace_update (\<lambda>_. x)) decode_string)]"

subsection \<open>The spec\<close>

definition encode_target_ref :: "scale_target_ref \<Rightarrow> json" where
  "encode_target_ref r =
     JObj [(''apiVersion'', JStr (tr_APIVersion r)), (''kind'', JStr (tr_Kind r)), (''name'', JStr (tr_Name r))]"

definition decode_target_ref :: "scale_target_ref decoder" where
  "decode_target_ref = decode_struct
     [(''apiVersion'', in_field tr_APIVersion (\<lambda>x. tr_APIVersion_update (\<lambda>_. x)) decode_string),
      (''kind'', in_field tr_Kind (\<lambda>x. tr_Kind_update (\<lambda>_. x)) decode_string),
      (''name'', in_field tr_Name (\<lambda>x. tr_Name_update (\<lambda>_. x)) decode_string)]"

definition encode_path_match :: "path_match \<Rightarrow> json" where
  "encode_path_match p =
     JObj (omitempty (pm_Type p = []) ''type'' (JStr (pm_Type p)) @ omitempty (pm_Value p = []) ''value'' (JStr (pm_Value p)))"

definition decode_path_match :: "path_match decoder" where
  "decode_path_match = decode_struct
     [(''type'', in_field pm_Type (\<lambda>x. pm_Type_update (\<lambda>_. x)) decode_string),
      (''value'', in_field pm_Value (\<lambda>x. pm_Value_update (\<lambda>_. x)) decode_string)]"

definition encode_header_match :: "header_match \<Rightarrow> json" where
  "encode_header_match h =
     JObj ((''name'', JStr (hm_Name h)) # omitempty (hm_Type h = []) ''type'' (JStr (hm_Type h)) @ [(''value'', JStr (hm_Value h))])"

definition decode_header_match :: "header_match decoder" where
  "decode_header_match = decode_struct
     [(''name'', in_field hm_Name (\<lambda>x. hm_Name_update (\<lambda>_. x)) decode_string),
      (''type'', in_field hm_Type (\<lambda>x. hm_Type_update (\<lambda>_. x)) decode_string),
      (''value'', in_field hm_Value (\<lambda>x. hm_Value_update (\<lambda>_. x)) decode_string)]"

definition encode_query_match :: "query_match \<Rightarrow> json" where
  "encode_query_match q =
     JObj ((''name'', JStr (qm_Name q)) # omitempty (qm_Type q = []) ''type'' (JStr (qm_Type q)) @ [(''value'', JStr (qm_Value q))])"

definition decode_query_match :: "query_match decoder" where
  "decode_query_match = decode_struct
     [(''name'', in_field qm_Name (\<lambda>x. qm_Name_update (\<lambda>_. x)) decode_string),
      (''type'', in_field qm_Type (\<lambda>x. qm_Type_update (\<lambda>_. x)) decode_string),
      (''value'', in_field qm_Value (\<lambda>x. qm_Value_update (\<lambda>_. x)) decode_string)]"

definition encode_probe_response :: "probe_response \<Rightarrow> json" where
  "encode_probe_response r = JObj [(''status'', JInt (pr_Status r)), (''body'', JStr (pr_Body r))]"

definition decode_probe_response :: "probe_response decoder" where
  "decode_probe_response = decode_struct
     [(''status'', in_field pr_Status (\<lambda>x. pr_Status_update (\<lambda>_. x)) (decode_int 64)),
      (''body'', in_field pr_Body (\<lambda>x. pr_Body_update (\<lambda>_. x)) decode_string)]"

definition zero_path :: path_match where "zero_path = \<lparr>pm_Type = [], pm_Value = []\<rparr>"
definition zero_header :: header_match where "zero_header = \<lparr>hm_Name = [], hm_Type = [], hm_Value = []\<rparr>"
definition zero_query :: query_match where "zero_query = \<lparr>qm_Name = [], qm_Type = [], qm_Value = []\<rparr>"
definition zero_rule :: probe_rule where
  "zero_rule = \<lparr>pr_Path = None, pr_Headers = [], pr_QueryParams = [], pr_Method = None, pr_Response = \<lparr>pr_Status = 0, pr_Body = []\<rparr>\<rparr>"

definition opt_member :: "string \<Rightarrow> ('a \<Rightarrow> json) \<Rightarrow> 'a option \<Rightarrow> (string \<times> json) list" where
  "opt_member name enc x = (case x of None \<Rightarrow> [] | Some a \<Rightarrow> [(name, enc a)])"

definition encode_rule :: "probe_rule \<Rightarrow> json" where
  "encode_rule r =
     JObj (opt_member ''path'' encode_path_match (pr_Path r) @
       omitempty (pr_Headers r = []) ''headers'' (JArr (map encode_header_match (pr_Headers r))) @
       omitempty (pr_QueryParams r = []) ''queryParams'' (JArr (map encode_query_match (pr_QueryParams r))) @
       opt_member ''method'' JStr (pr_Method r) @ [(''response'', encode_probe_response (pr_Response r))])"

definition decode_rule :: "probe_rule decoder" where
  "decode_rule = decode_struct
     [(''path'', in_field pr_Path (\<lambda>x. pr_Path_update (\<lambda>_. x)) (decode_ptr zero_path decode_path_match)),
      (''headers'', in_field pr_Headers (\<lambda>x. pr_Headers_update (\<lambda>_. x)) (decode_slice zero_header decode_header_match)),
      (''queryParams'', in_field pr_QueryParams (\<lambda>x. pr_QueryParams_update (\<lambda>_. x)) (decode_slice zero_query decode_query_match)),
      (''method'', in_field pr_Method (\<lambda>x. pr_Method_update (\<lambda>_. x)) (decode_ptr [] decode_string)),
      (''response'', in_field pr_Response (\<lambda>x. pr_Response_update (\<lambda>_. x)) decode_probe_response)]"

text \<open>Metadata that is absent (a nil \<^verbatim>\<open>RawMessage\<close>) is omitted.\<close>

definition encode_trigger :: "scale_trigger \<Rightarrow> json" where
  "encode_trigger t = JObj ((''type'', JStr (trig_Type t)) # opt_member ''metadata'' id (trig_Metadata t))"

definition zero_trigger :: scale_trigger where "zero_trigger = \<lparr>trig_Type = [], trig_Metadata = None\<rparr>"

definition decode_trigger :: "scale_trigger decoder" where
  "decode_trigger = decode_struct
     [(''type'', in_field trig_Type (\<lambda>x. trig_Type_update (\<lambda>_. x)) decode_string),
      (''metadata'', in_field trig_Metadata (\<lambda>x. trig_Metadata_update (\<lambda>_. x)) decode_raw)]"

definition encode_autoscaler :: "autoscaler \<Rightarrow> json" where
  "encode_autoscaler a = JObj [(''type'', JStr (as_Type a)), (''name'', JStr (as_Name a))]"

definition decode_autoscaler :: "autoscaler decoder" where
  "decode_autoscaler = decode_struct
     [(''type'', in_field as_Type (\<lambda>x. as_Type_update (\<lambda>_. x)) decode_string),
      (''name'', in_field as_Name (\<lambda>x. as_Name_update (\<lambda>_. x)) decode_string)]"

definition encode_enabled_period :: "enabled_period \<Rightarrow> json" where
  "encode_enabled_period p =
     JObj (omitempty (ep_Schedule p = []) ''schedule'' (JStr (ep_Schedule p)) @
       omitempty (ep_Duration p = []) ''duration'' (JStr (ep_Duration p)))"

definition decode_enabled_period :: "enabled_period decoder" where
  "decode_enabled_period = decode_struct
     [(''schedule'', in_field ep_Schedule (\<lambda>x. ep_Schedule_update (\<lambda>_. x)) decode_string),
      (''duration'', in_field ep_Duration (\<lambda>x. ep_Duration_update (\<lambda>_. x)) decode_string)]"

definition zero_spec :: es_spec where
  "zero_spec = \<lparr>ScaleTargetRef = \<lparr>tr_APIVersion = [], tr_Kind = [], tr_Name = []\<rparr>, Service = [], ProbeResponse = [],
     MinTargetReplicas = 0, CooldownPeriod = 0, Triggers = [], Autoscaler = None, EnabledPeriod = None\<rparr>"

definition encode_spec :: "es_spec \<Rightarrow> json" where
  "encode_spec s =
     JObj ([(''scaleTargetRef'', encode_target_ref (ScaleTargetRef s)), (''service'', JStr (Service s))] @
       omitempty (ProbeResponse s = []) ''probeResponse'' (JArr (map encode_rule (ProbeResponse s))) @
       omitempty (MinTargetReplicas s = 0) ''minTargetReplicas'' (JInt (MinTargetReplicas s)) @
       omitempty (CooldownPeriod s = 0) ''cooldownPeriod'' (JInt (CooldownPeriod s)) @
       omitempty (Triggers s = []) ''triggers'' (JArr (map encode_trigger (Triggers s))) @
       opt_member ''autoscaler'' encode_autoscaler (Autoscaler s) @
       opt_member ''enabledPeriod'' encode_enabled_period (EnabledPeriod s))"

definition decode_spec :: "es_spec decoder" where
  "decode_spec = decode_struct
     [(''scaleTargetRef'', in_field ScaleTargetRef (\<lambda>x. ScaleTargetRef_update (\<lambda>_. x)) decode_target_ref),
      (''service'', in_field Service (\<lambda>x. Service_update (\<lambda>_. x)) decode_string),
      (''probeResponse'', in_field ProbeResponse (\<lambda>x. ProbeResponse_update (\<lambda>_. x)) (decode_slice zero_rule decode_rule)),
      (''minTargetReplicas'', in_field MinTargetReplicas (\<lambda>x. MinTargetReplicas_update (\<lambda>_. x)) (decode_int 32)),
      (''cooldownPeriod'', in_field CooldownPeriod (\<lambda>x. CooldownPeriod_update (\<lambda>_. x)) (decode_int 32)),
      (''triggers'', in_field Triggers (\<lambda>x. Triggers_update (\<lambda>_. x)) (decode_slice zero_trigger decode_trigger)),
      (''autoscaler'', in_field Autoscaler (\<lambda>x. Autoscaler_update (\<lambda>_. x)) (decode_ptr \<lparr>as_Type = [], as_Name = []\<rparr> decode_autoscaler)),
      (''enabledPeriod'', in_field EnabledPeriod (\<lambda>x. EnabledPeriod_update (\<lambda>_. x))
         (decode_ptr \<lparr>ep_Schedule = [], ep_Duration = []\<rparr> decode_enabled_period))]"

text \<open>\<^verbatim>\<open>metav1.Time\<close> is null for the zero time; \<^verbatim>\<open>omitempty\<close> has no effect on a struct.\<close>

definition encode_time :: "libs \<Rightarrow> time \<Rightarrow> json" where
  "encode_time l t = (if t = 0 then JNull else JStr (FormatRFC3339 l t))"

definition encode_status :: "libs \<Rightarrow> es_status \<Rightarrow> json" where
  "encode_status l st =
     JObj ((''lastReconciledTime'', encode_time l (LastReconciledTime st)) #
       opt_member ''lastScaledUpTime'' (encode_time l) (LastScaledUpTime st) @
       omitempty (Mode st = []) ''mode'' (JStr (Mode st)))"

subsection \<open>The cache response\<close>

record cache_entry =
  ce_Name :: string
  ce_Spec :: raw_message
  ce_Status :: raw_message

definition zero_entry :: cache_entry where "zero_entry = \<lparr>ce_Name = [], ce_Spec = None, ce_Status = None\<rparr>"

text \<open>A nil \<^verbatim>\<open>RawMessage\<close> without \<^verbatim>\<open>omitempty\<close> is written as null.\<close>

definition encode_entry :: "cache_entry \<Rightarrow> json" where
  "encode_entry e =
     JObj [(''name'', JStr (ce_Name e)), (''spec'', case ce_Spec e of None \<Rightarrow> JNull | Some v \<Rightarrow> v),
       (''status'', case ce_Status e of None \<Rightarrow> JNull | Some v \<Rightarrow> v)]"

definition decode_entry :: "cache_entry decoder" where
  "decode_entry = decode_struct
     [(''name'', in_field ce_Name (\<lambda>x. ce_Name_update (\<lambda>_. x)) decode_string),
      (''spec'', in_field ce_Spec (\<lambda>x. ce_Spec_update (\<lambda>_. x)) decode_raw),
      (''status'', in_field ce_Status (\<lambda>x. ce_Status_update (\<lambda>_. x)) decode_raw)]"

text \<open>\<^verbatim>\<open>ElastiServiceCacheResponse\<close>: the entries in the order of their keys.\<close>

definition encode_cache :: "(string \<times> cache_entry) list \<Rightarrow> json" where
  "encode_cache services = JObj [(''services'', JObj (map (\<lambda>(k, e). (k, encode_entry e)) services))]"

definition decode_cache :: "(string \<rightharpoonup> cache_entry) decoder" where
  "decode_cache = decode_struct [(''services'', decode_map zero_entry decode_entry)]"

section \<open>Round trips\<close>

text \<open>The contract of an encoder and a decoder: what is written is read back into a zero variable.\<close>

locale codec =
  fixes enc :: "'a \<Rightarrow> json" and dec :: "'a decoder" and zero :: 'a and ok :: "'a \<Rightarrow> bool"
  assumes round_trip: "ok x \<Longrightarrow> dec (enc x) zero = (x, False)"
    and not_null: "ok x \<Longrightarrow> enc x \<noteq> JNull"
begin

lemma unmarshal: "ok x \<Longrightarrow> Unmarshal dec zero (Some (enc x)) = Inr x"
  by (simp add: Unmarshal_def round_trip)

lemma pointer: "ok x \<Longrightarrow> decode_ptr zero dec (enc x) None = (Some x, False)"
  by (simp add: decode_ptr_def round_trip not_null)

lemma elements: "list_all ok xs \<Longrightarrow> decode_elements zero dec (map enc xs) [] = (xs, False)"
  by (induction xs) (simp_all add: round_trip)

lemma slice: "list_all ok xs \<Longrightarrow> decode_slice zero dec (JArr (map enc xs)) [] = (xs, False)"
  by (simp add: elements)

lemma entries:
  "list_all (\<lambda>(k, x). ok x) kxs \<Longrightarrow> distinct (map fst kxs) \<Longrightarrow>
   decode_entries zero dec (map (\<lambda>(k, x). (k, enc x)) kxs) m = (m ++ map_of kxs, False)"
proof (induction kxs arbitrary: m)
  case (Cons kx kxs)
  obtain k x where kx: "kx = (k, x)" by fastforce
  have "map_of kxs k = None" using Cons.prems(2) kx by (simp add: map_of_eq_None_iff)
  then have "m(k \<mapsto> x) ++ map_of kxs = m ++ (\<lambda>a. if a = k then Some x else map_of kxs a)"
    by (intro ext) (simp add: map_add_def split: option.splits)
  then show ?case using Cons kx by (simp add: round_trip)
qed simp

end

lemmas wire_defs = in_field_def omitempty_def opt_member_def EqualFold_def ToLower_def lower_char_def decode_raw_def

interpretation ref: codec encode_target_ref decode_target_ref "\<lparr>tr_APIVersion = [], tr_Kind = [], tr_Name = []\<rparr>" "\<lambda>_. True"
  by unfold_locales (simp_all add: encode_target_ref_def decode_target_ref_def wire_defs)

interpretation path: codec encode_path_match decode_path_match zero_path "\<lambda>_. True"
  by unfold_locales (simp_all add: encode_path_match_def decode_path_match_def zero_path_def wire_defs)

interpretation header: codec encode_header_match decode_header_match zero_header "\<lambda>_. True"
  by unfold_locales (simp_all add: encode_header_match_def decode_header_match_def zero_header_def wire_defs)

interpretation query: codec encode_query_match decode_query_match zero_query "\<lambda>_. True"
  by unfold_locales (simp_all add: encode_query_match_def decode_query_match_def zero_query_def wire_defs)

interpretation trigger: codec encode_trigger decode_trigger zero_trigger "\<lambda>_. True"
  by unfold_locales (auto simp: encode_trigger_def decode_trigger_def zero_trigger_def wire_defs split: option.splits)

interpretation scaler_ref: codec encode_autoscaler decode_autoscaler "\<lparr>as_Type = [], as_Name = []\<rparr>" "\<lambda>_. True"
  by unfold_locales (simp_all add: encode_autoscaler_def decode_autoscaler_def wire_defs)

interpretation period: codec encode_enabled_period decode_enabled_period "\<lparr>ep_Schedule = [], ep_Duration = []\<rparr>" "\<lambda>_. True"
  by unfold_locales (simp_all add: encode_enabled_period_def decode_enabled_period_def wire_defs)

interpretation entry: codec encode_entry decode_entry zero_entry "\<lambda>e. ce_Spec e \<noteq> None \<and> ce_Status e \<noteq> None"
  by unfold_locales (auto simp: encode_entry_def decode_entry_def zero_entry_def wire_defs)

lemma ParseInt_Itoa_int:
  assumes "- (2 ^ (bits - 1)) \<le> n" and "n < 2 ^ (bits - 1)"
  shows "ParseInt bits (Itoa_int n) = Some n"
proof (cases "n < 0")
  case True
  then show ?thesis using assms(1) Itoa_digits [of "nat (- n)"] by (simp add: Itoa_int_def ParseInt_def Let_def)
next
  case False
  then show ?thesis using assms(2) ParseInt_Itoa [of "nat n" bits] by (simp add: Itoa_int_def)
qed

lemma decode_JInt: "- (2 ^ (bits - 1)) \<le> n \<Longrightarrow> n < 2 ^ (bits - 1) \<Longrightarrow> decode_int bits (JInt n) old = (n, False)"
  by (simp add: JInt_def ParseInt_Itoa_int)

definition in_int :: "nat \<Rightarrow> int \<Rightarrow> bool" where
  "in_int bits n \<longleftrightarrow> - (2 ^ (bits - 1)) \<le> n \<and> n < 2 ^ (bits - 1)"

interpretation response: codec encode_probe_response decode_probe_response "\<lparr>pr_Status = 0, pr_Body = []\<rparr>" "\<lambda>r. in_int 64 (pr_Status r)"
  by unfold_locales (simp_all add: encode_probe_response_def decode_probe_response_def in_int_def decode_JInt wire_defs)

interpretation count: codec encode_request_count decode_request_count zero_request_count "\<lambda>b. in_int 64 (rc_Count b)"
  by unfold_locales
    (simp_all add: encode_request_count_def decode_request_count_def zero_request_count_def in_int_def decode_JInt wire_defs)

definition rule_ok :: "probe_rule \<Rightarrow> bool" where
  "rule_ok r \<longleftrightarrow> in_int 64 (pr_Status (pr_Response r))"

lemma str_pointer: "decode_ptr [] decode_string (JStr x) None = (Some x, False)"
  by (simp add: decode_ptr_def)

lemma header_slice: "decode_slice zero_header decode_header_match (JArr (map encode_header_match hs)) [] = (hs, False)"
  by (rule header.slice) (simp add: list_all_iff)

lemma query_slice: "decode_slice zero_query decode_query_match (JArr (map encode_query_match qs)) [] = (qs, False)"
  by (rule query.slice) (simp add: list_all_iff)

lemma trigger_slice: "decode_slice zero_trigger decode_trigger (JArr (map encode_trigger ts)) [] = (ts, False)"
  by (rule trigger.slice) (simp add: list_all_iff)

interpretation rule: codec encode_rule decode_rule zero_rule rule_ok
  by unfold_locales
    (auto simp: encode_rule_def decode_rule_def zero_rule_def rule_ok_def wire_defs path.pointer str_pointer header_slice query_slice
      response.round_trip simp del: decode_slice.simps split: option.splits)

text \<open>The numbers of the spec fit their Go types.\<close>

definition spec_ok :: "es_spec \<Rightarrow> bool" where
  "spec_ok s \<longleftrightarrow> in_int 32 (MinTargetReplicas s) \<and> in_int 32 (CooldownPeriod s) \<and> list_all rule_ok (ProbeResponse s)"

lemma decode_int_ok: "in_int bits n \<Longrightarrow> decode_int bits (JInt n) old = (n, False)"
  by (simp add: in_int_def decode_JInt)

interpretation spec: codec encode_spec decode_spec zero_spec spec_ok
  by unfold_locales
    (auto simp: encode_spec_def decode_spec_def zero_spec_def spec_ok_def wire_defs ref.round_trip rule.slice trigger_slice
      scaler_ref.pointer period.pointer decode_int_ok simp del: decode_slice.simps split: option.splits)

end
