(* ===== verification/Elasti_Server.thy ===== *)
theory Elasti_Server
  imports Controller Wire "HOL-Library.List_Lexorder" "HOL-Library.Char_ord"
begin

text \<open>
  The HTTP server of the operator (\<^verbatim>\<open>src/operator/internal/elastiserver/elastiServer.go\<close>): the
  request of a resolver that a service is wanted, which scales the target of the service up, and the
  ElastiServices for the cache of the resolver. A handler returns the reply; whether the reply can be
  written to the connection is an argument. The routes and the shutdown of the server
  are in \<^verbatim>\<open>Server_Start\<close>.
\<close>

record http_req =
  rq_Method :: string
  rq_Body :: raw_message

datatype reply_body = Text string | Json json

record reply =
  rp_Status :: int
  rp_Body :: reply_body

definition scaleTargetForService ::
  "('w, 'x) api_scheme \<Rightarrow> string \<Rightarrow> string \<Rightarrow> (('w, 'z) op_st_scheme, unit) prog" where
  "scaleTargetForService api serviceName namespace =
     handle (lookup_crd (nn_string \<lparr>nn_namespace = namespace, nn_name = serviceName\<rparr>)) fail (\<lambda>found.
       case found of
         None \<Rightarrow> fail (EMsg ''scaleTargetForService - error: failed to get CRD details from directory'')
       | Some crd \<Rightarrow>
           (let scale_up = attempt (ScaleToMinReplicas api namespace (cd_Spec crd)) ''scaleTargetForService - error'' (\<lambda>_. ret ())
            in ignoring (UpdateLastScaledUpTime api (CRDName crd) namespace)
                 (case is_keda (cd_Spec crd) of
                    Some scaledObject \<Rightarrow>
                      attempt (UpdateKedaScaledObjectPausedState api scaledObject namespace False)
                        ''failed to update Keda ScaledObject for service'' (\<lambda>_. scale_up)
                  | None \<Rightarrow> scale_up)))"

definition resolverReqHandler ::
  "('w, 'x) api_scheme \<Rightarrow> bool \<Rightarrow> http_req \<Rightarrow> (('w, 'z) op_st_scheme, reply) prog" where
  "resolverReqHandler api written req =
     (if rq_Method req \<noteq> ''POST'' then ret \<lparr>rp_Status = 405, rp_Body = Text ''Invalid request method''\<rparr>
      else case Unmarshal decode_request_count zero_request_count (rq_Body req) of
        Inl err \<Rightarrow> ret \<lparr>rp_Status = 400, rp_Body = Text ''Invalid request body''\<rparr>
      | Inr body \<Rightarrow>
          (let response = \<lparr>rp_Status = 200, rp_Body = Json (JObj [(''message'', JStr ''Request received successfully!'')])\<rparr>
           in if \<not> written then ret response
              else ignoring (scaleTargetForService api (rc_Svc body) (rc_Namespace body)) (ret response)))"

definition cache_entry_of :: "libs \<Rightarrow> crd_details \<Rightarrow> cache_entry" where
  "cache_entry_of l crd =
     \<lparr>ce_Name = CRDName crd, ce_Spec = Some (encode_spec (cd_Spec crd)), ce_Status = Some (encode_status l (cd_Status crd))\<rparr>"

text \<open>\<open>keys\<close> are the keys the range visits; the encoder sorts the keys of a map.\<close>

definition crdCacheHandler :: "libs \<Rightarrow> string list \<Rightarrow> http_req \<Rightarrow> (('w, 'z) op_st_scheme, reply) prog" where
  "crdCacheHandler l keys req = (\<lambda>s.
     if rq_Method req \<noteq> ''GET'' then (Ok \<lparr>rp_Status = 405, rp_Body = Text ''Method not allowed''\<rparr>, s)
     else (let allCRDs = ListAllCRDs (sort keys) (directory s)
           in (Ok \<lparr>rp_Status = 200, rp_Body = Json (encode_cache (map (\<lambda>(k, crd). (k, cache_entry_of l crd)) allCRDs))\<rparr>, s)))"

section \<open>Properties\<close>

text \<open>
  What a request for a registered service asks for: the time of the request, then that KEDA goes on
  where it manages the target, and only if that was accepted the scale of the target.
\<close>

definition wake_log :: "string \<Rightarrow> crd_details \<Rightarrow> (kube_write \<times> bool) list \<Rightarrow> bool" where
  "wake_log ns crd new \<longleftrightarrow>
     (let scaling = list_all (\<lambda>(w, _). target_request ns (cd_Spec crd) (min_replicas (cd_Spec crd)) w) in
      \<exists>t stamped rest. new = (PatchLastScaledUp ns (CRDName crd) t, stamped) # rest \<and>
        (case is_keda (cd_Spec crd) of
           None \<Rightarrow> scaling rest
         | Some so \<Rightarrow> \<exists>unpaused rest'. rest = (PatchScaledObject ns so (keda_patch False), unpaused) # rest' \<and>
             scaling rest' \<and> (unpaused \<or> rest' = [])))"

text \<open>The request of a decoded body and the entry of the directory it is for.\<close>

definition wake_target :: "bool \<Rightarrow> http_req \<Rightarrow> directory \<Rightarrow> (string \<times> crd_details) option" where
  "wake_target written req d =
     (if rq_Method req = ''POST'' \<and> written
      then (case Unmarshal decode_request_count zero_request_count (rq_Body req) of
              Inl _ \<Rightarrow> None
            | Inr body \<Rightarrow>
                (case GetCRD (nn_string \<lparr>nn_namespace = rc_Namespace body, nn_name = rc_Svc body\<rparr>) d of
                   Ok (Some crd) \<Rightarrow> Some (rc_Namespace body, crd)
                 | _ \<Rightarrow> None))
      else None)"

definition reply_status :: "http_req \<Rightarrow> int" where
  "reply_status req =
     (if rq_Method req \<noteq> ''POST'' then 405
      else if isl (Unmarshal decode_request_count zero_request_count (rq_Body req)) then 400 else 200)"

text \<open>What is left once the entry is found.\<close>

definition wake ::
  "('w, 'x) api_scheme \<Rightarrow> string \<Rightarrow> crd_details \<Rightarrow> (('w, 'z) st_scheme, unit) prog" where
  "wake api ns crd =
     (let scale_up = attempt (ScaleToMinReplicas api ns (cd_Spec crd)) ''scaleTargetForService - error'' (\<lambda>_. ret ())
      in case is_keda (cd_Spec crd) of
           Some so \<Rightarrow> attempt (UpdateKedaScaledObjectPausedState api so ns False)
             ''failed to update Keda ScaledObject for service'' (\<lambda>_. scale_up)
         | None \<Rightarrow> scale_up)"

definition scale_up ::
  "('w, 'x) api_scheme \<Rightarrow> string \<Rightarrow> crd_details \<Rightarrow> (('w, 'z) st_scheme, unit) prog" where
  "scale_up api ns crd = attempt (ScaleToMinReplicas api ns (cd_Spec crd)) ''scaleTargetForService - error'' (\<lambda>_. ret ())"

lemma scale_up_asks: "asks (target_request ns (cd_Spec crd) (min_replicas (cd_Spec crd))) (scale_up api ns crd)"
  unfolding scale_up_def by (intro asks_attempt ScaleToMinReplicas_asks asks_ret)

lemma wake_None: "is_keda (cd_Spec crd) = None \<Longrightarrow> wake api ns crd = scale_up api ns crd"
  and wake_Some: "is_keda (cd_Spec crd) = Some so \<Longrightarrow>
    wake api ns crd = attempt (UpdateKedaScaledObjectPausedState api so ns False)
      ''failed to update Keda ScaledObject for service'' (\<lambda>_. scale_up api ns crd)"
  by (simp_all add: wake_def scale_up_def Let_def)

lemma scaleTargetForService_run:
  "scaleTargetForService api svc ns s =
     (case GetCRD (nn_string \<lparr>nn_namespace = ns, nn_name = svc\<rparr>) (directory s) of
        Ok (Some crd) \<Rightarrow> ignoring (UpdateLastScaledUpTime api (CRDName crd) ns) (wake api ns crd) s
      | Ok None \<Rightarrow> (Err (EMsg ''scaleTargetForService - error: failed to get CRD details from directory''), s)
      | Err e \<Rightarrow> (Err e, s)
      | Panic p \<Rightarrow> (Panic p, s))"
  by (simp add: scaleTargetForService_def handle_run lookup_crd_def wake_def Let_def split: outcome.split option.split)

text \<open>The time of the request is written first, and the rest runs whether or not that was accepted.\<close>

lemma stamped_first:
  fixes s :: "('w, 'z) st_scheme" and k :: "(('w, 'z) st_scheme, unit) prog"
  obtains t ok w where "ignoring (UpdateLastScaledUpTime api name ns) k s =
    k (s\<lparr>world := w, writes := writes s @ [(PatchLastScaledUp ns name t, ok)]\<rparr>)"
proof -
  obtain t w where now: "a_now api (world s) = (t, w)" by fastforce
  have at: "time_now api s = (Ok t, s\<lparr>world := w\<rparr>)" by (simp add: time_now_def api_ask_def now)
  show thesis
  proof (cases rule: api_write_cases [of api "PatchLastScaledUp ns name t" "s\<lparr>world := w\<rparr>"])
    case (accepted w')
    then have "UpdateLastScaledUpTime api name ns s =
        (Ok (), s\<lparr>world := w', writes := writes s @ [(PatchLastScaledUp ns name t, True)]\<rparr>)"
      by (simp add: UpdateLastScaledUpTime_def at)
    then show thesis using that [where w = w' and t = t and ok = True] by simp
  next
    case (rejected e w')
    then have "UpdateLastScaledUpTime api name ns s =
        (Err (EWrap ''failed to patch ElastiService status'' e), s\<lparr>world := w', writes := writes s @ [(PatchLastScaledUp ns name t, False)]\<rparr>)"
      by (simp add: UpdateLastScaledUpTime_def at)
    then show thesis using that [where w = w' and t = t and ok = False] by simp
  qed
qed

lemma wake_new:
  fixes s :: "('w, 'z) st_scheme"
  assumes "wake api ns crd s = (r, s')"
  shows "\<exists>rest. writes s' = writes s @ rest \<and>
    wake_log ns crd ((PatchLastScaledUp ns (CRDName crd) t, ok) # rest)"
proof -
  define P where "P = target_request ns (cd_Spec crd) (min_replicas (cd_Spec crd))"
  have up: "\<exists>new. writes (snd (scale_up api ns crd s)) = writes s @ new \<and> list_all (\<lambda>(w, _). P w) new" for s :: "('w, 'z) st_scheme"
    using scale_up_asks [of ns crd api] unfolding asks_def P_def list_all_iff by blast
  show ?thesis
  proof (cases "is_keda (cd_Spec crd)")
    case None
    then show ?thesis using assms up [of s] by (auto simp: wake_None wake_log_def Let_def P_def)
  next
    case (Some so)
    let ?w = "PatchScaledObject ns so (keda_patch False)"
    show ?thesis
    proof (cases rule: api_write_cases [of api ?w s])
      case (accepted w)
      let ?s = "s\<lparr>world := w, writes := writes s @ [(?w, True)]\<rparr>"
      have "scale_up api ns crd ?s = (r, s')"
        using assms accepted Some by (simp add: wake_Some UpdateKedaScaledObjectPausedState_def)
      then show ?thesis using up [of ?s] Some by (auto simp: wake_log_def Let_def P_def)
    next
      case (rejected e w)
      then have "writes s' = writes s @ [(?w, False)]"
        using assms Some by (auto simp: wake_Some UpdateKedaScaledObjectPausedState_def)
      then show ?thesis using Some by (auto simp: wake_log_def Let_def)
    qed
  qed
qed

lemma scaleTargetForService_new:
  fixes s :: "('w, 'z) op_st_scheme"
  assumes "scaleTargetForService api svc ns s = (r, s')"
  shows "\<exists>new. writes s' = writes s @ new \<and>
    (case GetCRD (nn_string \<lparr>nn_namespace = ns, nn_name = svc\<rparr>) (directory s) of
       Ok (Some crd) \<Rightarrow> wake_log ns crd new
     | _ \<Rightarrow> new = [])"
proof (cases "\<exists>crd. GetCRD (nn_string \<lparr>nn_namespace = ns, nn_name = svc\<rparr>) (directory s) = Ok (Some crd)")
  case True
  then obtain crd where crd: "GetCRD (nn_string \<lparr>nn_namespace = ns, nn_name = svc\<rparr>) (directory s) = Ok (Some crd)" by blast
  obtain t ok w where "ignoring (UpdateLastScaledUpTime api (CRDName crd) ns) (wake api ns crd) s =
      wake api ns crd (s\<lparr>world := w, writes := writes s @ [(PatchLastScaledUp ns (CRDName crd) t, ok)]\<rparr>)"
    by (rule stamped_first)
  with assms crd have "wake api ns crd (s\<lparr>world := w, writes := writes s @ [(PatchLastScaledUp ns (CRDName crd) t, ok)]\<rparr>) = (r, s')"
    by (simp add: scaleTargetForService_run)
  from wake_new [OF this, of t ok] show ?thesis using crd by auto
next
  case False
  then show ?thesis using assms by (auto simp: scaleTargetForService_run split: outcome.splits option.splits)
qed


definition wake_req :: http_req where
  "wake_req = \<lparr>rq_Method = ''POST'', rq_Body = Some (encode_request_count \<lparr>rc_Count = 1, rc_Svc = ''web'', rc_Namespace = ''shop''\<rparr>)\<rparr>"

definition web_details :: crd_details where
  "web_details = \<lparr>CRDName = ''web-es'', cd_Spec = sample_spec, cd_Status = Status sample_es\<rparr>"

definition served_op :: "unit op_st" where
  "served_op = start_op\<lparr>directory := Some (Store sm_empty ''shop/web'' web_details)\<rparr>"

lemma wake_req_body: "Unmarshal decode_request_count zero_request_count (rq_Body wake_req) =
    Inr \<lparr>rc_Count = 1, rc_Svc = ''web'', rc_Namespace = ''shop''\<rparr>"
  unfolding wake_req_def by (simp add: count.unmarshal in_int_def)

lemma served_web: "GetCRD (nn_string \<lparr>nn_namespace = ''shop'', nn_name = ''web''\<rparr>) (directory served_op) = Ok (Some web_details)"
  by (simp add: GetCRD_def served_op_def nn_string_def)


section \<open>A request wakes its target\<close>

text \<open>A cluster that accepts what it is asked and shows the scale \<open>sc\<close> of the target.\<close>

definition willing :: "('w, 'x) api_scheme \<Rightarrow> string \<Rightarrow> es_spec \<Rightarrow> gvk \<Rightarrow> scale \<Rightarrow> bool" where
  "willing api ns spec g sc \<longleftrightarrow>
     (let ref = fst (GetScaleTargetRef spec) in
      APIVersionStrToGVK api (tr_APIVersion ref) (tr_Kind ref) = Inr g \<and>
      (\<forall>wr w. fst (a_write api wr w) = Inr ()) \<and>
      (\<forall>w. fst (a_getScale api ns (target_resource g) (tr_Name ref) w) = Inr sc))"

lemma willing_write:
  fixes s :: "('w, 'z) st_scheme"
  assumes "willing api ns spec g sc"
  obtains w where "api_write api wr s = (Ok (), s\<lparr>world := w, writes := writes s @ [(wr, True)]\<rparr>)"
proof -
  have "fst (a_write api wr (world s)) = Inr ()" using assms by (auto simp: willing_def Let_def)
  then show thesis using that by (cases "a_write api wr (world s)") (simp add: api_write_def)
qed

lemma willing_scales:
  fixes s :: "('w, 'z) st_scheme"
  assumes will: "willing api ns spec g sc" and below: "sc_StatusReplicas sc < min_replicas spec"
  obtains s' where "ScaleToMinReplicas api ns spec s = (Ok True, s')"
    and "(UpdateScale ns (target_resource g) (tr_Name (fst (GetScaleTargetRef spec))) (sc\<lparr>sc_SpecReplicas := min_replicas spec\<rparr>), True) \<in> set (writes s')"
proof -
  define name where "name = tr_Name (fst (GetScaleTargetRef spec))"
  let ?up = "UpdateScale ns (target_resource g) name (sc\<lparr>sc_SpecReplicas := min_replicas spec\<rparr>)"
  obtain w where "a_getScale api ns (target_resource g) name (world s) = (Inr sc, w)"
    using will unfolding willing_def Let_def name_def by (metis prod.collapse)
  from get_scale_ok [OF this, of 1]
  have get: "get_scale api 2 ns (target_resource g) name s = (Ok sc, s\<lparr>world := w\<rparr>)"
    by (simp add: numeral_2_eq_2)
  obtain w1 where w1: "api_write api ?up (s\<lparr>world := w\<rparr>) = (Ok (), s\<lparr>world := w1, writes := writes s @ [(?up, True)]\<rparr>)"
    using willing_write [OF will, of ?up "s\<lparr>world := w\<rparr>"] by auto
  let ?ev = "RecordEvent ns name ''Normal'' ''SuccessToScale''"
  obtain w2 where w2: "api_write api ?ev (s\<lparr>world := w1, writes := writes s @ [(?up, True)]\<rparr>) =
      (Ok (), s\<lparr>world := w2, writes := writes s @ [(?up, True), (?ev, True)]\<rparr>)"
    using willing_write [OF will, of ?ev "s\<lparr>world := w1, writes := writes s @ [(?up, True)]\<rparr>"] by auto
  have "Scale api ns g name (min_replicas spec) s = (Ok True, s\<lparr>world := w2, writes := writes s @ [(?up, True), (?ev, True)]\<rparr>)"
    using below by (simp add: Scale_def Let_def get w1 createEvent_def w2)
  moreover have "(if MinTargetReplicas spec < 1 then 1 else MinTargetReplicas spec) = min_replicas spec"
    by (simp add: min_replicas_def)
  ultimately show thesis
    using that will by (simp add: ScaleToMinReplicas_def Let_def willing_def name_def attempt_def handle_run pure_call_def)
qed

text \<open>
  A request for a registered service reaches its target. If the cluster accepts what it is
  asked and the target runs fewer replicas than its minimum, the operator sends an update of the
  scale of exactly that target to the minimum, whether or not KEDA manages it.
\<close>

lemma request_wakes_target:
  fixes s :: "('w, 'z) op_st_scheme"
  assumes target: "wake_target written req (directory s) = Some (ns, crd)"
    and will: "willing api ns (cd_Spec crd) g sc" and below: "sc_StatusReplicas sc < min_replicas (cd_Spec crd)"
  shows "(UpdateScale ns (target_resource g) (tr_Name (fst (GetScaleTargetRef (cd_Spec crd))))
      (sc\<lparr>sc_SpecReplicas := min_replicas (cd_Spec crd)\<rparr>), True) \<in> set (writes (snd (resolverReqHandler api written req s)))"
    (is "?up \<in> _")
proof -
  have up: "\<exists>t. scale_up api ns crd s = (Ok (), t) \<and> ?up \<in> set (writes t)" for s :: "('w, 'z) op_st_scheme"
    by (rule willing_scales [OF will below, of s]) (simp add: scale_up_def)
  have woken: "\<exists>t. wake api ns crd s = (Ok (), t) \<and> ?up \<in> set (writes t)" for s :: "('w, 'z) op_st_scheme"
  proof (cases "is_keda (cd_Spec crd)")
    case None
    then show ?thesis using up by (simp add: wake_None)
  next
    case (Some so)
    obtain w where "api_write api (PatchScaledObject ns so (keda_patch False)) s =
        (Ok (), s\<lparr>world := w, writes := writes s @ [(PatchScaledObject ns so (keda_patch False), True)]\<rparr>)"
      using willing_write [OF will, of "PatchScaledObject ns so (keda_patch False)" s] by auto
    then show ?thesis using Some up by (simp add: wake_Some UpdateKedaScaledObjectPausedState_def)
  qed
  obtain body where body: "rq_Method req = ''POST''" written "Unmarshal decode_request_count zero_request_count (rq_Body req) = Inr body"
      "ns = rc_Namespace body" "GetCRD (nn_string \<lparr>nn_namespace = ns, nn_name = rc_Svc body\<rparr>) (directory s) = Ok (Some crd)"
    using target by (auto simp: wake_target_def split: if_splits sum.splits outcome.splits option.splits)
  obtain t ok w where "ignoring (UpdateLastScaledUpTime api (CRDName crd) ns) (wake api ns crd) s =
      wake api ns crd (s\<lparr>world := w, writes := writes s @ [(PatchLastScaledUp ns (CRDName crd) t, ok)]\<rparr>)"
    by (rule stamped_first)
  with woken obtain s' where "scaleTargetForService api (rc_Svc body) ns s = (Ok (), s')" "?up \<in> set (writes s')"
    using body(5) by (auto simp: scaleTargetForService_run)
  then show ?thesis using body by (simp add: resolverReqHandler_def Let_def)
qed

end
