(* ===== verification/Rpc_Client.thy ===== *)
theory Rpc_Client
  imports Wire
begin

text \<open>
  The resolver's client of the operator (\<^verbatim>\<open>src/resolver/internal/operator/RPCClient.go\<close>). A
  call of \<^verbatim>\<open>SendIncomingRequestInfo\<close> takes the lock of the service and posts; when it returns, the
  deferred \<^verbatim>\<open>time.AfterFunc\<close> starts the timer that gives the lock back. Calls, their returns and
  the timers of many services interleave; each is one step. The HTTP exchange is an argument.
\<close>

record operator_client =
  serviceRPCLocks :: "(string, bool) sync_map"     \<comment> \<open>the mutex of a service: whether locked\<close>
  operatorURL :: string
  incomingRequestEndpoint :: string
  calls :: "string list"                           \<comment> \<open>calls that hold a lock and have not returned\<close>
  timers :: "string list"                          \<comment> \<open>timers that have not fired\<close>
  posts :: "(string \<times> json) list"                 \<comment> \<open>the requests handed to the HTTP client\<close>

definition elastiServiceCacheEndpoint :: string where "elastiServiceCacheEndpoint = ''/crd-cache''"

definition JoinHostPort :: "string \<Rightarrow> string \<Rightarrow> string" where
  "JoinHostPort host port = (if CHR '':'' \<in> set host then ''['' @ host @ '']:'' @ port else host @ '':'' @ port)"

definition NewOperatorClientWithURL :: "string \<Rightarrow> operator_client" where
  "NewOperatorClientWithURL baseURL =
     \<lparr>serviceRPCLocks = sm_empty, operatorURL = baseURL, incomingRequestEndpoint = ''/informer/incoming-request'',
      calls = [], timers = [], posts = []\<rparr>"

definition NewOperatorClient :: "env \<Rightarrow> string + operator_client" where
  "NewOperatorClient Getenv =
     seq_panic (GetOperatorConfig Getenv) (\<lambda>operatorConfig.
     seq_panic (GetKubernetesClusterDomain Getenv) (\<lambda>domain.
       let operatorHost = ServiceName operatorConfig @ ''.'' @ Namespace operatorConfig @ ''.svc.'' @ domain;
           operatorHostPort = JoinHostPort operatorHost (Itoa_int (Port operatorConfig))
       in Inr (NewOperatorClientWithURL (''http://'' @ operatorHostPort))))"

definition getMutexForServiceRPC :: "string \<Rightarrow> operator_client \<Rightarrow> bool \<times> operator_client" where
  "getMutexForServiceRPC service c =
     (case LoadOrStore (serviceRPCLocks c) service False of
        ((m, loaded), locks) \<Rightarrow> (loaded, c\<lparr>serviceRPCLocks := locks\<rparr>))"

text \<open>
  The call up to the answer of the operator. Whether the operator answers, and with what status,
  only decides what is logged. The mutex is new, so \<^verbatim>\<open>Lock\<close> does not block.
\<close>

definition SendIncomingRequestInfo :: "libs \<Rightarrow> string \<Rightarrow> string \<Rightarrow> operator_client \<Rightarrow> operator_client" where
  "SendIncomingRequestInfo l ns svc c =
     (let (taken, c1) = getMutexForServiceRPC svc c in
      if taken then c1
      else (let c2 = c1\<lparr>serviceRPCLocks := Store (serviceRPCLocks c1) svc True, calls := svc # calls c1\<rparr>;
                requestBody = \<lparr>rc_Count = 1, rc_Svc = svc, rc_Namespace = ns\<rparr>;
                url = operatorURL c2 @ incomingRequestEndpoint c2
            in case NewRequest l url of
                 Inl err \<Rightarrow> c2
               | Inr _ \<Rightarrow> c2\<lparr>posts := posts c2 @ [(url, encode_request_count requestBody)]\<rparr>))"

text \<open>The return of a call that took the lock.\<close>

definition call_returns :: "string \<Rightarrow> operator_client \<Rightarrow> operator_client" where
  "call_returns svc c = c\<lparr>calls := remove1 svc (calls c), timers := svc # timers c\<rparr>"

text \<open>Unlocking a mutex that is not locked is a fatal error.\<close>

definition releaseMutexForServiceRPC :: "string \<Rightarrow> operator_client \<Rightarrow> operator_client outcome" where
  "releaseMutexForServiceRPC service c =
     (case Load (serviceRPCLocks c) service of
        None \<Rightarrow> Ok c
      | Some locked \<Rightarrow>
          if locked then Ok (c\<lparr>serviceRPCLocks := Delete (serviceRPCLocks c) service\<rparr>)
          else Panic ''unlock of unlocked mutex'')"

definition timer_fires :: "string \<Rightarrow> operator_client \<Rightarrow> operator_client outcome" where
  "timer_fires svc c = releaseMutexForServiceRPC svc (c\<lparr>timers := remove1 svc (timers c)\<rparr>)"

definition GetElastiServiceCache ::
  "libs \<Rightarrow> go_error + http_response \<Rightarrow> operator_client \<Rightarrow> go_error + (string \<rightharpoonup> cache_entry)" where
  "GetElastiServiceCache l resp c =
     (case NewRequest l (operatorURL c @ elastiServiceCacheEndpoint) of
        Inl err \<Rightarrow> Inl (EWrap ''GetElastiServiceCache: failed to create request'' err)
      | Inr _ \<Rightarrow>
     (case resp of
        Inl err \<Rightarrow> Inl (EWrap ''GetElastiServiceCache: request failed'' err)
      | Inr r \<Rightarrow>
          if http_status r \<noteq> 200 then Inl (EMsg ''GetElastiServiceCache: operator returned status'')
          else (case Unmarshal decode_cache Map.empty (http_body r) of
                  Inl err \<Rightarrow> Inl (EWrap ''GetElastiServiceCache: failed to decode response'' err)
                | Inr services \<Rightarrow> Inr services)))"

section \<open>Interleavings\<close>

datatype client_event = Call string string | Return string | Fire string

text \<open>Only a call that is running returns, and only a timer that is pending fires.\<close>

fun client_step :: "libs \<Rightarrow> client_event \<Rightarrow> operator_client \<Rightarrow> operator_client outcome" where
  "client_step l (Call ns svc) c = Ok (SendIncomingRequestInfo l ns svc c)"
| "client_step l (Return svc) c = Ok (if svc \<in> set (calls c) then call_returns svc c else c)"
| "client_step l (Fire svc) c = (if svc \<in> set (timers c) then timer_fires svc c else Ok c)"

fun client_run :: "libs \<Rightarrow> client_event list \<Rightarrow> operator_client \<Rightarrow> operator_client outcome" where
  "client_run l [] c = Ok c"
| "client_run l (e # es) c = (case client_step l e c of Ok c' \<Rightarrow> client_run l es c' | Err err \<Rightarrow> Err err | Panic p \<Rightarrow> Panic p)"

definition posts_for :: "string \<Rightarrow> operator_client \<Rightarrow> nat" where
  "posts_for svc c = length (filter (\<lambda>(url, b). rc_Svc (fst (decode_request_count b zero_request_count)) = svc) (posts c))"

section \<open>The lock of a service\<close>

text \<open>A service is locked exactly while a call or a timer for it is pending, and there is one of these at most.\<close>

definition client_inv :: "operator_client \<Rightarrow> bool" where
  "client_inv c \<longleftrightarrow> distinct (calls c @ timers c) \<and>
     (\<forall>k. Load (serviceRPCLocks c) k = (if k \<in> set (calls c @ timers c) then Some True else None))"

lemma client_invD:
  "client_inv c \<Longrightarrow> Load (serviceRPCLocks c) k = (if k \<in> set (calls c @ timers c) then Some True else None)"
  by (simp add: client_inv_def)

lemma Send_locked: "Load (serviceRPCLocks c) svc = Some b \<Longrightarrow> SendIncomingRequestInfo l ns svc c = c"
  by (simp add: SendIncomingRequestInfo_def getMutexForServiceRPC_def LoadOrStore_present)

lemma Send_unlocked:
  assumes "Load (serviceRPCLocks c) svc = None"
  shows "calls (SendIncomingRequestInfo l ns svc c) = svc # calls c"
    and "timers (SendIncomingRequestInfo l ns svc c) = timers c"
    and "Load (serviceRPCLocks (SendIncomingRequestInfo l ns svc c)) k = (if k = svc then Some True else Load (serviceRPCLocks c) k)"
    and "posts (SendIncomingRequestInfo l ns svc c) = posts c @
      (if isl (NewRequest l (operatorURL c @ incomingRequestEndpoint c)) then []
       else [(operatorURL c @ incomingRequestEndpoint c, encode_request_count \<lparr>rc_Count = 1, rc_Svc = svc, rc_Namespace = ns\<rparr>)])"
  using assms
  by (simp_all add: SendIncomingRequestInfo_def getMutexForServiceRPC_def LoadOrStore_absent Let_def split: sum.split)

text \<open>
  One step keeps the invariant and never unlocks an unlocked mutex; it adds a post for a service
  only by locking the service, and only the timer of the service unlocks it.
\<close>

definition locked :: "string \<Rightarrow> operator_client \<Rightarrow> nat" where
  "locked svc c = (if Load (serviceRPCLocks c) svc = None then 0 else 1)"

lemma client_step_inv:
  assumes "client_inv c"
  shows "\<exists>c'. client_step l e c = Ok c' \<and> client_inv c' \<and>
    posts_for svc c' + locked svc c \<le> posts_for svc c + locked svc c' + count_list [e] (Fire svc)"
proof (cases e)
  case (Call ns svc')
  show ?thesis
  proof (cases "Load (serviceRPCLocks c) svc'")
    case None
    let ?o = "SendIncomingRequestInfo l ns svc' c"
    have "client_inv ?o"
      using assms None by (auto simp: client_inv_def Send_unlocked split: if_splits)
    moreover have "posts_for svc ?o \<le> posts_for svc c + (if svc' = svc then 1 else 0)"
      by (auto simp: posts_for_def Send_unlocked [OF None] count.round_trip in_int_def)
    ultimately show ?thesis
      using None Call by (auto simp: locked_def Send_unlocked)
  qed (use assms Call in \<open>auto simp: Send_locked\<close>)
next
  case (Return svc')
  then show ?thesis
    using assms by (auto simp: client_inv_def call_returns_def posts_for_def locked_def distinct_remove1)
next
  case (Fire svc')
  show ?thesis
  proof (cases "svc' \<in> set (timers c)")
    case True
    then have "Load (serviceRPCLocks c) svc' = Some True" using client_invD [OF assms] by simp
    then have "timer_fires svc' c = Ok (c\<lparr>timers := remove1 svc' (timers c), serviceRPCLocks := Delete (serviceRPCLocks c) svc'\<rparr>)"
      by (simp add: timer_fires_def releaseMutexForServiceRPC_def)
    then show ?thesis
      using assms True Fire by (auto simp: client_inv_def posts_for_def locked_def distinct_remove1)
  qed (use assms Fire in auto)
qed

lemma client_run_inv:
  assumes "client_inv c"
  shows "\<exists>c'. client_run l es c = Ok c' \<and> client_inv c' \<and>
    posts_for svc c' + locked svc c \<le> posts_for svc c + locked svc c' + count_list es (Fire svc)"
  using assms
proof (induction es arbitrary: c)
  case (Cons e es)
  obtain c1 where c1: "client_step l e c = Ok c1" "client_inv c1"
      "posts_for svc c1 + locked svc c \<le> posts_for svc c + locked svc c1 + count_list [e] (Fire svc)"
    using client_step_inv [OF Cons.prems] by blast
  obtain c2 where "client_run l es c1 = Ok c2" "client_inv c2"
      "posts_for svc c2 + locked svc c1 \<le> posts_for svc c1 + locked svc c2 + count_list es (Fire svc)"
    using Cons.IH [OF c1(2)] by blast
  with c1 show ?case by (intro exI [of _ c2]) auto
qed simp

lemma new_client_inv: "client_inv (NewOperatorClientWithURL url)"
  by (simp add: client_inv_def NewOperatorClientWithURL_def)

text \<open>
  C24: the resolver does not flood the operator. Whatever calls, returns and timers interleave, no
  mutex is unlocked that is not locked, and in every stretch of a run the operator gets at most one
  request for a service more than timers of the service fire in that stretch: between two requests
  for a service its retry duration has passed.
\<close>

theorem operator_request_rate:
  "\<exists>c1 c2. client_run l before (NewOperatorClientWithURL url) = Ok c1 \<and> client_run l window c1 = Ok c2 \<and>
     posts_for svc c2 \<le> posts_for svc c1 + count_list window (Fire svc) + 1"
proof -
  obtain c1 where c1: "client_run l before (NewOperatorClientWithURL url) = Ok c1" "client_inv c1"
    using client_run_inv [OF new_client_inv] by blast
  obtain c2 where "client_run l window c1 = Ok c2"
      "posts_for svc c2 + locked svc c1 \<le> posts_for svc c1 + locked svc c2 + count_list window (Fire svc)"
    using client_run_inv [OF c1(2)] by blast
  moreover have "locked svc c2 \<le> 1" by (simp add: locked_def)
  ultimately show ?thesis using c1 by (intro exI [of _ c1] exI [of _ c2]) simp
qed

text \<open>
  The lock is keyed by the name of the service alone. While a request for a service of one
  namespace holds it, a request for a service of the same name in another namespace is dropped.
\<close>

theorem request_of_other_namespace_dropped:
  "SendIncomingRequestInfo l ns' svc (SendIncomingRequestInfo l ns svc c) = SendIncomingRequestInfo l ns svc c"
proof (cases "Load (serviceRPCLocks c) svc")
  case None
  then show ?thesis by (intro Send_locked [where b = True]) (simp add: Send_unlocked)
next
  case (Some b)
  then show ?thesis by (simp add: Send_locked)
qed

end
