(* ===== verification/Server_Start.thy ===== *)
theory Server_Start
  imports Elasti_Server Rpc_Client
begin

text \<open>
  The server of the operator as \<^verbatim>\<open>Start\<close> of
  \<^verbatim>\<open>src/operator/internal/elastiserver/elastiServer.go\<close> sets it up: its address, its routes and its
  graceful shutdown. What \<^verbatim>\<open>net/http\<close> does is an argument: how \<^verbatim>\<open>ListenAndServe\<close> and
  \<^verbatim>\<open>Shutdown\<close> end, and the reply of the handler of the metrics library. The patterns of the routes
  end in no slash, so that a route is taken by its exact path.
\<close>

definition TrimPrefix :: "string \<Rightarrow> string \<Rightarrow> string" where
  "TrimPrefix s t = (if HasPrefix s t then drop (length t) s else s)"

definition server_addr :: "string \<Rightarrow> string" where
  "server_addr port = '':'' @ TrimPrefix port '':''"

datatype server_handler = Serve_metrics | Serve_resolver_request | Serve_crd_cache

definition server_mux :: "string \<Rightarrow> server_handler option" where
  "server_mux path =
     map_of [(''/metrics'', Serve_metrics), (''/informer/incoming-request'', Serve_resolver_request), (''/crd-cache'', Serve_crd_cache)] path"

text \<open>
  A request at the server: \<open>metrics\<close> is the reply of \<^verbatim>\<open>promhttp\<close>, \<open>keys\<close> and \<open>written\<close> are the
  arguments of the two handlers; the mux answers 404 where it has no route.
\<close>

definition server_serve ::
  "libs \<Rightarrow> ('w, 'x) api_scheme \<Rightarrow> reply \<Rightarrow> string list \<Rightarrow> bool \<Rightarrow> string \<Rightarrow> http_req \<Rightarrow> (('w, 'z) op_st_scheme, reply) prog" where
  "server_serve l api metrics keys written path req =
     (case server_mux path of
        None \<Rightarrow> ret \<lparr>rp_Status = 404, rp_Body = Text ''404 page not found''\<rparr>
      | Some Serve_metrics \<Rightarrow> ret metrics
      | Some Serve_resolver_request \<Rightarrow> resolverReqHandler api written req
      | Some Serve_crd_cache \<Rightarrow> crdCacheHandler l keys req)"

section \<open>Shutdown\<close>

datatype listen_end = Server_closed | Listen_failed go_error

record server_env =
  se_quit :: bool                             \<comment> \<open>a signal has been received\<close>
  se_Shutdown :: "go_error option option"     \<comment> \<open>what \<^verbatim>\<open>Shutdown\<close> returns, if it does\<close>
  se_Listen :: "listen_end option"            \<comment> \<open>what \<^verbatim>\<open>ListenAndServe\<close> returns, if it does\<close>

text \<open>The goroutine closes \<^verbatim>\<open>done\<close> whether or not the shutdown succeeded. \<open>None\<close>: does not return.\<close>

definition done_closed :: "server_env \<Rightarrow> bool" where
  "done_closed se \<longleftrightarrow> se_quit se \<and> se_Shutdown se \<noteq> None"

definition Start_server :: "server_env \<Rightarrow> go_error option option" where
  "Start_server se =
     (case se_Listen se of
        None \<Rightarrow> None
      | Some (Listen_failed e) \<Rightarrow> Some (Some (EWrap ''failed to start ElastiServer'' e))
      | Some Server_closed \<Rightarrow> if done_closed se then Some None else None)"

text \<open>
  The documented behaviour of \<^verbatim>\<open>net/http\<close>: \<^verbatim>\<open>ListenAndServe\<close> returns \<^verbatim>\<open>ErrServerClosed\<close> once
  \<^verbatim>\<open>Shutdown\<close> was called, and only then. \<^verbatim>\<open>Shutdown\<close> returns by the end of its context, 30 seconds
  later, at the latest.
\<close>

definition http_server_ok :: "server_env \<Rightarrow> bool" where
  "http_server_ok se \<longleftrightarrow> (se_Listen se = Some Server_closed \<longrightarrow> se_quit se) \<and>
     (se_quit se \<longrightarrow> se_Listen se \<noteq> None \<and> se_Shutdown se \<noteq> None)"

lemma Start_server_returns:
  assumes "http_server_ok se"
  shows "Start_server se \<noteq> None \<longleftrightarrow> se_Listen se \<noteq> None"
    and "Start_server se = Some None \<Longrightarrow> se_quit se"
    and "se_quit se \<Longrightarrow> Start_server se \<noteq> None"
  using assms by (auto simp: http_server_ok_def Start_server_def done_closed_def split: option.splits listen_end.splits if_splits)

section \<open>Where the resolver finds the server\<close>

lemma server_addr_config: "server_addr ('':'' @ Itoa_int port) = '':'' @ Itoa_int port"
  by (simp add: server_addr_def TrimPrefix_def HasPrefix_def)

lemma client_step_endpoints:
  "client_step l e c = Ok c' \<Longrightarrow> operatorURL c' = operatorURL c \<and> incomingRequestEndpoint c' = incomingRequestEndpoint c"
  by (cases e) (auto simp: SendIncomingRequestInfo_def getMutexForServiceRPC_def call_returns_def timer_fires_def
      releaseMutexForServiceRPC_def Let_def
      split: if_splits prod.splits sum.splits option.splits outcome.splits)

lemma client_run_endpoints:
  "client_run l es c = Ok c' \<Longrightarrow> operatorURL c' = operatorURL c \<and> incomingRequestEndpoint c' = incomingRequestEndpoint c"
  by (induction es arbitrary: c) (auto split: outcome.splits dest: client_step_endpoints)

text \<open>Both endpoints of the client are routes of the server, with the handlers they are meant for.\<close>

lemma server_mux_endpoints:
  "client_run l es (NewOperatorClientWithURL url) = Ok c \<Longrightarrow> server_mux (incomingRequestEndpoint c) = Some Serve_resolver_request"
  "server_mux elastiServiceCacheEndpoint = Some Serve_crd_cache"
  using client_run_endpoints [of l es "NewOperatorClientWithURL url" c]
  by (simp_all add: server_mux_def NewOperatorClientWithURL_def elastiServiceCacheEndpoint_def)

lemma server_serve_endpoints:
  "client_run l' es (NewOperatorClientWithURL url) = Ok c \<Longrightarrow>
     server_serve l api metrics keys written (incomingRequestEndpoint c) req = resolverReqHandler api written req"
  "server_serve l api metrics keys written elastiServiceCacheEndpoint req = crdCacheHandler l keys req"
  by (simp_all add: server_serve_def server_mux_endpoints)

end
