(* ===== verification/Lifecycle.thy ===== *)
theory Lifecycle
  imports Controller
begin

text \<open>
  The life of an ElastiService in the operator: what a successful \<^verbatim>\<open>Reconcile\<close> leaves behind,
  what has to be done before the finalizer is removed, that no informer is leaked on the way, and
  that everything stays in the namespace of the request.
\<close>

section \<open>Frames\<close>

text \<open>Programs that only talk to the API server leave the memory of the operator alone.\<close>

abbreviation memory :: "'m \<Rightarrow> ('w, 'm) st_scheme \<Rightarrow> bool" where
  "memory m s \<equiv> st.more s = m"

lemma memory_updates [simp]:
  "st.more (s\<lparr>world := w\<rparr>) = st.more s" "st.more (s\<lparr>writes := l\<rparr>) = st.more s"
  by (cases s; simp)+

lemma memory_op:
  assumes "st.more (s' :: ('w, 'z) op_st_scheme) = st.more (s :: ('w, 'z) op_st_scheme)"
  shows "directory s' = directory s" "informers s' = informers s" "running s' = running s"
    "next_id s' = next_id s" "startLocks s' = startLocks s"
  using assms by (cases s; cases s'; simp)+

lemma keeps_get_scale [keeps_intro]: "keeps (memory m) (get_scale api n ns gr name)"
proof (induction n)
  case (Suc n)
  show ?case unfolding get_scale.simps
    by (intro keeps_intro Suc.IH) simp_all
qed (simp add: keeps_def)

lemma keeps_event [keeps_intro]: "keeps (memory m) k \<Longrightarrow> keeps (memory m) (createEvent api ns name t r k)"
  unfolding createEvent_def by (intro keeps_intro) simp_all

lemma keeps_Scale [keeps_intro]: "keeps (memory m) (Scale api ns g name d)"
  unfolding Scale_def Let_def by (intro keeps_intro) simp_all

lemma keeps_ScaleToMinReplicas [keeps_intro]: "keeps (memory m) (ScaleToMinReplicas api ns spec)"
  unfolding ScaleToMinReplicas_def Let_def by (intro keeps_intro)

lemma keeps_Keda [keeps_intro]: "keeps (memory m) (UpdateKedaScaledObjectPausedState api so ns b)"
  unfolding UpdateKedaScaledObjectPausedState_def by (intro keeps_intro) simp_all

lemma keeps_deleteSlice [keeps_intro]: "keeps (memory m) (deleteEndpointsliceToResolver api n)"
  unfolding deleteEndpointsliceToResolver_def by (intro keeps_intro) simp_all

lemma keeps_deletePrivate [keeps_intro]: "keeps (memory m) (deletePrivateService api n)"
  unfolding deletePrivateService_def by (intro keeps_intro) simp_all

section \<open>Deletions\<close>

fun is_delete :: "kube_write \<Rightarrow> bool" where
  "is_delete (DeleteSlice _) = True"
| "is_delete (DeleteService _) = True"
| "is_delete _ = False"

text \<open>Every deletion requested from \<open>l\<close> to \<open>l'\<close> was accepted.\<close>

definition deletes_ok :: "(kube_write \<times> bool) list \<Rightarrow> (kube_write \<times> bool) list \<Rightarrow> bool" where
  "deletes_ok l l' \<longleftrightarrow> (\<exists>new. l' = l @ new \<and> (\<forall>(w, ok) \<in> set new. is_delete w \<longrightarrow> ok))"

lemma deletes_ok_refl [simp]: "deletes_ok l l"
  by (simp add: deletes_ok_def)

lemma deletes_ok_snoc: "deletes_ok l l' \<Longrightarrow> (is_delete w \<Longrightarrow> ok) \<Longrightarrow> deletes_ok l (l' @ [(w, ok)])"
  by (fastforce simp: deletes_ok_def)

lemma deletes_ok_trans: "deletes_ok l l' \<Longrightarrow> deletes_ok l' l'' \<Longrightarrow> deletes_ok l l''"
  by (fastforce simp: deletes_ok_def)

lemma deletes_ok_asks: "asks (\<lambda>w. \<not> is_delete w) m \<Longrightarrow> deletes_ok (writes s) (writes (snd (m s)))"
  unfolding asks_def deletes_ok_def by fast

lemma write_run_ok: "attempt (api_write api w) msg ret s = (Ok (), s') \<Longrightarrow> writes s' = writes s @ [(w, True)]"
  by (cases rule: api_write_cases [of api w s]) auto

lemma deleteSlice_ok:
  assumes "deleteEndpointsliceToResolver api n s = (Ok (), s')"
  shows "deletes_ok (writes s) (writes s')"
proof -
  let ?f = "a_getSlice api (n\<lparr>nn_name := GetEndpointSliceToResolverName (nn_name n)\<rparr>)"
  obtain w where "api_read ?f s = (lift_sum (fst (?f (world s))), s\<lparr>world := w\<rparr>)"
    using api_read_run [of ?f s] by blast
  then show ?thesis using assms
    by (cases "fst (?f (world s))")
      (auto simp: deleteEndpointsliceToResolver_def deletes_ok_snoc dest!: write_run_ok split: if_splits)
qed

lemma deletePrivate_ok:
  assumes "deletePrivateService api n s = (Ok (), s')"
  shows "deletes_ok (writes s) (writes s')"
proof -
  let ?f = "a_getService api (n\<lparr>nn_name := GetPrivateServiceName (nn_name n)\<rparr>)"
  obtain w where "api_read ?f s = (lift_sum (fst (?f (world s))), s\<lparr>world := w\<rparr>)"
    using api_read_run [of ?f s] by blast
  then show ?thesis using assms
    by (cases "fst (?f (world s))")
      (auto simp: deletePrivateService_def deletes_ok_snoc dest!: write_run_ok split: if_splits)
qed

lemma error_of_run: "error_of m s = (Ok err, s') \<Longrightarrow> (err = None \<and> m s = (Ok (), s')) \<or> (\<exists>e. err = Some e \<and> m s = (Err e, s'))"
  by (cases rule: handle_cases [of m s "\<lambda>e. ret (Some e)" "\<lambda>_. ret None"]) (auto simp: error_of_def)

section \<open>Clean-up\<close>

text \<open>The informers of a request are stopped and its start locks are free.\<close>

definition stopped :: "nsname \<Rightarrow> ('w, 'z) op_st_scheme \<Rightarrow> bool" where
  "stopped req s \<longleftrightarrow>
     (\<forall>k. HasPrefix k (crd_prefix (nn_name req) (nn_namespace req)) \<longrightarrow> Load (informers s) k = None) \<and>
     Load (startLocks s) (getMutexKeyForTargetRef req) = None \<and> Load (startLocks s) (getMutexKeyForPublicSVC req) = None"

text \<open>What one task, or a sequence of tasks, does to the memory of the operator.\<close>

definition tidied :: "('w, 'z) op_st_scheme \<Rightarrow> ('w, 'z) op_st_scheme \<Rightarrow> bool" where
  "tidied s s' \<longleftrightarrow> inf_inv s' \<and> directory s' = directory s \<and>
     dom (informers s') \<subseteq> dom (informers s) \<and> dom (startLocks s') \<subseteq> dom (startLocks s)"

lemma tidied_trans: "tidied s s' \<Longrightarrow> tidied s' s'' \<Longrightarrow> tidied s s''"
  unfolding tidied_def by (simp, blast)

lemma tidied_memory: "st.more s' = st.more s \<Longrightarrow> inf_inv s \<Longrightarrow> tidied s s'"
  using memory_op [of s' s] unfolding tidied_def inf_inv_def by simp

lemma Load_None_dom: "Load m k = None \<longleftrightarrow> k \<notin> dom m"
  by (simp add: Load_def domIff)

lemma stopped_tidied: "stopped req s \<Longrightarrow> tidied s s' \<Longrightarrow> stopped req s'"
  unfolding tidied_def stopped_def Load_None_dom by blast

definition covers :: "string list \<Rightarrow> ('w, 'z) op_st_scheme \<Rightarrow> bool" where
  "covers keys s \<longleftrightarrow> distinct keys \<and> (\<forall>k. Load (informers s) k \<noteq> None \<longrightarrow> k \<in> set keys)"

lemma covers_tidied: "covers keys s \<Longrightarrow> tidied s s' \<Longrightarrow> covers keys s'"
  unfolding covers_def tidied_def Load_None_dom by blast

lemma stop_task_run:
  assumes inv: "inf_inv s" and cov: "covers keys s"
  shows "\<exists>s'. run_cleanup api keys es req StopInformers s = (Ok None, s') \<and> tidied s s' \<and> stopped req s' \<and> writes s' = writes s"
proof -
  obtain s1 where s1: "StopForCRD keys (nn_name req) (nn_namespace req) s = (Ok (), s1)" "inf_inv s1"
      "\<forall>k. Load (informers s1) k = (if k \<in> set keys \<and> HasPrefix k (crd_prefix (nn_name req) (nn_namespace req)) then None else Load (informers s) k)"
      "startLocks s1 = startLocks s" "directory s1 = directory s" "writes s1 = writes s"
    using stop_keys_run [OF inv, of keys "\<lambda>k. HasPrefix k (crd_prefix (nn_name req) (nn_namespace req))"] cov
    unfolding StopForCRD_def covers_def by blast
  let ?s2 = "s1\<lparr>startLocks := Delete (Delete (startLocks s1) (getMutexKeyForTargetRef req)) (getMutexKeyForPublicSVC req)\<rparr>"
  have "run_cleanup api keys es req StopInformers s = (Ok None, ?s2)"
    using s1(1) by (simp add: handle_run resetMutexForInformer_def)
  moreover have "inf_inv ?s2" using s1(2) by (simp add: inf_inv_def)
  moreover have "stopped req ?s2" using s1(3) cov by (auto simp: stopped_def covers_def)
  moreover have "dom (informers s1) \<subseteq> dom (informers s)"
    using s1(3) unfolding Load_def by (auto simp: dom_def split: if_splits)
  moreover have "dom (startLocks ?s2) \<subseteq> dom (startLocks s)"
    using s1(4) by (auto simp: Delete_def)
  ultimately show ?thesis using s1(5,6) by (intro exI [of _ ?s2]) (simp add: tidied_def)
qed

lemma keeps_error_of [keeps_intro]: "keeps I m \<Longrightarrow> keeps I (error_of m)"
  unfolding error_of_def by (intro keeps_intro)

lemma keeps_api_task: "task \<noteq> StopInformers \<Longrightarrow> keeps (memory m) (run_cleanup api keys es req task)"
  by (cases task) (auto intro!: keeps_intro split: option.splits)

lemma asks_error_of [asks_intro]: "asks P m \<Longrightarrow> asks P (error_of m)"
  unfolding error_of_def by (intro asks_intro)

lemma asks_unpause: "asks (\<lambda>w. \<not> is_delete w) (run_cleanup api keys es req UnpauseKeda)"
  by (auto intro!: asks_intro simp: UpdateKedaScaledObjectPausedState_def split: option.splits)

lemma run_cleanup_run:
  assumes inv: "inf_inv s" and cov: "covers keys s" and run: "run_cleanup api keys es req task s = (Ok err, s')"
  shows "tidied s s'" and "task = StopInformers \<Longrightarrow> stopped req s'" and "err = None \<Longrightarrow> deletes_ok (writes s) (writes s')"
proof -
  have api: "st.more s' = st.more s" if "task \<noteq> StopInformers"
    using keepsD [OF keeps_api_task [OF that] _ run, of "st.more s"] by simp
  show "tidied s s'"
    using stop_task_run [OF inv cov, of api es req] run tidied_memory [OF api inv] by (cases "task = StopInformers") auto
  show "stopped req s'" if "task = StopInformers"
    using stop_task_run [OF inv cov, of api es req] run that by auto
  show "deletes_ok (writes s) (writes s')" if "err = None"
  proof (cases task)
    case StopInformers
    then show ?thesis using stop_task_run [OF inv cov, of api es req] run by auto
  next
    case DeleteEndpointslice
    then have "deleteEndpointsliceToResolver api (service_key es) s = (Ok (), s')"
      using run that error_of_run [of "deleteEndpointsliceToResolver api (service_key es)" s err s'] by simp
    then show ?thesis by (rule deleteSlice_ok)
  next
    case DeletePrivateService
    then have "deletePrivateService api (service_key es) s = (Ok (), s')"
      using run that error_of_run [of "deletePrivateService api (service_key es)" s err s'] by simp
    then show ?thesis by (rule deletePrivate_ok)
  next
    case UnpauseKeda
    then show ?thesis using deletes_ok_asks [OF asks_unpause, of s api keys es req] run by simp
  qed
qed

lemma run_cleanups_run:
  "inf_inv s \<Longrightarrow> covers keys s \<Longrightarrow> run_cleanups api keys es req order s = (Ok results, s') \<Longrightarrow>
   tidied s s' \<and> map fst results = order \<and> (StopInformers \<in> set order \<longrightarrow> stopped req s') \<and>
   ((\<forall>t \<in> set results. snd t = None) \<longrightarrow> deletes_ok (writes s) (writes s'))"
proof (induction order arbitrary: s results)
  case (Cons task order)
  obtain x s1 where x: "run_cleanup api keys es req task s = (x, s1)" by fastforce
  with Cons.prems(3) obtain err where err: "x = Ok err" by (cases x) auto
  note t = run_cleanup_run [OF Cons.prems(1,2) x [unfolded err]]
  obtain y s2 where y: "run_cleanups api keys es req order s1 = (y, s2)" by fastforce
  with Cons.prems(3) x err obtain rs where rs: "y = Ok rs" "results = (task, err) # rs" "s' = s2" by (cases y) auto
  have "inf_inv s1" "covers keys s1" using t(1) Cons.prems by (auto simp: tidied_def covers_tidied)
  note ih = Cons.IH [OF this y [unfolded rs(1) rs(3) [symmetric]]]
  have "tidied s s'" using tidied_trans [OF t(1)] ih by simp
  moreover have "stopped req s'" if "StopInformers \<in> set (task # order)"
    using that t(2) ih stopped_tidied by (cases "task = StopInformers") auto
  moreover have "deletes_ok (writes s) (writes s')" if "\<forall>t \<in> set results. snd t = None"
    using deletes_ok_trans [OF t(3)] ih that rs(2) by simp
  ultimately show ?case using ih rs(2) by simp
qed (simp add: tidied_def)

section \<open>The finalizer\<close>

lemma UNIV_cleanup: "UNIV = {StopInformers, DeleteEndpointslice, DeletePrivateService, UnpauseKeda}"
  using cleanup.exhaust by auto

lemma cleanup_results:
  assumes "map fst results = order" "distinct order" "set order = UNIV" "(StopInformers, err) \<in> set results \<Longrightarrow> err = None"
    and "Option.bind (map_of results DeleteEndpointslice) id = None"
    and "Option.bind (map_of results DeletePrivateService) id = None"
    and "Option.bind (map_of results UnpauseKeda) id = None"
  shows "(t, err) \<in> set results \<Longrightarrow> err = None"
proof -
  assume t: "(t, err) \<in> set results"
  then have "map_of results t = Some err" using assms(1,2) by (simp add: map_of_eq_Some_iff)
  then show "err = None" using assms(4-7) t by (cases t) auto
qed

lemma stop_task_None:
  "run_cleanups api keys es req order s = (Ok results, s') \<Longrightarrow> (StopInformers, err) \<in> set results \<Longrightarrow> err = None"
proof (induction order arbitrary: s results)
  case (Cons task order)
  obtain x s1 where x: "run_cleanup api keys es req task s = (x, s1)" by fastforce
  with Cons.prems(1) obtain e where e: "x = Ok e" by (cases x) auto
  obtain y s2 where y: "run_cleanups api keys es req order s1 = (y, s2)" by fastforce
  with Cons.prems(1) x e obtain rs where rs: "y = Ok rs" "results = (task, e) # rs" "s' = s2" by (cases y) auto
  have "e = None" if "task = StopInformers"
    using x e that by (auto simp: handle_run resetMutexForInformer_def split: outcome.splits prod.splits)
  then show ?case using Cons.IH [OF y [unfolded rs(1) rs(3) [symmetric]]] Cons.prems(2) rs(2) by auto
qed simp

text \<open>The last part of \<^verbatim>\<open>finalizeCRD\<close>, after the goroutines.\<close>

definition restore_target :: "('w, 'x) api_scheme \<Rightarrow> elasti_service \<Rightarrow> (('w, 'z) op_st_scheme, go_error option) prog" where
  "restore_target api es =
     error_of (handle (ScaleToMinReplicas api (es_Namespace es) (fst (GetSpec es))) fail (\<lambda>_. ret ()))"

lemma keeps_restore: "keeps (memory m) (restore_target api es)"
  unfolding restore_target_def by (intro keeps_intro)

lemma asks_restore: "(\<And>w. target_request (es_Namespace es) (fst (GetSpec es)) (min_replicas (fst (GetSpec es))) w \<Longrightarrow> P w) \<Longrightarrow>
    asks P (restore_target api es)"
  unfolding restore_target_def
  by (intro asks_error_of asks_handle asks_fail asks_ret asks_mono [OF ScaleToMinReplicas_asks])

lemma target_request_kinds: "target_request ns spec d w \<Longrightarrow> \<not> is_delete w \<and> (\<nexists>es. w = UpdateES es)"
  by (auto simp: target_request_def scale_request_def)

lemma finalizeCRD_eq:
  "finalizeCRD api keys order es req =
     handle (run_cleanups api keys es req order) fail (\<lambda>results.
     handle (restore_target api es) fail (\<lambda>err4.
     handle (change_directory (RemoveCRD (nn_string (service_key es)))) fail (\<lambda>_.
       if finalize_errors results (unless_not_found err4) \<noteq> []
       then fail (EJoin ''failed to finalize CRD'' (finalize_errors results (unless_not_found err4)))
       else ret (snd (GetSpec es)))))"
  by (simp add: finalizeCRD_def restore_target_def case_prod_beta Let_def)

lemma finalizeCRD_ok:
  assumes inv: "inf_inv s" and cov: "covers keys s" and order: "distinct order" "set order = UNIV"
    and run: "finalizeCRD api keys order es req s = (Ok es', s')"
  shows "es' = snd (GetSpec es) \<and> stopped req s' \<and> deletes_ok (writes s) (writes s') \<and>
    (\<exists>d. directory s' = Some d \<and> Load d (nn_string (service_key es)) = None)"
proof -
  obtain x s1 where x: "run_cleanups api keys es req order s = (x, s1)" by fastforce
  with run obtain results where results: "x = Ok results" by (cases x) (auto simp: finalizeCRD_eq)
  obtain y s2 where y: "restore_target api es s1 = (y, s2)" by fastforce
  with run x results obtain err4 where err4: "y = Ok err4" by (cases y) (auto simp: finalizeCRD_eq)
  obtain z s3 where z: "change_directory (RemoveCRD (nn_string (service_key es))) s2 = (z, s3)" by fastforce
  with run x results y err4 have ok: "z = Ok ()" by (cases z) (auto simp: finalizeCRD_eq)
  have fin: "finalize_errors results (unless_not_found err4) = []" "es' = snd (GetSpec es)" "s' = s3"
    using run x results y err4 z ok by (auto simp: finalizeCRD_eq split: if_splits)
  have none: "Option.bind (map_of results t) id = None" if "t \<in> {DeleteEndpointslice, DeletePrivateService, UnpauseKeda}" for t
    using fin(1) that by (auto simp: finalize_errors_def List.map_filter_def split: if_splits)
  note tasks = run_cleanups_run [OF inv cov x [unfolded results]]
  have "\<forall>t \<in> set results. snd t = None"
    using cleanup_results [of results order] tasks order none stop_task_None [OF x [unfolded results]] by force
  then have w1: "deletes_ok (writes s) (writes s1)" and st1: "stopped req s1" using tasks order by auto
  have "st.more s2 = st.more s1" using keepsD [OF keeps_restore _ y, of "st.more s1"] by simp
  note mem = memory_op [OF this]
  have w2: "deletes_ok (writes s1) (writes s2)"
    using deletes_ok_asks [OF asks_restore, of es s1 api] target_request_kinds y by fastforce
  obtain d where d: "directory s2 = Some d" "s3 = s2\<lparr>directory := Some (Delete d (nn_string (service_key es)))\<rparr>"
    using z ok by (auto simp: change_directory_def RemoveCRD_def split: option.splits)
  then show ?thesis using fin mem st1 deletes_ok_trans [OF w1 w2] by (simp add: stopped_def)
qed

lemma run_cleanup_asks:
  assumes "\<And>n. P (DeleteSlice n)" "\<And>n. P (DeleteService n)" "\<And>ns so p. P (PatchScaledObject ns so p)"
  shows "asks P (run_cleanup api keys es req task)"
proof (cases task)
  case StopInformers
  show ?thesis unfolding StopInformers run_cleanup.simps StopForCRD_def by (intro asks_intro)
next
  case DeleteEndpointslice
  show ?thesis unfolding DeleteEndpointslice run_cleanup.simps deleteEndpointsliceToResolver_def by (intro asks_intro assms)
next
  case DeletePrivateService
  show ?thesis unfolding DeletePrivateService run_cleanup.simps deletePrivateService_def by (intro asks_intro assms)
next
  case UnpauseKeda
  show ?thesis unfolding UnpauseKeda run_cleanup.simps UpdateKedaScaledObjectPausedState_def by (intro asks_intro assms)
qed

lemma run_cleanups_asks:
  fixes api :: "('w, 'x) api_scheme"
  assumes "\<And>task. asks P (run_cleanup api keys es req task :: (('w, 'z) op_st_scheme, go_error option) prog)"
  shows "asks P (run_cleanups api keys es req order :: (('w, 'z) op_st_scheme, (cleanup \<times> go_error option) list) prog)"
proof (induction order)
  case (Cons task order)
  show ?case unfolding run_cleanups.simps by (intro asks_intro assms Cons.IH)
qed (simp add: asks_def)

lemma finalizeCRD_no_update: "asks (\<lambda>w. \<nexists>es. w = UpdateES es) (finalizeCRD api keys order es req)"
  unfolding finalizeCRD_eq
  by (intro asks_handle asks_fail asks_if asks_ret asks_change_directory asks_restore run_cleanups_asks run_cleanup_asks)
    (auto dest: target_request_kinds)


definition deleted_es :: elasti_service where
  "deleted_es = sample_es\<lparr>es_DeletionTimestamp := Some 5, es_Finalizers := [ElastiServiceFinalizer]\<rparr>"


section \<open>Watches\<close>

lemma enableInformer_ok:
  "enableInformer api req s = (Ok (), s') \<Longrightarrow> \<exists>i. Load (informers s') (getKeyFromRequestWatch req) = Some i"
  by (auto simp: enableInformer_def attempt_def handle_run api_read_def api_ask_def run_informer_def lift_sum_def
      split: prod.splits sum.splits outcome.splits if_splits)

lemma Add_ok:
  assumes "Add api req s = (Ok (), s')"
  shows "\<exists>i. Load (informers s') (getKeyFromRequestWatch req) = Some i"
proof (cases "Load (informers s) (getKeyFromRequestWatch req)")
  case None
  obtain x s1 where x: "verifyTargetExist api req s = (x, s1)" by fastforce
  obtain y s2 where y: "enableInformer api req s1 = (y, s2)" by fastforce
  have "y = Ok ()" "s' = s2" using assms None x y by (cases x; cases y; simp add: Add_def)+
  then show ?thesis using enableInformer_ok y by blast
qed (use assms in \<open>simp add: Add_def\<close>)

text \<open>A watch that was not running either runs or leaves its lock free for the next attempt.\<close>

lemma start_watch_run:
  fixes s :: "('w, 'z) op_st_scheme"
  assumes run: "start_watch key f s = (r, s')" and fresh: "Load (startLocks s) key \<noteq> Some True"
  shows "(\<exists>s1 s2. f s1 = (Ok (), s2) \<and> informers s' = informers s2 \<and> r = Ok () \<and> Load (startLocks s') key = Some True) \<or>
    (\<exists>e. r = Err e \<and> Load (startLocks s') key = None) \<or> (\<exists>p. r = Panic p)"
proof -
  obtain y l where l: "LoadOrStore (startLocks s) key False = ((False, y), l)"
    using fresh by (cases "Load (startLocks s) key") (auto simp: LoadOrStore_def)
  obtain x s2 where x: "f (s\<lparr>startLocks := l\<rparr>) = (x, s2)" by fastforce
  let ?s3 = "s2\<lparr>startLocks := Store (startLocks s2) key True\<rparr>"
  show ?thesis
  proof (cases x)
    case (Ok u)
    then have "start_watch key f s = (Ok (), ?s3)"
      using l x by (simp add: start_watch_def handle_run once_do_def)
    then have "informers s' = informers s2" "r = Ok ()" "Load (startLocks s') key = Some True" using run by auto
    then show ?thesis using x Ok by (intro disjI1) (metis old.unit.exhaust)
  next
    case (Err e)
    then have "start_watch key f s = (Err e, ?s3\<lparr>startLocks := Delete (startLocks ?s3) key\<rparr>)"
      using l x by (simp add: start_watch_def handle_run once_do_def resetMutexForInformer_def)
    then show ?thesis using run by auto
  next
    case (Panic p)
    then have "start_watch key f s = (Panic p, ?s3)"
      using l x by (simp add: start_watch_def handle_run once_do_def)
    then show ?thesis using run by auto
  qed
qed

lemma keeps_lookup [keeps_intro]: "keeps I (lookup_crd n)"
  by (simp add: keeps_def lookup_crd_def)

lemma keeps_reset [keeps_intro]: "(\<And>s l. I (s\<lparr>startLocks := l\<rparr>) = I s) \<Longrightarrow> keeps I (resetMutexForInformer k)"
  by (simp add: keeps_def resetMutexForInformer_def)

lemma keeps_start_watch [keeps_intro]:
  "keeps I f \<Longrightarrow> (\<And>s l. I (s\<lparr>startLocks := l\<rparr>) = I s) \<Longrightarrow> keeps I (start_watch key f)"
  unfolding start_watch_def by (intro keeps_intro)

lemma keeps_stop_old [keeps_intro]: "keeps inf_inv (stop_old_target es req found)"
  unfolding stop_old_target_def Let_def by (intro keeps_intro) (simp add: inf_inv_def)

lemma keeps_watchScaleTargetRef [keeps_intro]: "keeps inf_inv (watchScaleTargetRef api es req)"
  unfolding watchScaleTargetRef_def Let_def by (intro keeps_intro) (simp add: inf_inv_def)

lemma keeps_watchPublicService [keeps_intro]: "keeps inf_inv (watchPublicService api es req)"
  unfolding watchPublicService_def by (intro keeps_intro) (simp add: inf_inv_def)

text \<open>The target of the ElastiService is not watched yet, or another one was.\<close>

definition needs_watch :: "elasti_service \<Rightarrow> nsname \<Rightarrow> ('w, 'z) op_st_scheme \<Rightarrow> bool" where
  "needs_watch es req s \<longleftrightarrow> Load (startLocks s) (getMutexKeyForTargetRef req) \<noteq> Some True \<or>
     (\<exists>d crd. directory s = Some d \<and> Load d (nn_string (service_key es)) = Some crd \<and>
        ScaleTargetRef (cd_Spec crd) \<noteq> ScaleTargetRef (Spec es))"

definition complete_ref :: "scale_target_ref \<Rightarrow> bool" where
  "complete_ref ref \<longleftrightarrow> tr_Name ref \<noteq> [] \<and> tr_Kind ref \<noteq> [] \<and> tr_APIVersion ref \<noteq> []"

lemma ref_eq_iff:
  "ref = old \<longleftrightarrow> tr_Name ref = tr_Name old \<and> tr_Kind ref = tr_Kind old \<and> tr_APIVersion ref = tr_APIVersion (old :: scale_target_ref)"
  by (cases ref; cases old) auto

lemma stop_old_run:
  assumes "stop_old_target es req found s = (r, s')"
  shows "(\<nexists>e. r = Err e) \<and> directory s' = directory s \<and> (r = Ok () \<longrightarrow>
    (if \<exists>crd. found = Some crd \<and> ScaleTargetRef (cd_Spec crd) \<noteq> ScaleTargetRef (Spec es)
     then Load (startLocks s') (getMutexKeyForTargetRef req) = None else s' = s))"
  using assms ref_eq_iff
  by (auto simp: stop_old_target_def Let_def ignoring_def handle_run StopInformer_def close_and_delete_def
      resetMutexForInformer_def split: option.splits outcome.splits prod.splits if_splits)

lemma watchScaleTargetRef_eq:
  assumes "complete_ref (ScaleTargetRef (Spec es))" and "directory s = Some d"
    and "stop_old_target es req (Load d (nn_string (service_key es))) s = (Ok (), s1)"
  shows "watchScaleTargetRef api es req s =
    start_watch (getMutexKeyForTargetRef req)
      (attempt (pure_call (a_ParseGroupVersion api (tr_APIVersion (ScaleTargetRef (Spec es))))) ''failed to parse API version'' (\<lambda>gv.
         attempt (Add api (target_watch es req gv)) ''failed to add scaledTargetRef Informer'' (\<lambda>_. ret ()))) s1"
  using assms by (simp add: watchScaleTargetRef_def complete_ref_def Let_def lookup_crd_def GetCRD_def handle_run)

lemma watch_target_outcome:
  fixes s :: "('w, 'z) op_st_scheme"
  assumes run: "watchScaleTargetRef api es req s = (r, s')" and needs: "needs_watch es req s"
    and complete: "complete_ref (ScaleTargetRef (Spec es))" and noPanic: "\<nexists>p. r = Panic p"
  shows "if r = Ok ()
    then \<exists>gv i. a_ParseGroupVersion api (tr_APIVersion (ScaleTargetRef (Spec es))) = Inr gv \<and>
      Load (informers s') (getKeyFromRequestWatch (target_watch es req gv)) = Some i
    else Load (startLocks s') (getMutexKeyForTargetRef req) = None"
proof -
  let ?start = "attempt (pure_call (a_ParseGroupVersion api (tr_APIVersion (ScaleTargetRef (Spec es))))) ''failed to parse API version'' (\<lambda>gv.
         attempt (Add api (target_watch es req gv)) ''failed to add scaledTargetRef Informer'' (\<lambda>_. ret ()))
         :: (('w, 'z) op_st_scheme, unit) prog"
  obtain d where d: "directory s = Some d"
    using run noPanic complete
    by (cases "directory s") (auto simp: watchScaleTargetRef_def complete_ref_def Let_def lookup_crd_def GetCRD_def handle_run)
  obtain x s1 where x: "stop_old_target es req (Load d (nn_string (service_key es))) s = (x, s1)" by fastforce
  note stop = stop_old_run [OF x]
  have "x \<noteq> Panic p" for p
    using run noPanic complete d x
    by (auto simp: watchScaleTargetRef_def complete_ref_def Let_def lookup_crd_def GetCRD_def handle_run)
  then have ok: "x = Ok ()" using stop by (cases x) auto
  have fresh: "Load (startLocks s1) (getMutexKeyForTargetRef req) \<noteq> Some True"
    using stop ok needs d unfolding needs_watch_def by (auto split: if_splits)
  have "start_watch (getMutexKeyForTargetRef req) ?start s1 = (r, s')"
    using watchScaleTargetRef_eq [OF complete d x [unfolded ok], of api] run by simp
  from start_watch_run [OF this fresh] show ?thesis
  proof (elim disjE exE conjE)
    fix s2 s3 assume f: "?start s2 = (Ok (), s3)" and s': "informers s' = informers s3" "r = Ok ()"
    then obtain gv where gv: "a_ParseGroupVersion api (tr_APIVersion (ScaleTargetRef (Spec es))) = Inr gv"
      by (cases "a_ParseGroupVersion api (tr_APIVersion (ScaleTargetRef (Spec es)))") (auto simp: attempt_def handle_run pure_call_def)
    obtain y s4 where y: "Add api (target_watch es req gv) s2 = (y, s4)" by fastforce
    have "y = Ok ()" "s3 = s4" using f gv y by (cases y; simp add: attempt_def handle_run pure_call_def)+
    then show ?thesis using Add_ok y s' gv by fastforce
  qed (use noPanic in auto)
qed

section \<open>Reconcile\<close>

definition registered :: "elasti_service \<Rightarrow> ('w, 'z) op_st_scheme \<Rightarrow> bool" where
  "registered es s \<longleftrightarrow> (\<exists>d. directory s = Some d \<and>
     Load d (nn_string (service_key es)) = Some \<lparr>CRDName = es_Name es, cd_Spec = Spec es, cd_Status = Status es\<rparr>)"

lemma addCRDFinalizer_run:
  assumes "addCRDFinalizer api es s = (r, s')"
  shows "st.more s' = st.more s \<and> (\<nexists>p. r = Panic p) \<and> (\<forall>es'. r = Ok es' \<longrightarrow> ContainsFinalizer es' \<and> Spec es' = Spec es \<and> Status es' = Status es \<and>
    es_key es' = es_key es \<and> (if ContainsFinalizer es then writes s' = writes s else writes s' = writes s @ [(UpdateES es', True)]))"
proof (cases "ContainsFinalizer es")
  case False
  let ?es = "es\<lparr>es_Finalizers := es_Finalizers es @ [ElastiServiceFinalizer]\<rparr>"
  show ?thesis
    using assms False
    by (cases rule: api_write_cases [of api "UpdateES ?es" s])
      (auto simp: addCRDFinalizer_def Let_def ContainsFinalizer_def es_key_def)
qed (use assms in \<open>auto simp: addCRDFinalizer_def\<close>)

lemma addCRDFinalizer_rejected:
  assumes "addCRDFinalizer api es s = (Err e, s')"
  shows "\<exists>es'. writes s' = writes s @ [(UpdateES es', False)]"
proof -
  let ?es = "es\<lparr>es_Finalizers := es_Finalizers es @ [ElastiServiceFinalizer]\<rparr>"
  show ?thesis using assms
    by (cases rule: api_write_cases [of api "UpdateES ?es" s]) (auto simp: addCRDFinalizer_def Let_def split: if_splits)
qed

lemma needs_watch_memory: "st.more (s' :: ('w, 'z) op_st_scheme) = st.more (s :: ('w, 'z) op_st_scheme) \<Longrightarrow> needs_watch es req s' = needs_watch es req s"
  using memory_op [of s' s] by (simp add: needs_watch_def)

lemma needs_watch_cong: "Spec es' = Spec es \<Longrightarrow> es_key es' = es_key es \<Longrightarrow> needs_watch es' req s = needs_watch es req s"
  by (simp add: needs_watch_def service_key_def es_key_def)

text \<open>The steps of a reconcile of a live object.\<close>

lemma Reconcile_live:
  fixes s :: "('w, 'z) op_st_scheme"
  assumes get: "fst (a_getES api req (world s)) = Inr es" and live: "es_DeletionTimestamp es = None"
  obtains w where "Reconcile api keys order req s =
    handle (addCRDFinalizer api es) fail (\<lambda>es.
      handle (watchScaleTargetRef api es req) fail (\<lambda>_.
      change_directory (AddCRD (nn_string (service_key es)) \<lparr>CRDName = es_Name es, cd_Spec = Spec es, cd_Status = Status es\<rparr>)))
    (s\<lparr>world := w\<rparr>)"
proof -
  obtain r s1 where r: "getCRD api req s = (r, s1)" by fastforce
  from getCRD_run [OF this] get obtain w where "r = Ok es" "s1 = s\<lparr>world := w\<rparr>" by auto
  with r live show thesis by (intro that [of w]) (simp add: Reconcile_def finalizeCRDIfDeleted_def handle_run [of "ret False"])
qed

lemma asks_nothing:
  assumes "asks (\<lambda>_. False) m" and "m s = (r, s')"
  shows "writes s' = writes s"
proof -
  obtain new where "writes s' = writes s @ new" "\<forall>(w, ok) \<in> set new. False"
    using assms(1) [unfolded asks_def, THEN spec, of s] assms(2) by auto
  then show ?thesis by (cases new) auto
qed

lemma register_run:
  assumes "change_directory (AddCRD (nn_string (service_key es)) \<lparr>CRDName = es_Name es, cd_Spec = Spec es, cd_Status = Status es\<rparr>) s = (r, s')"
  shows "(\<nexists>e. r = Err e) \<and> writes s' = writes s \<and> informers s' = informers s \<and> (r = Ok () \<longrightarrow> registered es s')"
  using assms by (auto simp: change_directory_def AddCRD_def registered_def split: option.splits)

lemma watch_and_register:
  fixes s :: "('w, 'z) op_st_scheme"
  assumes needs: "needs_watch es req s" and run: "handle (watchScaleTargetRef api es req) fail (\<lambda>_.
      change_directory (AddCRD (nn_string (service_key es)) \<lparr>CRDName = es_Name es, cd_Spec = Spec es, cd_Status = Status es\<rparr>)) s = (r, s')"
  shows "writes s' = writes s \<and>
    (r = Ok () \<longrightarrow> registered es s' \<and> (\<exists>gv i. Load (informers s') (getKeyFromRequestWatch (target_watch es req gv)) = Some i)) \<and>
    (\<forall>e. r = Err e \<and> complete_ref (ScaleTargetRef (Spec es)) \<longrightarrow> Load (startLocks s') (getMutexKeyForTargetRef req) = None)"
proof -
  obtain y s1 where y: "watchScaleTargetRef api es req s = (y, s1)" by fastforce
  have writes: "writes s1 = writes s" by (rule asks_nothing [OF asks_watchScaleTargetRef y])
  show ?thesis
  proof (cases y)
    case (Ok u)
    have "complete_ref (ScaleTargetRef (Spec es))"
      using y Ok by (auto simp: watchScaleTargetRef_def complete_ref_def Let_def split: if_splits)
    from watch_target_outcome [OF y needs this] Ok
    have "\<exists>gv i. Load (informers s1) (getKeyFromRequestWatch (target_watch es req gv)) = Some i" by auto
    moreover have reg: "change_directory (AddCRD (nn_string (service_key es)) \<lparr>CRDName = es_Name es, cd_Spec = Spec es, cd_Status = Status es\<rparr>) s1 = (r, s')"
      using run y Ok by simp
    ultimately show ?thesis using register_run [OF reg] writes by auto
  next
    case (Err e)
    then show ?thesis using watch_target_outcome [OF y needs] run y writes by auto
  next
    case (Panic p)
    then show ?thesis using run y writes by auto
  qed
qed

text \<open>
  C12: a successful reconcile of a live ElastiService whose target is not watched yet, or was changed
  while the service stayed the same, leaves behind all that the operator needs: the object has
  its finalizer (or the request that adds it was the one request made and was accepted), an informer
  for the target is in the informer map, and the directory maps the service to the current spec.
  If the watch cannot be started, its lock is free again, so that the next reconcile retries.
\<close>

theorem reconcile_registers:
  fixes s :: "('w, 'z) op_st_scheme"
  assumes get: "fst (a_getES api req (world s)) = Inr es" and live: "es_DeletionTimestamp es = None"
    and needs: "needs_watch es req s" and run: "Reconcile api keys order req s = (r, s')"
  shows "(r = Ok () \<longrightarrow> registered es s' \<and>
      (\<exists>gv i. Load (informers s') (getKeyFromRequestWatch (target_watch es req gv)) = Some i) \<and>
      (ContainsFinalizer es \<or> (\<exists>es'. writes s' = writes s @ [(UpdateES es', True)] \<and> ContainsFinalizer es' \<and> Spec es' = Spec es))) \<and>
    (\<forall>e. r = Err e \<and> complete_ref (ScaleTargetRef (Spec es)) \<longrightarrow>
      (\<exists>es'. writes s' = writes s @ [(UpdateES es', False)]) \<or> Load (startLocks s') (getMutexKeyForTargetRef req) = None)"
proof -
  obtain w where eq: "Reconcile api keys order req s =
    handle (addCRDFinalizer api es) fail (\<lambda>es.
      handle (watchScaleTargetRef api es req) fail (\<lambda>_.
      change_directory (AddCRD (nn_string (service_key es)) \<lparr>CRDName = es_Name es, cd_Spec = Spec es, cd_Status = Status es\<rparr>)))
    (s\<lparr>world := w\<rparr>)"
    using Reconcile_live [OF get live] by blast
  obtain x s1 where x: "addCRDFinalizer api es (s\<lparr>world := w\<rparr>) = (x, s1)" by fastforce
  note fin = addCRDFinalizer_run [OF x]
  show ?thesis
  proof (cases x)
    case (Ok es1)
    have needs1: "needs_watch es1 req s1"
      using needs needs_watch_memory [of s1 s es1 req] needs_watch_cong [of es1 es req s] fin Ok by simp
    have key: "getKeyFromRequestWatch (target_watch es1 req gv) = getKeyFromRequestWatch (target_watch es req gv)" for gv
      using fin Ok by (simp add: getKeyFromRequestWatch_def target_watch_def)
    have reg: "registered es1 t = registered es t" for t :: "('w, 'z) op_st_scheme"
      using fin Ok by (simp add: registered_def service_key_def es_key_def)
    have "handle (watchScaleTargetRef api es1 req) fail (\<lambda>_.
      change_directory (AddCRD (nn_string (service_key es1)) \<lparr>CRDName = es_Name es1, cd_Spec = Spec es1, cd_Status = Status es1\<rparr>)) s1 = (r, s')"
      using run eq x Ok by simp
    from watch_and_register [OF needs1 this] show ?thesis
      using fin Ok key reg by (auto split: if_splits)
  next
    case (Err e)
    have "\<exists>es'. writes s' = writes s @ [(UpdateES es', False)] \<and> r = Err e"
      using run eq x Err fin addCRDFinalizer_rejected [OF x [unfolded Err]] by auto
    then show ?thesis by auto
  qed (use fin in auto)
qed

theorem reconcile_registers_witness:
  "let run = Reconcile shop_api [] [] web_req start_op
   in fst run = Ok () \<and> registered (sample_es\<lparr>es_Name := ''web-es'', es_Namespace := ''shop''\<rparr>) (snd run)"
proof -
  let ?es = "sample_es\<lparr>es_Name := ''web-es'', es_Namespace := ''shop''\<rparr>"
  let ?run = "Reconcile shop_api [] [] web_req start_op"
  have get: "fst (a_getES shop_api web_req (world start_op)) = Inr ?es"
    by (simp add: shop_api_def web_req_def)
  have fields: "a_getES shop_api web_req w = (Inr ?es, w)" "a_write shop_api wr w = (Inr (), w)"
    "a_ParseGroupVersion shop_api v = Inr ([], v)" "a_getDynamic shop_api g x y w = (Inr (), w)"
    "a_addEventHandler shop_api g x y w = (Inr (), w)" "a_waitForSync shop_api g x y w = (True, w)" for w wr v g x y
    by (simp_all add: shop_api_def web_req_def resolver_api_def constant_api_def)
  have "fst ?run = Ok ()"
    by (simp add: Reconcile_def getCRD_def finalizeCRDIfDeleted_def addCRDFinalizer_def ContainsFinalizer_def
        watchScaleTargetRef_def lookup_crd_def GetCRD_def stop_old_target_def start_watch_def once_do_def LoadOrStore_def
        Add_def verifyTargetExist_def enableInformer_def run_informer_def change_directory_def AddCRD_def
        attempt_def handle_run api_read_def api_ask_def api_write_def pure_call_def fields Let_def
        start_op_def sample_es_def sample_spec_def)
  moreover have "needs_watch ?es web_req start_op" by (simp add: needs_watch_def start_op_def)
  ultimately show ?thesis
    using reconcile_registers [OF get _ _ surjective_pairing, of "[]" "[]"] by (simp add: sample_es_def)
qed

text \<open>
  An ElastiService whose service and scale target are both changed in one update keeps the watch
  on its old target. The old entry of the directory is looked up under the new service name and not
  found, and the start lock is still done: the reconcile succeeds and registers the new spec, but
  it starts no informer and stops none.
\<close>

theorem changed_service_keeps_old_watch:
  fixes s :: "('w, 'z) op_st_scheme"
  assumes get: "fst (a_getES api req (world s)) = Inr es" and live: "es_DeletionTimestamp es = None" "ContainsFinalizer es"
    and complete: "complete_ref (ScaleTargetRef (Spec es))"
    and dir: "directory s = Some d" "Load d (nn_string (service_key es)) = None"
    and lock: "Load (startLocks s) (getMutexKeyForTargetRef req) = Some True"
  shows "\<exists>s'. Reconcile api keys order req s = (Ok (), s') \<and> registered es s' \<and> informers s' = informers s \<and> running s' = running s"
proof -
  obtain w where eq: "Reconcile api keys order req s =
    handle (addCRDFinalizer api es) fail (\<lambda>es.
      handle (watchScaleTargetRef api es req) fail (\<lambda>_.
      change_directory (AddCRD (nn_string (service_key es)) \<lparr>CRDName = es_Name es, cd_Spec = Spec es, cd_Status = Status es\<rparr>)))
    (s\<lparr>world := w\<rparr>)"
    using Reconcile_live [OF get live(1)] by blast
  have "stop_old_target es req (Load d (nn_string (service_key es))) (s\<lparr>world := w\<rparr>) = (Ok (), s\<lparr>world := w\<rparr>)"
    using dir(2) by (simp add: stop_old_target_def)
  then have "watchScaleTargetRef api es req (s\<lparr>world := w\<rparr>) = (Ok (), s\<lparr>world := w\<rparr>)"
    using watchScaleTargetRef_eq [of es "s\<lparr>world := w\<rparr>" d req "s\<lparr>world := w\<rparr>" api] complete dir(1) lock
    by (simp add: start_watch_def handle_run once_do_done)
  then show ?thesis
    using eq live(2) dir(1)
    by (simp add: addCRDFinalizer_def change_directory_def AddCRD_def registered_def handle_run [of "ret es"])
qed

text \<open>The watch on the target of another service is still running.\<close>

definition moved_op :: "unit op_st" where
  "moved_op = start_op\<lparr>startLocks := Store sm_empty (getMutexKeyForTargetRef web_req) True\<rparr>"

definition finalized_es :: elasti_service where
  "finalized_es = sample_es\<lparr>es_Finalizers := [ElastiServiceFinalizer]\<rparr>"

theorem changed_service_keeps_old_watch_witness:
  "\<exists>s'. Reconcile (shop_api\<lparr>a_getES := (\<lambda>_ w. (Inr finalized_es, w))\<rparr>) [] [] web_req moved_op = (Ok (), s') \<and>
     registered finalized_es s' \<and> informers s' = informers moved_op \<and> running s' = running moved_op"
  by (rule changed_service_keeps_old_watch [where d = sm_empty])
    (simp_all add: finalized_es_def sample_es_def sample_spec_def ContainsFinalizer_def complete_ref_def moved_op_def start_op_def)

text \<open>
  A switch to proxy mode that fails, for instance because the resolver has no pods, is reported
  as done: the deferred status update writes proxy mode although no slice leads to the resolver.
\<close>

theorem failed_switch_reports_mode:
  fixes s :: "('w, 'z) op_st_scheme"
  assumes get: "fst (a_getES api req (world s)) = Inr es"
    and fails: "\<And>w. enableProxyMode api req es (s\<lparr>world := w\<rparr>) = (Err e, s1 w)"
    and get1: "\<And>w. fst (a_getES api req w) = Inr es1"
    and patch: "\<And>k old new w. fst (a_write api (PatchESStatus k old new) w) = Inr ()"
  shows "\<exists>w s' new. switchMode api req ProxyMode s = (Err e, s') \<and> Mode new = ProxyMode \<and>
    writes s' = writes (s1 w) @ [(PatchESStatus (es_key es1) (Status es1) new, True)]"
proof -
  obtain r s0 where r: "getCRD api req s = (r, s0)" by fastforce
  from getCRD_run [OF this] get obtain w where w: "r = Ok es" "s0 = s\<lparr>world := w\<rparr>" by auto
  let ?t = "s1 w"
  have switch: "switchMode api req ProxyMode s = (Err e, snd (updateCRDStatus api req ProxyMode ?t))"
    using r w fails [of w] by (simp add: switchMode_def deferred_run modes_differ)
  obtain w1 where g: "api_read (a_getES api req) ?t = (Ok es1, ?t\<lparr>world := w1\<rparr>)"
    using api_read_run [of "a_getES api req" ?t] get1 by auto
  obtain now w2 where n: "a_now api w1 = (now, w2)" by fastforce
  let ?new = "(Status es1)\<lparr>LastReconciledTime := now, Mode := ProxyMode\<rparr>"
  obtain w3 where "a_write api (PatchESStatus (es_key es1) (Status es1) ?new) w2 = (Inr (), w3)"
    using patch [of "es_key es1" "Status es1" ?new w2] by (metis prod.collapse)
  then have "writes (snd (updateCRDStatus api req ProxyMode ?t)) = writes ?t @ [(PatchESStatus (es_key es1) (Status es1) ?new, True)]"
    using g n by (simp add: updateCRDStatus_def time_now_def api_ask_def handle_run api_write_def)
  then show ?thesis using switch by (intro exI [of _ w] exI [of _ "snd (updateCRDStatus api req ProxyMode ?t)"] exI [of _ ?new]) simp
qed

text \<open>The resolver has no pods.\<close>

definition no_resolver_api :: "unit api" where
  "no_resolver_api = shop_api\<lparr>a_listSlices := (\<lambda>_ _ w. (Inr [], w)), a_getES := (\<lambda>_ w. (Inr sample_es, w))\<rparr>"

theorem failed_switch_reports_mode_witness:
  "\<exists>s' new log. switchMode no_resolver_api web_req ProxyMode start_op =
       (Err (EWrap ''failed to create or update endpointslice to resolver'' ErrNoResolverPodFound), s') \<and>
     Mode new = ProxyMode \<and> writes s' = log @ [(PatchESStatus (es_key sample_es) (Status sample_es) new, True)]"
proof -
  have config: "GetResolverConfig (a_getenv no_resolver_api) =
      Inr \<lparr>Namespace = ''elasti'', DeploymentName = ''elasti-resolver'', ServiceName = ''elasti-resolver-service'',
          Port = 8013, ReverseProxyPort = 8012\<rparr>"
    using resolver_api_config by (simp add: no_resolver_api_def shop_api_def)
  have fields: "a_listSlices no_resolver_api n x w = (Inr [], w)"
    "a_getService no_resolver_api k w = (Inr (web_service\<lparr>svc_Name := nn_name k, svc_Namespace := nn_namespace k\<rparr>), w)" for n x k w
    by (simp_all add: no_resolver_api_def shop_api_def)
  have fails: "enableProxyMode no_resolver_api web_req sample_es (start_op\<lparr>world := w\<rparr>) =
      (Err (EWrap ''failed to create or update endpointslice to resolver'' ErrNoResolverPodFound), start_op\<lparr>world := w\<rparr>)" for w
    by (simp add: enableProxyMode_def checkAndCreatePrivateService_def createOrUpdateEndpointsliceToResolver_def
        getIPsForResolver_def with_config_def config fields attempt_def handle_run api_read_def Let_def slice_addresses_def)
  show ?thesis
    using failed_switch_reports_mode [of no_resolver_api web_req start_op sample_es _ "\<lambda>w. start_op\<lparr>world := w\<rparr>" sample_es, OF _ fails]
    by (auto simp: no_resolver_api_def shop_api_def resolver_api_def constant_api_def)
qed

section \<open>No leaked informers, no foreign namespaces\<close>

lemma keeps_inf_memory:
  fixes p :: "(('w, 'z) op_st_scheme, 'a) prog"
  assumes "\<And>m. keeps (memory m) p"
  shows "keeps inf_inv p"
  unfolding keeps_def
proof (intro allI impI)
  fix s :: "('w, 'z) op_st_scheme" assume "inf_inv s"
  moreover have "st.more (snd (p s)) = st.more s" using assms [of "st.more s"] by (simp add: keeps_def)
  ultimately show "inf_inv (snd (p s))" using memory_op [of "snd (p s)" s] by (simp add: inf_inv_def)
qed

lemma keeps_change_directory [keeps_intro]: "keeps inf_inv (change_directory f)"
  by (auto simp: keeps_def change_directory_def inf_inv_def split: outcome.splits)

lemma keeps_addCRDFinalizer [keeps_intro]: "keeps inf_inv (addCRDFinalizer api es)"
  by (rule keeps_inf_memory) (auto simp: keeps_def addCRDFinalizer_run [OF surjective_pairing])

lemma keeps_getCRD_memory [keeps_intro]: "keeps (memory m) (getCRD api n)"
  unfolding getCRD_def by (intro keeps_intro) simp

lemma keeps_updateStatus_memory [keeps_intro]: "keeps (memory m) (updateCRDStatus api n mode)"
  unfolding updateCRDStatus_def time_now_def by (intro keeps_intro) simp_all

lemma keeps_put_slice [keeps_intro]: "keeps (memory m) (put_slice api svc ips request)"
  by (cases "svc_Ports svc") (auto simp: put_slice_def intro!: keeps_intro)

lemma keeps_slice_memory [keeps_intro]: "keeps (memory m) (createOrUpdateEndpointsliceToResolver api svc)"
  unfolding createOrUpdateEndpointsliceToResolver_def getIPsForResolver_def Let_def by (intro keeps_intro) simp_all

lemma keeps_private_memory [keeps_intro]: "keeps (memory m) (checkAndCreatePrivateService api svc es)"
  unfolding checkAndCreatePrivateService_def Let_def by (intro keeps_intro) simp_all

lemma keeps_public_memory: "keeps (memory m) (handlePublicServiceChanges api obj name)"
  unfolding handlePublicServiceChanges_def by (intro keeps_intro) simp_all

lemma keeps_ready_memory: "keeps (memory m) (isTargetReady api info)"
  unfolding isTargetReady_def by (intro keeps_intro) simp_all

lemma keeps_switchMode: "keeps inf_inv (switchMode api req mode)"
  unfolding switchMode_def enableServeMode_def enableProxyMode_def
  by (intro keeps_attempt keeps_deferred keeps_if keeps_ret keeps_watchPublicService;
      (rule keeps_inf_memory, intro keeps_intro; simp)?)

lemma keeps_run_cleanup:
  assumes "distinct keys"
  shows "keeps inf_inv (run_cleanup api keys es req task)"
proof (cases "task = StopInformers")
  case True
  have "keeps inf_inv (StopForCRD keys (nn_name req) (nn_namespace req))"
    using stop_keys_inv assms by (auto simp: keeps_def StopForCRD_def)
  then show ?thesis unfolding True run_cleanup.simps by (intro keeps_intro) (simp_all add: inf_inv_def)
qed (rule keeps_inf_memory, rule keeps_api_task)

lemma keeps_run_cleanups:
  fixes api :: "('w, 'x) api_scheme"
  assumes "distinct keys"
  shows "keeps inf_inv (run_cleanups api keys es req order :: (('w, 'z) op_st_scheme, (cleanup \<times> go_error option) list) prog)"
proof (induction order)
  case (Cons task order)
  show ?case unfolding run_cleanups.simps by (intro keeps_intro keeps_run_cleanup assms Cons.IH)
qed (simp add: keeps_def)

lemma keeps_Reconcile:
  assumes "distinct keys"
  shows "keeps inf_inv (Reconcile api keys order req)"
  unfolding Reconcile_def finalizeCRDIfDeleted_def finalizeCRD_eq
  by (intro keeps_handle keeps_attempt keeps_if keeps_ret keeps_fail keeps_run_cleanups keeps_change_directory
      keeps_addCRDFinalizer keeps_watchScaleTargetRef assms;
      (rule keeps_inf_memory, intro keeps_intro keeps_restore; simp)?)

lemma update_slices_look:
  "update_slices api (key # keys) = (\<lambda>s. (case directory s of
        None \<Rightarrow> panic ''invalid memory address or nil pointer dereference''
      | Some services \<Rightarrow> (case Load services key of
           None \<Rightarrow> update_slices api keys
         | Some crd \<Rightarrow>
             if Mode (cd_Status crd) \<noteq> ProxyMode then update_slices api keys
             else if length (Split (CHR ''/'') key) = 2
             then handle (api_read (a_getService api \<lparr>nn_namespace = Split (CHR ''/'') key ! 0, nn_name = Split (CHR ''/'') key ! 1\<rparr>))
                   (\<lambda>_. update_slices api keys)
                   (\<lambda>targetService. ignoring (createOrUpdateEndpointsliceToResolver api targetService) (update_slices api keys))
             else update_slices api keys)) s)"
  by (auto simp: fun_eq_iff eval_nat_numeral split: option.splits list.splits)

lemma keeps_update_slices: "keeps inf_inv (update_slices api keys)"
proof (induction keys)
  case (Cons key keys)
  have slice: "keeps inf_inv (createOrUpdateEndpointsliceToResolver api svc)" for svc
    by (rule keeps_inf_memory) (rule keeps_slice_memory)
  show ?case unfolding update_slices_look
    by (rule keeps_look) (intro keeps_intro Cons.IH slice; simp)
qed (simp add: keeps_def)

lemma keeps_handleResolverChanges: "keeps inf_inv (handleResolverChanges api keys obj)"
proof -
  have "keeps inf_inv (\<lambda>s. (if directory s = None then panic ''invalid memory address or nil pointer dereference''
      else update_slices api keys) s)"
    by (rule keeps_look) (intro keeps_if keeps_panic keeps_update_slices)
  then have "keeps inf_inv (\<lambda>s. if directory s = None then panic ''invalid memory address or nil pointer dereference'' s
      else update_slices api keys s)"
    by (simp add: if_distribR)
  then show ?thesis unfolding handleResolverChanges_def by (intro keeps_intro)
qed

text \<open>
  C15: no reconcile and no event handler leaks an informer: whatever the API server answers, and also
  when a handler fails or panics, the running informer goroutines stay exactly those the informer map
  knows, one per key.
\<close>

theorem controller_never_leaks:
  assumes "distinct keys"
  shows "keeps inf_inv (Reconcile api keys order req) \<and> keeps inf_inv (getScaleTargetRefChangeHandler api req tev) \<and>
    keeps inf_inv (getPublicServiceChangeHandler api es sev) \<and> keeps inf_inv (getResolverChangeHandler api keys dev)"
proof (intro conjI)
  show "keeps inf_inv (Reconcile api keys order req)" by (rule keeps_Reconcile [OF assms])
  have "keeps inf_inv (handleScaleTargetRefChanges api req obj)" for obj
    unfolding handleScaleTargetRefChanges_def
    by (intro keeps_attempt keeps_pure keeps_if keeps_switchMode keeps_ret; rule keeps_inf_memory, rule keeps_ready_memory)
  then show "keeps inf_inv (getScaleTargetRefChangeHandler api req tev)"
    unfolding getScaleTargetRefChangeHandler_def by (cases tev) (auto intro: keeps_ignoring keeps_ret)
  have "keeps inf_inv (handlePublicServiceChanges api obj name)" for obj name
    by (rule keeps_inf_memory) (rule keeps_public_memory)
  then show "keeps inf_inv (getPublicServiceChangeHandler api es sev)"
    unfolding getPublicServiceChangeHandler_def by (cases sev) (auto intro: keeps_ignoring keeps_ret)
  show "keeps inf_inv (getResolverChangeHandler api keys dev)"
    unfolding getResolverChangeHandler_def
    by (cases dev) (auto intro: keeps_ignoring keeps_ret keeps_handleResolverChanges keeps_with_config)
qed

theorem controller_never_leaks_witness: "inf_inv (snd (Reconcile shop_api [] [] web_req start_op))"
proof -
  have "inf_inv start_op" by (simp add: inf_inv_def inf_ok_def start_op_def sm_empty_def Load_def)
  moreover have "keeps inf_inv (Reconcile shop_api [] [] web_req :: (unit op_st, unit) prog)"
    by (rule controller_never_leaks [THEN conjunct1]) simp
  ultimately show ?thesis by (simp add: keeps_def)
qed

lemma run_cleanup_scoped:
  assumes "gets_named api" and "es_Namespace es = ns"
  shows "asks (in_namespaces {ns}) (run_cleanup api keys es req task)"
proof (cases task)
  case StopInformers
  show ?thesis unfolding StopInformers run_cleanup.simps StopForCRD_def by (intro asks_intro)
next
  case DeleteEndpointslice
  show ?thesis unfolding DeleteEndpointslice run_cleanup.simps
    by (intro asks_error_of deleteEndpointslice_asks assms(1)) (simp add: in_namespaces_def service_key_def assms(2))
next
  case DeletePrivateService
  show ?thesis unfolding DeletePrivateService run_cleanup.simps
    by (intro asks_error_of deletePrivateService_asks assms(1)) (simp add: in_namespaces_def service_key_def assms(2))
next
  case UnpauseKeda
  show ?thesis unfolding UnpauseKeda run_cleanup.simps UpdateKedaScaledObjectPausedState_def
    by (intro asks_intro) (simp add: in_namespaces_def assms(2))
qed

lemma GetSpec_meta: "es_Namespace (snd (GetSpec es)) = es_Namespace es"
  by (simp add: GetSpec_eq)

lemma finalizeCRD_result: "finalizeCRD api keys order es req s = (Ok es', s') \<Longrightarrow> es' = snd (GetSpec es)"
  by (auto simp: finalizeCRD_eq handle_run split: prod.splits outcome.splits if_splits)

lemma finalizeCRDIfDeleted_scoped:
  fixes api :: "('w, 'x) api_scheme"
  assumes "gets_named api" and ns: "es_Namespace es = ns"
  shows "asks (in_namespaces {ns}) (finalizeCRDIfDeleted api keys order es req :: (('w, 'z) op_st_scheme, bool) prog)"
proof -
  have "asks (in_namespaces {ns}) (finalizeCRD api keys order es req :: (('w, 'z) op_st_scheme, elasti_service) prog)"
    unfolding finalizeCRD_eq
    by (intro asks_handle asks_fail asks_if asks_ret asks_change_directory run_cleanups_asks run_cleanup_scoped
        asks_restore assms target_request_in_ns; simp add: ns)
  moreover have "in_namespaces {ns} (UpdateES (es'\<lparr>es_Finalizers := fs\<rparr>))" if "es' = snd (GetSpec es)" for es' fs
    using that by (simp add: in_namespaces_def GetSpec_meta ns)
  ultimately show ?thesis
    unfolding finalizeCRDIfDeleted_def
    by (intro asks_if asks_ret asks_handle_post asks_fail asks_attempt asks_write) (auto dest: finalizeCRD_result)
qed

text \<open>
  C19: a reconcile and the handler of target changes ask for nothing outside the namespace of the
  ElastiService: the finalizer, the status, the private service, the endpoint slice, the scale and the
  ScaledObject all belong to the namespace of the request.
\<close>

theorem reconcile_scoped:
  assumes "gets_named api"
  shows "asks (in_namespaces {nn_namespace req}) (Reconcile api keys order req) \<and>
    asks (in_namespaces {nn_namespace req}) (getScaleTargetRefChangeHandler api req ev)"
proof
  have "in_namespaces {nn_namespace req} (UpdateES es)" if "es_key es = req" for es
    using that by (auto simp: in_namespaces_def es_key_def)
  then have "asks (in_namespaces {nn_namespace req}) (addCRDFinalizer api es)" if "es_key es = req" for es
    using that unfolding addCRDFinalizer_def Let_def
    by (intro asks_if asks_ret asks_attempt asks_write) (simp add: es_key_def)
  then show "asks (in_namespaces {nn_namespace req}) (Reconcile api keys order req)"
    unfolding Reconcile_def
    by (intro asks_getCRD_bind assms asks_handle finalizeCRDIfDeleted_scoped asks_if asks_ret asks_fail
        asks_watchScaleTargetRef asks_change_directory) (auto simp: es_key_def)
  have modes: "serve_request req w \<Longrightarrow> in_namespaces {nn_namespace req} w"
    "proxy_request req w \<Longrightarrow> in_namespaces {nn_namespace req} w" for w
    by (auto simp: in_namespaces_def serve_request_def proxy_request_def)
  have "asks (in_namespaces {nn_namespace req}) (isTargetReady api info)" for info
    unfolding isTargetReady_def by (intro asks_intro)
  then have "asks (in_namespaces {nn_namespace req}) (handleScaleTargetRefChanges api req obj)" for obj
    unfolding handleScaleTargetRefChanges_def
    by (intro asks_attempt asks_pure asks_if asks_ret asks_mono [OF switchMode_serve_asks [OF assms]]
        asks_mono [OF switchMode_proxy_asks [OF assms]] modes)
  then show "asks (in_namespaces {nn_namespace req}) (getScaleTargetRefChangeHandler api req ev)"
    unfolding getScaleTargetRefChangeHandler_def by (cases ev) (auto intro: asks_ignoring asks_ret)
qed

theorem reconcile_scoped_witness:
  "asks (in_namespaces {''shop''}) (Reconcile shop_api [] [] web_req :: (unit op_st, unit) prog)"
  using reconcile_scoped [OF shop_api_named, THEN conjunct1, of web_req "[]" "[]"] unfolding web_req_def nsname.select_convs .

end
