(* ===== verification/Operator_Main.thy ===== *)
theory Operator_Main
  imports Lifecycle "HOL-Library.List_Lexorder" "HOL-Library.Char_ord"
begin

text \<open>
  The start of the operator (\<^verbatim>\<open>mainWithError\<close> of \<^verbatim>\<open>src/operator/cmd/main.go\<close>), in the order
  of the code, up to the wait for the manager and the deferred stop of the informers. The manager of
  controller-runtime is a record \<open>manager_env\<close> of what its calls answer; \<open>me_events\<close> is what the
  reconciler and the event handlers do while \<^verbatim>\<open>main\<close> waits. The options of the
  manager are in \<^verbatim>\<open>Manager_Options\<close>; the logger and Sentry have no influence on the model.
\<close>

record 's manager_env =
  me_watchNamespace :: string                   \<comment> \<open>the flag\<close>
  me_NewManager :: "go_error option"
  me_Setup :: "go_error option"                 \<comment> \<open>the builder of SetupWithManager\<close>
  me_serverErr :: "go_error option"             \<comment> \<open>in errChan at the time of the select\<close>
  me_AddHealthzCheck :: "go_error option"
  me_AddReadyzCheck :: "go_error option"
  me_WaitForCacheSync :: bool
  me_events :: "'s \<Rightarrow> 's"
  me_Start :: "go_error option option"          \<comment> \<open>what mgr.Start returns, if it does\<close>
  me_keys :: "'s \<Rightarrow> string list"                \<comment> \<open>the keys the range of Stop visits\<close>

definition main_check :: "go_error option \<Rightarrow> ('s, 'a) prog \<Rightarrow> ('s, 'a) prog" where
  "main_check err k = (case err of Some e \<Rightarrow> fail (EWrap ''main'' e) | None \<Rightarrow> k)"

text \<open>From the set-up of the controller to its initialisation.\<close>

definition start_controller ::
  "('w, 'z) ctl_st_scheme manager_env \<Rightarrow> ('w, 'x) api_scheme \<Rightarrow> (nsname \<Rightarrow> string list \<times> cleanup list) \<Rightarrow> string list \<Rightarrow>
   (('w, 'z) ctl_st_scheme, unit) prog" where
  "start_controller me api sched watchNamespaces =
     main_check (me_Setup me) (
     main_check (me_serverErr me) (
     main_check (me_AddHealthzCheck me) (
     main_check (me_AddReadyzCheck me) (
     if \<not> me_WaitForCacheSync me then fail (EMsg ''failed to sync cache'')
     else attempt (Initialize api sched watchNamespaces) ''main'' (\<lambda>_. ret ())))))"

text \<open>
  \<open>None\<close>: does not return. The goroutine of the manager sends to the channel only if
  \<^verbatim>\<open>mgr.Start\<close> returned an error.
\<close>

definition wait_for_manager ::
  "('w, 'z) ctl_st_scheme manager_env \<Rightarrow> ('w, 'z) ctl_st_scheme \<Rightarrow> (unit outcome \<times> ('w, 'z) ctl_st_scheme) option" where
  "wait_for_manager me s =
     (case me_Start me of
        Some (Some e) \<Rightarrow> Some (Err (EWrap ''main'' (EWrap ''manager'' e)), me_events me s)
      | _ \<Rightarrow> None)"

definition mainWithError ::
  "('w, 'z) ctl_st_scheme manager_env \<Rightarrow> ('w, 'x) api_scheme \<Rightarrow> (nsname \<Rightarrow> string list \<times> cleanup list) \<Rightarrow> ('w, 'z) ctl_st_scheme \<Rightarrow>
   (unit outcome \<times> ('w, 'z) ctl_st_scheme) option" where
  "mainWithError me api sched s =
     (case seq_panic (GetOperatorConfig (a_getenv api)) (\<lambda>oc. seq_panic (GetResolverConfig (a_getenv api)) (\<lambda>rc.
             Inr (manager_watch_namespaces (a_getenv api) (me_watchNamespace me) (Namespace oc) (Namespace rc)))) of
        Inl p \<Rightarrow> Some (Panic p, s)
      | Inr watchNamespaces \<Rightarrow>
          (case me_NewManager me of
             Some e \<Rightarrow> Some (Err (EWrap ''main'' e), s)
           | None \<Rightarrow>
               map_option (\<lambda>(r, s'). (r, snd (Stop (me_keys me s') s')))
                 (case start_controller me api sched watchNamespaces (s\<lparr>directory := InitDirectory (directory s)\<rparr>) of
                    (Ok _, s1) \<Rightarrow> wait_for_manager me s1
                  | (Err e, s1) \<Rightarrow> Some (Err e, s1)
                  | (Panic p, s1) \<Rightarrow> Some (Panic p, s1))))"

section \<open>Properties\<close>

lemma keeps_reconcile_items:
  "(\<And>n. distinct (fst (sched n))) \<Longrightarrow> keeps inf_inv (reconcile_items api sched ws items)"
  by (induction items) (auto intro!: keeps_intro keeps_Reconcile)

lemma keeps_Initialize:
  assumes "\<And>n. distinct (fst (sched n))"
  shows "keeps inf_inv (Initialize api sched ws)"
proof -
  have set: "keeps inf_inv (\<lambda>s :: ('w, 'z) ctl_st_scheme. (Ok (), s\<lparr>resolverRunning := b\<rparr>))"
    "keeps inf_inv (\<lambda>s :: ('w, 'z) ctl_st_scheme. (Ok (), s\<lparr>scaleWatcher := b\<rparr>))" for b
    by (simp_all add: keeps_def inf_inv_def)
  show ?thesis
    unfolding Initialize_def reconcileExistingCRDs_def InitializeResolverInformer_def
    by (intro keeps_intro keeps_with_config keeps_reconcile_items assms set; simp)
qed

lemma keeps_start_controller:
  "(\<And>n. distinct (fst (sched n))) \<Longrightarrow> keeps inf_inv (start_controller me api sched ws)"
  unfolding start_controller_def main_check_def
  by (intro keeps_option keeps_fail keeps_if keeps_attempt keeps_Initialize keeps_ret)

lemma Stop_stops_all:
  assumes "inf_inv s" and "distinct keys" and "dom (informers s) \<subseteq> set keys"
  shows "running (snd (Stop keys s)) = {}"
proof -
  obtain s' where s': "Stop keys s = (Ok (), s')" "inf_inv s'"
      "\<forall>k. Load (informers s') k = (if k \<in> set keys \<and> True then None else Load (informers s) k)"
    using stop_keys_run [OF assms(1,2), of "\<lambda>_. True"] unfolding Stop_def by blast
  have "Load (informers s') k = None" for k
    using s'(3) assms(3) by (auto simp: Load_def dom_def subset_iff)
  moreover have "inf_ok (informers s') (running s') (next_id s')" using s'(2) by (simp add: inf_inv_def)
  ultimately have "j \<notin> running s'" for j using inf_okD(2) by fastforce
  then show ?thesis using s'(1) by auto
qed

text \<open>What is assumed of the rest of the process while \<^verbatim>\<open>main\<close> runs.\<close>

definition orderly :: "('w, 'z) ctl_st_scheme manager_env \<Rightarrow> (nsname \<Rightarrow> string list \<times> cleanup list) \<Rightarrow> bool" where
  "orderly me sched \<longleftrightarrow>
     (\<forall>n. distinct (fst (sched n))) \<and> (\<forall>s. inf_inv s \<longrightarrow> inf_inv (me_events me s)) \<and>
     (\<forall>s. distinct (me_keys me s) \<and> (finite (dom (informers s)) \<longrightarrow> dom (informers s) \<subseteq> set (me_keys me s)))"

lemma inf_inv_finite: "inf_inv s \<Longrightarrow> finite (dom (informers s))"
proof -
  assume inv: "inf_inv s"
  define f where "f k = inf_id (the (informers s k))" for k
  note ok = inf_okD [OF inv [unfolded inf_inv_def], unfolded Load_def]
  have "f ` dom (informers s) \<subseteq> {..<next_id s}"
  proof
    fix j assume "j \<in> f ` dom (informers s)"
    then obtain k i where "informers s k = Some i" "j = inf_id i" by (auto simp: f_def)
    then show "j \<in> {..<next_id s}" using ok(4,5) by blast
  qed
  moreover have "inj_on f (dom (informers s))"
  proof (rule inj_onI)
    fix k k' assume "k \<in> dom (informers s)" "k' \<in> dom (informers s)" "f k = f k'"
    then obtain i i' where "informers s k = Some i" "informers s k' = Some i'" "inf_id i = inf_id i'" by (auto simp: f_def)
    then show "k = k'" by (rule ok(3))
  qed
  ultimately show ?thesis by (meson finite_lessThan finite_subset inj_on_finite)
qed


text \<open>
  After a graceful stop the operator does not exit. The manager returns without an error when
  it is told to stop; nothing is sent to the channel \<^verbatim>\<open>main\<close> waits for, so that it blocks and
  the informers are not stopped.
\<close>

theorem graceful_stop_blocks:
  assumes "GetOperatorConfig (a_getenv api) = Inr oc" and "GetResolverConfig (a_getenv api) = Inr rc"
    and "me_NewManager me = None"
    and "start_controller me api sched (manager_watch_namespaces (a_getenv api) (me_watchNamespace me) (Namespace oc) (Namespace rc))
      (s\<lparr>directory := InitDirectory (directory s)\<rparr>) = (Ok (), s1)"
    and "me_Start me = Some None"
  shows "mainWithError me api sched s = None"
  using assms by (simp add: mainWithError_def wait_for_manager_def)

section \<open>A concrete start\<close>

definition operator_env :: env where
  "operator_env = resolver_env(''ELASTI_OPERATOR_NAMESPACE'' := ''elasti'', ''ELASTI_OPERATOR_DEPLOYMENT_NAME'' := ''elasti-operator'',
     ''ELASTI_OPERATOR_SERVICE_NAME'' := ''elasti-operator-service'', ''ELASTI_OPERATOR_PORT'' := ''8013'')"

definition operator_api :: "unit api" where
  "operator_api = resolver_api\<lparr>a_getenv := operator_env\<rparr>"

definition start_ctl :: "unit ctl_st" where
  "start_ctl =
     \<lparr>world = (), writes = [], promQueryResponse = zero_response, directory = None, informers = sm_empty, running = {},
      next_id = 0, startLocks = sm_empty, resolverRunning = False, scaleWatcher = False\<rparr>"

definition sample_manager :: "go_error option \<Rightarrow> unit ctl_st manager_env" where
  "sample_manager result =
     \<lparr>me_watchNamespace = [], me_NewManager = None, me_Setup = None, me_serverErr = None, me_AddHealthzCheck = None,
      me_AddReadyzCheck = None, me_WaitForCacheSync = True, me_events = (\<lambda>s. s), me_Start = Some result,
      me_keys = (\<lambda>s. sorted_list_of_set (dom (informers s)))\<rparr>"

lemma sample_manager_orderly: "orderly (sample_manager result) (\<lambda>_. ([], []))"
  by (auto simp: orderly_def sample_manager_def)

lemma sample_configs:
  "GetOperatorConfig operator_env = Inr \<lparr>Namespace = ''elasti'', DeploymentName = ''elasti-operator'', ServiceName = ''elasti-operator-service'', Port = 8013\<rparr>"
  "GetResolverConfig operator_env = Inr \<lparr>Namespace = ''elasti'', DeploymentName = ''elasti-resolver'', ServiceName = ''elasti-resolver-service'',
     Port = 8013, ReverseProxyPort = 8012\<rparr>"
  by code_simp+

lemma sample_fields [simp]:
  "me_NewManager (sample_manager result) = None" "me_Start (sample_manager result) = Some result" "a_getenv operator_api = operator_env"
  by (simp_all add: sample_manager_def operator_api_def)

lemma sample_start:
  "start_controller (sample_manager result) operator_api sched ws (start_ctl\<lparr>directory := InitDirectory (directory start_ctl)\<rparr>) =
     (Ok (), start_ctl\<lparr>directory := Some sm_empty, resolverRunning := True, scaleWatcher := True\<rparr>)"
  by (simp add: start_controller_def main_check_def sample_manager_def Initialize_def reconcileExistingCRDs_def InitializeResolverInformer_def
      attempt_def handle_run api_read_def api_ask_def with_config_def operator_api_def resolver_api_def constant_api_def sample_configs
      start_ctl_def InitDirectory_def)


theorem graceful_stop_blocks_witness:
  "mainWithError (sample_manager None) operator_api (\<lambda>_. ([], [])) start_ctl = None"
  by (rule graceful_stop_blocks [OF _ _ _ sample_start])
    (simp_all add: sample_configs)

end
