(* ===== verification/Host_Manager.thy ===== *)
theory Host_Manager
  imports Packages Naming "HOL-Library.Multiset"
begin

text \<open>
  The host manager of the resolver, \<^verbatim>\<open>src/resolver/internal/hostmanager/hostManager.go\<close>:
  from the host of an incoming request to the service, its namespace and the host of its private
  service, cached per incoming host, and the two timers that stop and resume traffic for a host.
  The sixteen regular expressions of the source are lists of \<open>rx\<close> elements, matched the way
  Go's \<^verbatim>\<open>regexp\<close> does: leftmost start, each repetition as long as possible.
\<close>

section \<open>Regular expressions\<close>

datatype rx =
    Lit string       \<comment> \<open>literal text\<close>
  | Name             \<comment> \<open>\<^verbatim>\<open>([a-zA-Z0-9-]+)\<close>\<close>
  | Digits           \<comment> \<open>\<^verbatim>\<open>\d+\<close>\<close>

definition name_char :: "char \<Rightarrow> bool" where
  "name_char c \<longleftrightarrow>
     (let n = (of_char c :: nat)
      in (97 \<le> n \<and> n \<le> 122) \<or> (65 \<le> n \<and> n \<le> 90) \<or> (48 \<le> n \<and> n \<le> 57) \<or> n = 45)"

fun longest :: "nat \<Rightarrow> (nat \<Rightarrow> 'a option) \<Rightarrow> 'a option" where
  "longest 0 f = None"
| "longest (Suc k) f = (case f (Suc k) of Some r \<Rightarrow> Some r | None \<Rightarrow> longest k f)"

primrec rmatch :: "rx list \<Rightarrow> string \<Rightarrow> string list option" where
  "rmatch [] = (\<lambda>s. Some [])"
| "rmatch (r # rs) = (\<lambda>s.
     case r of
       Lit l \<Rightarrow> if HasPrefix s l then rmatch rs (drop (length l) s) else None
     | Name \<Rightarrow> longest (length (takeWhile name_char s))
                (\<lambda>k. map_option ((#) (take k s)) (rmatch rs (drop k s)))
     | Digits \<Rightarrow> longest (length (takeWhile is_digit s)) (\<lambda>k. rmatch rs (drop k s)))"

text \<open>\<^verbatim>\<open>FindStringSubmatch\<close>, without the whole match at index 0.\<close>

fun find_submatch :: "rx list \<Rightarrow> string \<Rightarrow> string list option" where
  "find_submatch rs [] = rmatch rs []"
| "find_submatch rs (c # cs) =
     (case rmatch rs (c # cs) of Some m \<Rightarrow> Some m | None \<Rightarrow> find_submatch rs cs)"

definition http :: rx where "http = Lit ''http://''"
definition dot :: rx where "dot = Lit ''.''"
definition svc_cluster_local :: rx where "svc_cluster_local = Lit ''.svc.cluster.local''"

definition host_patterns :: "rx list list" where
  "host_patterns =
    [[http, Name, dot, Name, svc_cluster_local, Lit '':'', Digits, Lit ''/*''],
     [Name, dot, Name, svc_cluster_local, Lit '':'', Digits, Lit ''/*''],
     [http, Name, dot, Name, svc_cluster_local, Lit '':'', Digits],
     [Name, dot, Name, svc_cluster_local, Lit '':'', Digits],
     [http, Name, dot, Name, svc_cluster_local],
     [Name, dot, Name, svc_cluster_local],
     [http, Name, dot, Name, Lit ''.svc''],
     [Name, dot, Name, Lit ''.svc''],
     [http, Name, dot, Name],
     [Name, dot, Name],
     [http, Name, svc_cluster_local],
     [Name, svc_cluster_local],
     [http, Name, Lit ''.svc''],
     [Name, Lit ''.svc''],
     [http, Name],
     [Name]]"

section \<open>The operations\<close>

text \<open>The loop over the patterns: two captures are a result, one capture is an error.\<close>

fun try_patterns :: "rx list list \<Rightarrow> string \<Rightarrow> go_error + string \<times> string" where
  "try_patterns [] url = Inl (EMsg (''invalid Kubernetes URL: '' @ MaskMiddle url 4 4))"
| "try_patterns (p # ps) url =
     (case find_submatch p url of
        Some [serviceName, namespace] \<Rightarrow> Inr (serviceName, namespace)
      | Some [serviceName] \<Rightarrow> Inl (EMsg (''namespace not found in URL: '' @ MaskMiddle url 4 4))
      | _ \<Rightarrow> try_patterns ps url)"

definition extractNamespaceAndService :: "string \<Rightarrow> go_error + string \<times> string" where
  "extractNamespaceAndService url = try_patterns host_patterns url"

definition addHTTPIfNeeded :: "string \<Rightarrow> string" where
  "addHTTPIfNeeded serviceURL =
     (if \<not> HasPrefix serviceURL ''http://'' \<and> \<not> HasPrefix serviceURL ''https://''
      then ''http://'' @ serviceURL else serviceURL)"

definition removeTrailingWildcardIfNeeded :: "string \<Rightarrow> string" where
  "removeTrailingWildcardIfNeeded serviceURL =
     (if HasSuffix serviceURL ''/*'' then TrimSuffix serviceURL ''/*'' else serviceURL)"

definition removeTrailingPathIfNeeded :: "string \<Rightarrow> string" where
  "removeTrailingPathIfNeeded serviceURL =
     (case IndexByte (CHR ''/'') serviceURL of Some idx \<Rightarrow> take idx serviceURL | None \<Rightarrow> serviceURL)"

definition replaceServiceName :: "string \<Rightarrow> string \<Rightarrow> string" where
  "replaceServiceName serviceURL newServiceName =
     (let parts = Split (CHR ''.'') serviceURL
      in if length parts < 3 then serviceURL else Join ''.'' (parts[0 := newServiceName]))"

record host_manager =
  hosts :: "(string, host) sync_map"
  trafficReEnableDuration :: duration
  trafficDisableGraceDuration :: duration
  headerForHost :: string

definition NewHostManager :: "duration \<Rightarrow> duration \<Rightarrow> string \<Rightarrow> host_manager" where
  "NewHostManager reEnable disableGrace header =
     \<lparr>hosts = sm_empty, trafficReEnableDuration = reEnable,
      trafficDisableGraceDuration = disableGrace, headerForHost = header\<rparr>"

record host_request =
  req_Host :: string
  req_Header :: "string \<rightharpoonup> string list"

definition new_host :: "string \<Rightarrow> string \<Rightarrow> string \<Rightarrow> host" where
  "new_host incomingHost sourceService namespace =
     (let targetService = GetPrivateServiceName sourceService;
          sourceHost = addHTTPIfNeeded (removeTrailingPathIfNeeded (removeTrailingWildcardIfNeeded incomingHost));
          targetHost = addHTTPIfNeeded (replaceServiceName sourceHost targetService)
      in \<lparr>IncomingHost = incomingHost, h_Namespace = namespace, SourceService = sourceService,
          TargetService = targetService, SourceHost = sourceHost, TargetHost = targetHost,
          TrafficAllowed = True, TrafficDisableScheduled = False\<rparr>)"

text \<open>\<open>None\<close> is the panic of \<^verbatim>\<open>values[0]\<close> on a header without values.\<close>

definition incoming_host :: "host_manager \<Rightarrow> host_request \<Rightarrow> string option" where
  "incoming_host hm req =
     (case req_Header req (headerForHost hm) of
        None \<Rightarrow> Some (req_Host req)
      | Some values \<Rightarrow> (case values of [] \<Rightarrow> None | v # _ \<Rightarrow> Some v))"

definition GetHost :: "host_request \<Rightarrow> host_manager \<Rightarrow> (go_error + host) option \<times> host_manager" where
  "GetHost req hm =
     (case incoming_host hm req of
        None \<Rightarrow> (None, hm)
      | Some incomingHost \<Rightarrow>
          (case Load (hosts hm) incomingHost of
             Some h \<Rightarrow> (Some (Inr h), hm)
           | None \<Rightarrow>
               (case extractNamespaceAndService incomingHost of
                  Inl err \<Rightarrow> (Some (Inl err), hm)
                | Inr (sourceService, namespace) \<Rightarrow>
                    (let newHost = new_host incomingHost sourceService namespace
                     in (Some (Inr newHost), hm\<lparr>hosts := Store (hosts hm) incomingHost newHost\<rparr>)))))"

text \<open>The timers that are pending, by host name: to disable traffic and to enable it again.\<close>

record hm_sys =
  manager :: host_manager
  disable_timers :: "string multiset"
  enable_timers :: "string multiset"

definition disableTrafficForHost :: "string \<Rightarrow> hm_sys \<Rightarrow> hm_sys" where
  "disableTrafficForHost hostName s =
     (case Load (hosts (manager s)) hostName of
        Some h \<Rightarrow>
          if TrafficAllowed h
          then s\<lparr>manager := (manager s)\<lparr>hosts := Store (hosts (manager s)) hostName (h\<lparr>TrafficAllowed := False\<rparr>)\<rparr>,
                 enable_timers := add_mset hostName (enable_timers s)\<rparr>
          else s
      | None \<Rightarrow> s)"

definition ScheduleDisableTrafficForHost :: "string \<Rightarrow> hm_sys \<Rightarrow> hm_sys" where
  "ScheduleDisableTrafficForHost hostName s =
     (case Load (hosts (manager s)) hostName of
        None \<Rightarrow> s
      | Some h \<Rightarrow>
          if TrafficDisableScheduled h then s
          else s\<lparr>manager := (manager s)\<lparr>hosts := Store (hosts (manager s)) hostName (h\<lparr>TrafficDisableScheduled := True\<rparr>)\<rparr>,
                 disable_timers := add_mset hostName (disable_timers s)\<rparr>)"

text \<open>The function the disable timer runs.\<close>

definition disable_timer_fires :: "string \<Rightarrow> hm_sys \<Rightarrow> hm_sys" where
  "disable_timer_fires hostName s =
     (let s' = (case Load (hosts (manager s)) hostName of
                  Some h \<Rightarrow> s\<lparr>manager := (manager s)\<lparr>hosts := Store (hosts (manager s)) hostName (h\<lparr>TrafficDisableScheduled := False\<rparr>)\<rparr>\<rparr>
                | None \<Rightarrow> s)
      in disableTrafficForHost hostName s')"

definition enableTrafficForHost :: "string \<Rightarrow> hm_sys \<Rightarrow> hm_sys" where
  "enableTrafficForHost hostName s =
     (case Load (hosts (manager s)) hostName of
        Some h \<Rightarrow>
          if \<not> TrafficAllowed h
          then s\<lparr>manager := (manager s)\<lparr>hosts := Store (hosts (manager s)) hostName (h\<lparr>TrafficAllowed := True\<rparr>)\<rparr>\<rparr>
          else s
      | None \<Rightarrow> s)"

text \<open>Requests, the handler's scheduling after a proxied request, and timers that fire.\<close>

inductive hm_step :: "hm_sys \<Rightarrow> hm_sys \<Rightarrow> bool" where
  request: "hm_step s (s\<lparr>manager := snd (GetHost req (manager s))\<rparr>)"
| schedule: "hm_step s (ScheduleDisableTrafficForHost name s)"
| fire_disable: "name \<in># disable_timers s \<Longrightarrow>
    hm_step s (disable_timer_fires name (s\<lparr>disable_timers := disable_timers s - {#name#}\<rparr>))"
| fire_enable: "name \<in># enable_timers s \<Longrightarrow>
    hm_step s (enableTrafficForHost name (s\<lparr>enable_timers := enable_timers s - {#name#}\<rparr>))"

definition hm_init :: "duration \<Rightarrow> duration \<Rightarrow> string \<Rightarrow> hm_sys \<Rightarrow> bool" where
  "hm_init d1 d2 header s \<longleftrightarrow>
     s = \<lparr>manager = NewHostManager d1 d2 header, disable_timers = {#}, enable_timers = {#}\<rparr>"

section \<open>Matching\<close>

text \<open>How often a character occurs in the literals of a pattern: a match needs as many.\<close>

fun lit_count :: "char \<Rightarrow> rx list \<Rightarrow> nat" where
  "lit_count c [] = 0"
| "lit_count c (Lit l # rs) = count_list l c + lit_count c rs"
| "lit_count c (r # rs) = lit_count c rs"

lemma longest_Some: "longest k f = Some r \<Longrightarrow> \<exists>j \<le> k. 0 < j \<and> f j = Some r"
  by (induction k) (auto split: option.splits intro: le_SucI)

lemma longest_hit: "0 < k \<Longrightarrow> f k = Some r \<Longrightarrow> longest k f = Some r"
  by (cases k) auto

lemma count_list_drop: "count_list (drop k s) c \<le> count_list s c"
  by (metis append_take_drop_id count_list_append le_add2)

lemma HasPrefix_count: "HasPrefix s l \<Longrightarrow> count_list s c = count_list l c + count_list (drop (length l) s) c"
  by (metis HasPrefix_def append_take_drop_id count_list_append)

lemma rmatch_count: "rmatch rs s = Some m \<Longrightarrow> lit_count c rs \<le> count_list s c"
proof (induction rs arbitrary: s m)
  case (Cons r rs)
  show ?case
  proof (cases r)
    case (Lit l)
    with Cons.prems have "HasPrefix s l" "rmatch rs (drop (length l) s) = Some m"
      by (auto split: if_splits)
    then show ?thesis using Lit Cons.IH HasPrefix_count by fastforce
  next
    case Name
    with Cons.prems obtain j m' where "rmatch rs (drop j s) = Some m'"
      by (fastforce dest: longest_Some)
    then show ?thesis using Name Cons.IH count_list_drop [of j s c] by fastforce
  next
    case Digits
    with Cons.prems obtain j where "rmatch rs (drop j s) = Some m"
      by (fastforce dest: longest_Some)
    then show ?thesis using Digits Cons.IH count_list_drop [of j s c] by fastforce
  qed
qed simp

lemma find_submatch_count: "find_submatch rs s = Some m \<Longrightarrow> lit_count c rs \<le> count_list s c"
proof (induction rs s rule: find_submatch.induct)
  case (2 rs x xs)
  show ?case
  proof (cases "rmatch rs (x # xs)")
    case None
    then show ?thesis using 2 by fastforce
  next
    case (Some m')
    then show ?thesis by (rule rmatch_count)
  qed
qed (auto dest: rmatch_count)

lemma find_submatch_None: "count_list s c < lit_count c rs \<Longrightarrow> find_submatch rs s = None"
  using find_submatch_count [of rs s _ c] by (cases "find_submatch rs s") fastforce+

lemma find_submatch_here: "rmatch rs s = Some m \<Longrightarrow> find_submatch rs s = Some m"
  by (cases s) auto

lemma rmatch_Lit [simp]: "rmatch (Lit l # rs) (l @ s) = rmatch rs s"
  by (simp add: HasPrefix_def)

definition stops :: "(char \<Rightarrow> bool) \<Rightarrow> string \<Rightarrow> bool" where
  "stops P s \<longleftrightarrow> (case s of [] \<Rightarrow> True | c # _ \<Rightarrow> \<not> P c)"

lemma takeWhile_stops: "list_all P n \<Longrightarrow> stops P s \<Longrightarrow> takeWhile P (n @ s) = n"
  by (induction n) (auto simp: stops_def split: list.splits)

lemma rmatch_Name:
  assumes "n \<noteq> []" "list_all name_char n" "stops name_char s" "rmatch rs s = Some m"
  shows "rmatch (Name # rs) (n @ s) = Some (n # m)"
  using assms by (simp add: takeWhile_stops longest_hit)

lemma rmatch_Digits:
  assumes "n \<noteq> []" "list_all is_digit n" "stops is_digit s" "rmatch rs s = Some m"
  shows "rmatch (Digits # rs) (n @ s) = Some m"
  using assms by (simp add: takeWhile_stops longest_hit)

section \<open>Hosts of services\<close>

text \<open>
  A host that names a service: service and namespace, then one of the three suffixes, then
  perhaps a port and the wildcard path.
\<close>

definition is_name :: "string \<Rightarrow> bool" where
  "is_name n \<longleftrightarrow> n \<noteq> [] \<and> list_all name_char n"

definition is_port :: "string \<Rightarrow> bool" where
  "is_port p \<longleftrightarrow> p = [] \<or> (hd p = CHR '':'' \<and> tl p \<noteq> [] \<and> list_all is_digit (tl p))"

definition service_host :: "string \<Rightarrow> string \<Rightarrow> string \<Rightarrow> string \<Rightarrow> string \<Rightarrow> string" where
  "service_host svc ns suffix port wildcard = svc @ ''.'' @ ns @ suffix @ port @ wildcard"

definition cluster_suffix :: string where "cluster_suffix = ''.svc.cluster.local''"

definition host_suffixes :: "string list" where
  "host_suffixes = [[], ''.svc'', cluster_suffix]"

definition wildcards :: "string list" where "wildcards = [[], ''/*'']"

lemma count_list_none: "list_all P s \<Longrightarrow> \<not> P c \<Longrightarrow> count_list s c = 0"
  by (induction s) auto

lemma is_name_count:
  assumes "is_name n"
  shows "count_list n (CHR ''.'') = 0" "count_list n (CHR ''/'') = 0" "count_list n (CHR '':'') = 0"
    "count_list n (CHR ''*'') = 0"
  using assms count_list_none [of name_char n] by (auto simp: is_name_def name_char_def)

lemma is_port_count:
  assumes "is_port p"
  shows "count_list p (CHR ''.'') = 0" "count_list p (CHR ''/'') = 0" "count_list p (CHR ''*'') = 0"
  using assms count_list_none [of is_digit "tl p"]
  by (cases p; auto simp: is_port_def is_digit_def)+

lemmas host_counts = is_name_count is_port_count

lemma find_two_names:
  assumes "is_name svc" "is_name ns" "stops name_char t" "rmatch rs t = Some []"
  shows "find_submatch (Name # dot # Name # rs) (svc @ ''.'' @ ns @ t) = Some [svc, ns]"
proof (rule find_submatch_here)
  have "rmatch (Name # rs) (ns @ t) = Some [ns]"
    using assms by (intro rmatch_Name) (auto simp: is_name_def)
  then have "rmatch (dot # Name # rs) (''.'' @ ns @ t) = Some [ns]"
    by (simp only: dot_def rmatch_Lit)
  then show "rmatch (Name # dot # Name # rs) (svc @ ''.'' @ ns @ t) = Some [svc, ns]"
    using assms(1) by (intro rmatch_Name) (auto simp: is_name_def stops_def name_char_def)
qed

lemma match_tail:
  assumes "is_port port" "wildcard \<in> set wildcards"
  shows "port \<noteq> [] \<Longrightarrow> rmatch [svc_cluster_local, Lit '':'', Digits] (cluster_suffix @ port @ wildcard) = Some []"
    and "port \<noteq> [] \<Longrightarrow> rmatch [svc_cluster_local, Lit '':'', Digits, Lit ''/*''] (cluster_suffix @ port @ ''/*'') = Some []"
proof -
  assume "port \<noteq> []"
  then obtain ds where p: "port = '':'' @ ds" "ds \<noteq> []" "list_all is_digit ds"
    using assms(1) by (cases port) (auto simp: is_port_def)
  have st: "stops is_digit wildcard" "stops is_digit ''/*''"
    using assms(2) by (auto simp: wildcards_def stops_def is_digit_def)
  have "rmatch [Digits] (ds @ wildcard) = Some []"
    using p st by (intro rmatch_Digits) auto
  then show "rmatch [svc_cluster_local, Lit '':'', Digits] (cluster_suffix @ port @ wildcard) = Some []"
    unfolding p(1) svc_cluster_local_def cluster_suffix_def append.assoc
    by (simp only: rmatch_Lit)
  have "rmatch [Lit ''/*''] (''/*'' @ []) = Some []"
    by (simp add: HasPrefix_def)
  then have "rmatch [Digits, Lit ''/*''] (ds @ ''/*'') = Some []"
    using p st by (intro rmatch_Digits) simp_all
  then show "rmatch [svc_cluster_local, Lit '':'', Digits, Lit ''/*''] (cluster_suffix @ port @ ''/*'') = Some []"
    unfolding p(1) svc_cluster_local_def cluster_suffix_def append.assoc
    by (simp only: rmatch_Lit)
qed

lemma try_patterns_skip: "find_submatch p url = None \<Longrightarrow> try_patterns (p # ps) url = try_patterns ps url"
  by simp

lemma try_patterns_hit: "find_submatch p url = Some [a, b] \<Longrightarrow> try_patterns (p # ps) url = Inr (a, b)"
  by simp

lemma service_host_slash:
  assumes "is_name svc" "is_name ns" "is_port port" "suffix \<in> set host_suffixes" "wildcard \<in> set wildcards"
  shows "find_submatch (http # rs) (service_host svc ns suffix port wildcard) = None"
proof (rule find_submatch_None [where c = "CHR ''/''"])
  have "count_list (service_host svc ns suffix port wildcard) (CHR ''/'') \<le> 1"
    using assms
    by (auto simp: service_host_def host_suffixes_def wildcards_def cluster_suffix_def host_counts)
  then show "count_list (service_host svc ns suffix port wildcard) (CHR ''/'') < lit_count (CHR ''/'') (http # rs)"
    by (simp add: http_def)
qed

lemma extract_service_host:
  assumes svc: "is_name svc" and ns: "is_name ns" and p: "is_port port"
    and suf: "suffix \<in> set host_suffixes" and wild: "wildcard \<in> set wildcards"
  shows "extractNamespaceAndService (service_host svc ns suffix port wildcard) = Inr (svc, ns)"
proof -
  let ?s = "service_host svc ns suffix port wildcard"
  note counts = service_host_def dot_def svc_cluster_local_def cluster_suffix_def
    is_name_count [OF svc] is_name_count [OF ns] is_port_count [OF p]
  have http: "find_submatch (http # rs) ?s = None" for rs
    using assms by (rule service_host_slash)
  have st: "stops name_char (port @ wildcard)"
    using p wild by (cases port) (auto simp: stops_def wildcards_def is_port_def name_char_def)
  have hit: "stops name_char t \<Longrightarrow> rmatch rs t = Some [] \<Longrightarrow> ?s = svc @ ''.'' @ ns @ t \<Longrightarrow>
      find_submatch (Name # dot # Name # rs) ?s = Some [svc, ns]" for rs t
    using find_two_names [OF svc ns] by simp
  consider "suffix = []" | "suffix = ''.svc''" | "suffix = cluster_suffix" "port = []"
    | "suffix = cluster_suffix" "port \<noteq> []" "wildcard = []"
    | "suffix = cluster_suffix" "port \<noteq> []" "wildcard = ''/*''"
    using suf wild by (auto simp: host_suffixes_def wildcards_def)
  then show ?thesis
  proof cases
    case 1
    have none: "find_submatch [Name, dot, Name, Lit ''.svc''] ?s = None"
      "find_submatch (Name # dot # Name # svc_cluster_local # rs) ?s = None" for rs
      using wild 1 by (auto intro!: find_submatch_None [where c = "CHR ''.''"] simp: counts wildcards_def)
    have "find_submatch [Name, dot, Name] ?s = Some [svc, ns]"
      using 1 st by (intro hit) (simp_all add: service_host_def)
    then show ?thesis by (simp add: extractNamespaceAndService_def host_patterns_def http none)
  next
    case 2
    have none: "find_submatch (Name # dot # Name # svc_cluster_local # rs) ?s = None" for rs
      using wild 2 by (auto intro!: find_submatch_None [where c = "CHR ''.''"] simp: counts wildcards_def)
    have "find_submatch [Name, dot, Name, Lit ''.svc''] ?s = Some [svc, ns]"
      using 2 by (intro hit [where t = "''.svc'' @ port @ wildcard"])
        (simp_all add: service_host_def stops_def name_char_def HasPrefix_def)
    then show ?thesis by (simp add: extractNamespaceAndService_def host_patterns_def http none)
  next
    case 3
    have none: "find_submatch (Name # dot # Name # svc_cluster_local # Lit '':'' # rs) ?s = None" for rs
      using wild 3 by (auto intro!: find_submatch_None [where c = "CHR '':''"] simp: counts wildcards_def)
    have "find_submatch [Name, dot, Name, svc_cluster_local] ?s = Some [svc, ns]"
      using 3 by (intro hit [where t = "cluster_suffix @ wildcard"])
        (simp_all add: service_host_def stops_def name_char_def HasPrefix_def cluster_suffix_def svc_cluster_local_def)
    then show ?thesis by (simp add: extractNamespaceAndService_def host_patterns_def http none)
  next
    case 4
    have none: "find_submatch [Name, dot, Name, svc_cluster_local, Lit '':'', Digits, Lit ''/*''] ?s = None"
      using 4 by (auto intro!: find_submatch_None [where c = "CHR ''*''"] simp: counts)
    have "find_submatch [Name, dot, Name, svc_cluster_local, Lit '':'', Digits] ?s = Some [svc, ns]"
      using 4 match_tail(1) [OF p wild]
      by (intro hit [where t = "cluster_suffix @ port @ wildcard"])
        (simp_all add: service_host_def stops_def name_char_def cluster_suffix_def del: rmatch.simps)
    then show ?thesis by (simp add: extractNamespaceAndService_def host_patterns_def http none)
  next
    case 5
    have "find_submatch [Name, dot, Name, svc_cluster_local, Lit '':'', Digits, Lit ''/*''] ?s = Some [svc, ns]"
      using 5 match_tail(2) [OF p wild]
      by (intro hit [where t = "cluster_suffix @ port @ wildcard"])
        (simp_all add: service_host_def stops_def name_char_def cluster_suffix_def del: rmatch.simps)
    then show ?thesis by (simp add: extractNamespaceAndService_def host_patterns_def http)
  qed
qed

lemma removeTrailing_service_host:
  assumes "is_name svc" "is_name ns" "is_port port" "suffix \<in> set host_suffixes" "wildcard \<in> set wildcards"
  shows "removeTrailingPathIfNeeded (removeTrailingWildcardIfNeeded (service_host svc ns suffix port wildcard)) =
    service_host svc ns suffix port []"
proof -
  have "count_list (service_host svc ns suffix port []) (CHR ''/'') = 0"
    "count_list (service_host svc ns suffix port []) (CHR ''*'') = 0"
    using assms by (auto simp: service_host_def host_suffixes_def cluster_suffix_def host_counts)
  then have no: "CHR ''/'' \<notin> set (service_host svc ns suffix port [])"
    by (simp add: count_list_0_iff)
  have "removeTrailingWildcardIfNeeded (service_host svc ns suffix port wildcard) = service_host svc ns suffix port []"
  proof (cases "wildcard = []")
    case True
    have "\<not> HasSuffix (service_host svc ns suffix port []) ''/*''"
      using no by (auto simp: HasSuffix_iff)
    with True show ?thesis by (simp add: removeTrailingWildcardIfNeeded_def)
  next
    case False
    then have "service_host svc ns suffix port wildcard = service_host svc ns suffix port [] @ ''/*''"
      using assms(5) by (auto simp: wildcards_def service_host_def)
    then show ?thesis
      using HasSuffix_append [of "service_host svc ns suffix port []" "''/*''"]
      by (simp add: removeTrailingWildcardIfNeeded_def TrimSuffix_def)
  qed
  with no show ?thesis
    by (simp add: removeTrailingPathIfNeeded_def IndexByte_None [THEN iffD2])
qed

lemma addHTTP_no_slash: "CHR ''/'' \<notin> set s \<Longrightarrow> addHTTPIfNeeded s = ''http://'' @ s"
  by (auto simp: addHTTPIfNeeded_def HasPrefix_iff)

lemma dot_split:
  "CHR ''.'' \<notin> set a \<Longrightarrow> CHR ''.'' \<notin> set b \<Longrightarrow> Split (CHR ''.'') (a @ ''.'' @ b @ CHR ''.'' # r) = a # b # Split (CHR ''.'') r"
  using Split_append [of "CHR ''.''" a "b @ CHR ''.'' # r"] Split_append [of "CHR ''.''" b r] by simp

lemma replaceServiceName_long:
  assumes "CHR ''.'' \<notin> set a" "CHR ''.'' \<notin> set b"
  shows "replaceServiceName (a @ ''.'' @ b @ CHR ''.'' # r) new = new @ ''.'' @ b @ CHR ''.'' # r"
proof -
  have "Join ''.'' (Split (CHR ''.'') r) = r" by (rule Join_Split)
  then show ?thesis
    using dot_split [OF assms]
    by (simp add: replaceServiceName_def Let_def Join_Cons)
qed

lemma replaceServiceName_short:
  assumes "CHR ''.'' \<notin> set a" "CHR ''.'' \<notin> set b"
  shows "replaceServiceName (a @ ''.'' @ b) new = a @ ''.'' @ b"
  using Split_append [OF assms(1), of b] Split_no_sep [OF assms(2)]
  by (simp add: replaceServiceName_def)

lemma name_hash_no_slash: "CHR ''/'' \<notin> set (name_hash s)"
  using name_hash_chars [of "CHR ''/''" s] hex_chars_label [of "CHR ''/''"]
  by (auto simp: label_char_def)

lemma private_name_no_slash:
  "CHR ''/'' \<notin> set s \<Longrightarrow> CHR ''/'' \<notin> set (GetPrivateServiceName s)"
  using kept_name_set [of s privateServicePostfix maxServiceNameLength] name_hash_no_slash [of s]
  by (auto simp: GetPrivateServiceName_def buildName_shape name_prefix_def privateServicePostfix_def)

lemma is_name_chars:
  assumes "is_name n"
  shows "CHR ''.'' \<notin> set n" "CHR ''/'' \<notin> set n"
  using is_name_count [OF assms] by (simp_all add: count_list_0_iff)

lemma is_port_chars:
  assumes "is_port p"
  shows "CHR ''.'' \<notin> set p" "CHR ''/'' \<notin> set p"
  using is_port_count [OF assms] by (simp_all add: count_list_0_iff)

lemma new_host_SourceHost:
  assumes "is_name svc" "is_name ns" "is_port port" "suffix \<in> set host_suffixes" "wildcard \<in> set wildcards"
  shows "SourceHost (new_host (service_host svc ns suffix port wildcard) svc ns) =
    ''http://'' @ service_host svc ns suffix port []"
proof -
  have "CHR ''/'' \<notin> set (service_host svc ns suffix port [])"
    using assms is_name_chars is_port_chars by (auto simp: service_host_def host_suffixes_def cluster_suffix_def)
  then show ?thesis
    by (simp add: new_host_def Let_def removeTrailing_service_host [OF assms] addHTTP_no_slash)
qed

lemma new_host_TargetHost:
  assumes "is_name svc" "is_name ns" "is_port port" "suffix \<in> set host_suffixes" "suffix \<noteq> []"
    "wildcard \<in> set wildcards"
  shows "TargetHost (new_host (service_host svc ns suffix port wildcard) svc ns) =
    ''http://'' @ service_host (GetPrivateServiceName svc) ns suffix port []"
proof -
  obtain r where r: "suffix = CHR ''.'' # r" "CHR ''/'' \<notin> set r"
    using assms(4,5) by (auto simp: host_suffixes_def cluster_suffix_def)
  let ?src = "''http://'' @ service_host svc ns suffix port []"
  have "?src = (''http://'' @ svc) @ ''.'' @ ns @ CHR ''.'' # (r @ port)"
    by (simp add: service_host_def r)
  moreover have "CHR ''.'' \<notin> set (''http://'' @ svc)" "CHR ''.'' \<notin> set ns"
    using assms(1,2) is_name_chars by auto
  ultimately have rep: "replaceServiceName ?src (GetPrivateServiceName svc) =
      service_host (GetPrivateServiceName svc) ns suffix port []"
    using replaceServiceName_long [of "''http://'' @ svc" ns "r @ port"] by (simp add: service_host_def r)
  have "CHR ''/'' \<notin> set (service_host (GetPrivateServiceName svc) ns suffix port [])"
    using assms(1-3) r is_name_chars is_port_chars private_name_no_slash by (auto simp: service_host_def)
  then show ?thesis
    using new_host_SourceHost [OF assms(1-4,6)] rep addHTTP_no_slash
    by (simp add: new_host_def Let_def)
qed

lemma new_host_TargetHost_short:
  assumes "is_name svc" "is_name ns" "is_port port" "wildcard \<in> set wildcards"
  shows "TargetHost (new_host (service_host svc ns [] port wildcard) svc ns) =
    ''http://'' @ service_host svc ns [] port []"
proof -
  have "replaceServiceName (''http://'' @ service_host svc ns [] port []) new = ''http://'' @ service_host svc ns [] port []" for new
    using replaceServiceName_short [of "''http://'' @ svc" "ns @ port"] assms(1-3) is_name_chars is_port_chars
    by (simp add: service_host_def)
  then show ?thesis
    using new_host_SourceHost [of svc ns port "[]" wildcard] assms
    by (simp add: new_host_def Let_def host_suffixes_def addHTTPIfNeeded_def HasPrefix_def)
qed

lemma GetHost_miss:
  assumes "incoming_host hm req = Some url" "Load (hosts hm) url = None"
    "extractNamespaceAndService url = Inr (svc, ns)"
  shows "GetHost req hm = (Some (Inr (new_host url svc ns)), hm\<lparr>hosts := Store (hosts hm) url (new_host url svc ns)\<rparr>)"
  using assms by (simp add: GetHost_def Let_def)

lemma GetHost_hit:
  assumes "incoming_host hm req = Some url" "Load (hosts hm) url = Some h"
  shows "GetHost req hm = (Some (Inr h), hm)"
  using assms by (simp add: GetHost_def)

section \<open>Timers\<close>

text \<open>
  A host has at most one pending timer of each kind: a disable timer exactly while a disable is
  scheduled, an enable timer exactly while its traffic is stopped.
\<close>

definition host_inv :: "host option \<Rightarrow> nat \<Rightarrow> nat \<Rightarrow> bool" where
  "host_inv entry disables enables \<longleftrightarrow>
     (case entry of
        None \<Rightarrow> disables = 0 \<and> enables = 0
      | Some h \<Rightarrow> disables = (if TrafficDisableScheduled h then 1 else 0) \<and>
                  enables = (if TrafficAllowed h then 0 else 1))"

definition hm_inv :: "hm_sys \<Rightarrow> bool" where
  "hm_inv s \<longleftrightarrow>
     (\<forall>name. host_inv (Load (hosts (manager s)) name) (count (disable_timers s) name) (count (enable_timers s) name))"

lemma host_inv_simps [simp]:
  "host_inv None d e \<longleftrightarrow> d = 0 \<and> e = 0"
  "host_inv (Some h) d e \<longleftrightarrow>
     d = (if TrafficDisableScheduled h then 1 else 0) \<and> e = (if TrafficAllowed h then 0 else 1)"
  by (simp_all add: host_inv_def)

lemma hm_invD: "hm_inv s \<Longrightarrow> host_inv (Load (hosts (manager s)) n) (count (disable_timers s) n) (count (enable_timers s) n)"
  by (simp add: hm_inv_def)

text \<open>Only the entry and the timers of one host change.\<close>

lemma hm_inv_at:
  assumes "hm_inv s"
    and "\<And>n. n \<noteq> name \<Longrightarrow> Load (hosts (manager t)) n = Load (hosts (manager s)) n \<and>
      count (disable_timers t) n = count (disable_timers s) n \<and> count (enable_timers t) n = count (enable_timers s) n"
    and "host_inv (Load (hosts (manager t)) name) (count (disable_timers t) name) (count (enable_timers t) name)"
  shows "hm_inv t"
  using assms hm_invD [OF assms(1)] unfolding hm_inv_def by metis

lemma new_host_flags [simp]:
  "TrafficAllowed (new_host url svc ns)" "\<not> TrafficDisableScheduled (new_host url svc ns)"
  by (simp_all add: new_host_def Let_def)

lemma GetHost_manager:
  "snd (GetHost req m) = m \<or>
   (\<exists>url svc ns. Load (hosts m) url = None \<and>
      snd (GetHost req m) = m\<lparr>hosts := Store (hosts m) url (new_host url svc ns)\<rparr>)"
  by (auto simp: GetHost_def Let_def split: option.split sum.split prod.split)

lemma hm_inv_request:
  assumes inv: "hm_inv s"
  shows "hm_inv (s\<lparr>manager := snd (GetHost req (manager s))\<rparr>)"
proof -
  consider "snd (GetHost req (manager s)) = manager s"
    | url svc ns where "Load (hosts (manager s)) url = None"
      "snd (GetHost req (manager s)) = (manager s)\<lparr>hosts := Store (hosts (manager s)) url (new_host url svc ns)\<rparr>"
    using GetHost_manager [of req "manager s"] by blast
  then show ?thesis
  proof cases
    case 2
    then show ?thesis using hm_invD [OF inv, of url] by (intro hm_inv_at [OF inv, of url]) auto
  qed (use inv in simp)
qed

lemma hm_inv_schedule:
  assumes inv: "hm_inv s"
  shows "hm_inv (ScheduleDisableTrafficForHost name s)"
  using hm_invD [OF inv, of name]
  by (intro hm_inv_at [OF inv, of name]) (auto simp: ScheduleDisableTrafficForHost_def split: option.splits)

lemma hm_inv_fire_disable:
  assumes inv: "hm_inv s" and "name \<in># disable_timers s"
  shows "hm_inv (disable_timer_fires name (s\<lparr>disable_timers := disable_timers s - {#name#}\<rparr>))"
  using hm_invD [OF inv, of name] assms(2)
  by (intro hm_inv_at [OF inv, of name])
    (auto simp: disable_timer_fires_def disableTrafficForHost_def Let_def split: option.splits if_splits)

lemma hm_inv_fire_enable:
  assumes inv: "hm_inv s" and "name \<in># enable_timers s"
  shows "hm_inv (enableTrafficForHost name (s\<lparr>enable_timers := enable_timers s - {#name#}\<rparr>))"
  using hm_invD [OF inv, of name] assms(2)
  by (intro hm_inv_at [OF inv, of name])
    (auto simp: enableTrafficForHost_def split: option.splits if_splits)

lemmas hm_inv_steps = hm_inv_request hm_inv_schedule hm_inv_fire_disable hm_inv_fire_enable

interpretation hm_timers: invariant_system "hm_init d1 d2 header" hm_step hm_inv for d1 d2 header
proof unfold_locales
  show "hm_init d1 d2 header s \<Longrightarrow> hm_inv s" for s
    by (auto simp: hm_init_def hm_inv_def NewHostManager_def)
  show "hm_inv s \<Longrightarrow> hm_step s t \<Longrightarrow> hm_inv t" for s t
    by (erule hm_step.cases) (auto intro: hm_inv_steps)
qed

section \<open>Properties\<close>

text \<open>
  C10: a request for \<open>svc.ns.svc\<close> or \<open>svc.ns.svc.cluster.local\<close>, with or without a
  port and the wildcard path, resolves to the service, its namespace and, as the host to proxy
  to, the private service in the same namespace with the same suffix and port; the next request
  for the host is answered with the same entry from the cache.
\<close>

theorem GetHost_service_host:
  assumes "is_name svc" "is_name ns" "is_port port" "suffix \<in> set host_suffixes" "suffix \<noteq> []"
    "wildcard \<in> set wildcards"
    and "incoming_host hm req = Some (service_host svc ns suffix port wildcard)"
    and "Load (hosts hm) (service_host svc ns suffix port wildcard) = None"
  shows "\<exists>h hm'. GetHost req hm = (Some (Inr h), hm') \<and> GetHost req hm' = (Some (Inr h), hm') \<and>
    SourceService h = svc \<and> h_Namespace h = ns \<and> TargetService h = GetPrivateServiceName svc \<and>
    TargetHost h = ''http://'' @ GetPrivateServiceName svc @ ''.'' @ ns @ suffix @ port \<and> TrafficAllowed h"
proof -
  let ?url = "service_host svc ns suffix port wildcard"
  let ?h = "new_host ?url svc ns"
  let ?hm = "hm\<lparr>hosts := Store (hosts hm) ?url ?h\<rparr>"
  have "GetHost req hm = (Some (Inr ?h), ?hm)"
    using assms extract_service_host by (intro GetHost_miss) auto
  moreover have "GetHost req ?hm = (Some (Inr ?h), ?hm)"
    using assms(7) by (intro GetHost_hit) (auto simp: incoming_host_def)
  moreover have "TargetHost ?h = ''http://'' @ GetPrivateServiceName svc @ ''.'' @ ns @ suffix @ port"
    using new_host_TargetHost [OF assms(1-6)] by (simp add: service_host_def)
  ultimately show ?thesis
    by (intro exI [of _ ?h] exI [of _ ?hm]) (simp add: new_host_def Let_def)
qed

definition sample_request :: "string \<Rightarrow> host_request" where
  "sample_request h = \<lparr>req_Host = h, req_Header = Map.empty\<rparr>"

theorem GetHost_service_host_witness:
  "\<exists>h hm'. GetHost (sample_request ''service.namespace.svc.cluster.local:8080/*'') (NewHostManager 30 15 ''Host'') = (Some (Inr h), hm') \<and>
    TargetHost h = ''http://'' @ GetPrivateServiceName ''service'' @ ''.namespace.svc.cluster.local:8080''"
  using GetHost_service_host [of "''service''" "''namespace''" "'':8080''" cluster_suffix "''/*''"
      "NewHostManager 30 15 ''Host''" "sample_request ''service.namespace.svc.cluster.local:8080/*''"]
  by (auto simp: is_name_def is_port_def is_digit_def name_char_def host_suffixes_def cluster_suffix_def
      wildcards_def incoming_host_def sample_request_def service_host_def NewHostManager_def)

text \<open>
  The short form \<open>svc.ns\<close> is accepted, but the host to proxy to is the host the request
  came for, not the private service: \<^verbatim>\<open>replaceServiceName\<close> replaces nothing when the URL
  has fewer than three dot-separated parts.
\<close>

theorem GetHost_short_host_loops:
  assumes "is_name svc" "is_name ns" "is_port port"
    and "incoming_host hm req = Some (service_host svc ns [] port [])"
    and "Load (hosts hm) (service_host svc ns [] port []) = None"
  shows "\<exists>h hm'. GetHost req hm = (Some (Inr h), hm') \<and> TargetService h = GetPrivateServiceName svc \<and>
    TargetHost h = ''http://'' @ svc @ ''.'' @ ns @ port \<and> TargetHost h = SourceHost h"
proof -
  let ?url = "service_host svc ns [] port []"
  have ok: "[] \<in> set host_suffixes" "[] \<in> set wildcards"
    by (auto simp: host_suffixes_def wildcards_def)
  have "GetHost req hm = (Some (Inr (new_host ?url svc ns)), hm\<lparr>hosts := Store (hosts hm) ?url (new_host ?url svc ns)\<rparr>)"
    using assms ok extract_service_host by (intro GetHost_miss) auto
  moreover have "TargetHost (new_host ?url svc ns) = ''http://'' @ svc @ ''.'' @ ns @ port"
    using new_host_TargetHost_short [OF assms(1-3) ok(2)] by (simp add: service_host_def)
  moreover have "SourceHost (new_host ?url svc ns) = ''http://'' @ svc @ ''.'' @ ns @ port"
    using new_host_SourceHost [OF assms(1-3) ok] by (simp add: service_host_def)
  ultimately show ?thesis
    by (intro exI conjI) (auto simp: new_host_def Let_def)
qed

theorem GetHost_short_host_loops_witness:
  "\<exists>h hm'. GetHost (sample_request ''web.shop:80'') (NewHostManager 30 15 ''Host'') = (Some (Inr h), hm') \<and>
    TargetHost h = ''http://web.shop:80''"
  using GetHost_short_host_loops [of "''web''" "''shop''" "'':80''" "NewHostManager 30 15 ''Host''" "sample_request ''web.shop:80''"]
  by (auto simp: is_name_def is_port_def is_digit_def name_char_def incoming_host_def sample_request_def
      service_host_def NewHostManager_def)


text \<open>A host after one request, its scheduled disable, and the firing of that timer.\<close>

definition requested_sys :: hm_sys where
  "requested_sys =
     \<lparr>manager = snd (GetHost (sample_request ''web.shop.svc'') (NewHostManager 30 15 ''Host'')),
      disable_timers = {#}, enable_timers = {#}\<rparr>"

definition stopped_sys :: hm_sys where
  "stopped_sys =
     (let s = ScheduleDisableTrafficForHost ''web.shop.svc'' requested_sys
      in disable_timer_fires ''web.shop.svc'' (s\<lparr>disable_timers := disable_timers s - {#''web.shop.svc''#}\<rparr>))"

lemma requested_sys_load:
  "Load (hosts (manager requested_sys)) ''web.shop.svc'' = Some (new_host ''web.shop.svc'' ''web'' ''shop'')"
proof -
  have "extractNamespaceAndService ''web.shop.svc'' = Inr (''web'', ''shop'')"
    using extract_service_host [of "''web''" "''shop''" "[]" "''.svc''" "[]"]
    by (simp add: is_name_def is_port_def name_char_def host_suffixes_def wildcards_def service_host_def)
  then show ?thesis
    by (simp add: requested_sys_def GetHost_def incoming_host_def sample_request_def NewHostManager_def Let_def)
qed

lemma stopped_sys_reach: "reach (hm_init 30 15 ''Host'') hm_step stopped_sys"
proof -
  let ?s0 = "\<lparr>manager = NewHostManager 30 15 ''Host'', disable_timers = {#}, enable_timers = {#}\<rparr>"
  have "hm_step ?s0 requested_sys"
    using hm_step.request [of ?s0 "sample_request ''web.shop.svc''"] by (simp add: requested_sys_def)
  then have "reach (hm_init 30 15 ''Host'') hm_step requested_sys"
    by (intro reach_step [OF reach_init]) (auto simp: hm_init_def)
  then have "reach (hm_init 30 15 ''Host'') hm_step (ScheduleDisableTrafficForHost ''web.shop.svc'' requested_sys)"
    by (rule reach_step) (rule hm_step.schedule)
  then show ?thesis
    unfolding stopped_sys_def Let_def
    by (rule reach_step) (rule hm_step.fire_disable, simp add: ScheduleDisableTrafficForHost_def requested_sys_load)
qed


end
