(* ===== verification/Semaphore.thy ===== *)
theory Semaphore
  imports Prelude "HOL-Library.Word"
begin

unbundle bit_operations_syntax

text \<open>
  The resizable semaphore of the resolver, \<^verbatim>\<open>src/resolver/internal/throttler/semaphore.go\<close>:
  one 64-bit word holds the capacity in its upper and the number of holders in its lower 32 bits,
  and a buffered channel holds wake-up tokens. The operations are split at the atomic accesses
  of the code (\<^verbatim>\<open>Load\<close>, \<^verbatim>\<open>CompareAndSwap\<close>, channel send and receive), so that a
  run of several goroutines is an interleaving of these pieces (theory \<open>Breaker\<close>).
\<close>

type_synonym u64 = "64 word"

record semaphore =
  sem_state :: u64
  sem_queue :: nat       \<comment> \<open>tokens buffered in the channel\<close>
  sem_queue_cap :: nat   \<comment> \<open>the channel's buffer size\<close>

definition unpack :: "u64 \<Rightarrow> u64 \<times> u64" where
  "unpack w = (drop_bit 32 w, w AND 0xffffffff)"

definition pack :: "u64 \<Rightarrow> u64 \<Rightarrow> u64" where
  "pack left right = push_bit 32 left OR right"

text \<open>The non-blocking send \<^verbatim>\<open>select { case s.queue <- struct{}{}: default: }\<close>.\<close>

definition poke :: "semaphore \<Rightarrow> semaphore" where
  "poke s = (if sem_queue s < sem_queue_cap s then s\<lparr>sem_queue := Suc (sem_queue s)\<rparr> else s)"

text \<open>\<^verbatim>\<open>s.state.CompareAndSwap(old, new)\<close>: whether it stored, and the new state.\<close>

definition cas_state :: "semaphore \<Rightarrow> u64 \<Rightarrow> u64 \<Rightarrow> bool \<times> semaphore" where
  "cas_state s old new = (if sem_state s = old then (True, s\<lparr>sem_state := new\<rparr>) else (False, s))"

definition updateCapacity :: "semaphore \<Rightarrow> u64 \<Rightarrow> semaphore" where
  "updateCapacity s s64 =
     (let (capacity, n) = unpack (sem_state s)
      in if capacity = s64 then s
         else let s' = s\<lparr>sem_state := pack s64 n\<rparr>
              in if s64 > capacity then (poke ^^ unat (s64 - capacity)) s' else s')"

definition newSemaphore :: "nat \<Rightarrow> nat \<Rightarrow> semaphore" where
  "newSemaphore maxCapacity initialCapacity =
     updateCapacity \<lparr>sem_state = 0, sem_queue = 0, sem_queue_cap = maxCapacity\<rparr>
       (of_nat initialCapacity)"

definition Capacity :: "semaphore \<Rightarrow> nat" where
  "Capacity s = unat (fst (unpack (sem_state s)))"

text \<open>
  One pass of the loop of \<^verbatim>\<open>acquire\<close>: load the state, then wait for a token when the
  semaphore is full, otherwise try to store the incremented state (the second half, from the
  value that was loaded).
\<close>

datatype acquire_pc = AcqWait | AcqCas u64

definition acquire_load :: "semaphore \<Rightarrow> acquire_pc" where
  "acquire_load s =
     (let old = sem_state s; (capacity, n) = unpack old
      in if n \<ge> capacity then AcqWait else AcqCas old)"

definition acquire_cas :: "semaphore \<Rightarrow> u64 \<Rightarrow> bool \<times> semaphore" where
  "acquire_cas s old = (let (capacity, n) = unpack old in cas_state s old (pack capacity (n + 1)))"

text \<open>One pass of the loop of \<^verbatim>\<open>release\<close>; \<open>None\<close> is the panic on an unpaired release.\<close>

definition release_load :: "semaphore \<Rightarrow> u64 option" where
  "release_load s = (let old = sem_state s in if snd (unpack old) = 0 then None else Some old)"

datatype release_pc = RelRetry | RelWake | RelDone

definition release_cas :: "semaphore \<Rightarrow> u64 \<Rightarrow> release_pc \<times> semaphore" where
  "release_cas s old =
     (let (capacity, n) = unpack old;
          n' = n - 1;
          (stored, s') = cas_state s old (pack capacity n')
      in if stored then (if n' < capacity then (RelWake, s') else (RelDone, s')) else (RelRetry, s))"

section \<open>The packed word\<close>

text \<open>A state word with capacity \<open>c\<close> and \<open>n\<close> holders.\<close>

definition sem_word :: "nat \<Rightarrow> nat \<Rightarrow> u64" where
  "sem_word c n = pack (of_nat c) (of_nat n)"

lemma pack_unpack: "(let (l, r) = unpack w in pack l r) = w"
proof -
  have "push_bit 32 (drop_bit 32 w) OR (w AND mask 32) = w"
    by (rule bit_word_eqI) (auto simp: bit_simps)
  moreover have "(0xffffffff :: u64) = mask 32" by (simp add: mask_eq_exp_minus_1)
  ultimately show ?thesis by (simp add: unpack_def pack_def)
qed

lemma small_word_bit: "unat (w :: u64) < 2 ^ 32 \<Longrightarrow> bit w i \<Longrightarrow> i < 32"
proof -
  assume w: "unat w < 2 ^ 32" and i: "bit w i"
  have "bit (take_bit 32 (unat w)) i"
    using i by (simp add: take_bit_nat_eq_self [OF w] bit_unsigned_iff)
  then show ?thesis by (simp add: bit_take_bit_iff)
qed

lemma unpack_pack:
  assumes l: "unat l < 2 ^ 32" and r: "unat r < 2 ^ 32"
  shows "unpack (pack l r) = (l, r)"
proof -
  have m: "(0xffffffff :: u64) = mask 32" by (simp add: mask_eq_exp_minus_1)
  have "drop_bit 32 (pack l r) = l"
    using small_word_bit [OF l] small_word_bit [OF r]
    by (intro bit_word_eqI) (auto simp: pack_def bit_simps)
  moreover have "pack l r AND mask 32 = r"
    using small_word_bit [OF r]
    by (intro bit_word_eqI) (auto simp: pack_def bit_simps)
  ultimately show ?thesis by (simp add: unpack_def m)
qed

lemma unat_of_nat32: "c < 2 ^ 32 \<Longrightarrow> unat (of_nat c :: u64) = c"
  by (simp add: unat_of_nat)

lemma unpack_sem_word:
  "c < 2 ^ 32 \<Longrightarrow> n < 2 ^ 32 \<Longrightarrow> unpack (sem_word c n) = (of_nat c, of_nat n)"
  unfolding sem_word_def by (rule unpack_pack) (simp_all add: unat_of_nat)

lemma of_nat32_le: "a < 2 ^ 32 \<Longrightarrow> b < 2 ^ 32 \<Longrightarrow> (of_nat a :: u64) \<le> of_nat b \<longleftrightarrow> a \<le> b"
  by (simp add: word_le_nat_alt unat_of_nat)

lemma of_nat32_less: "a < 2 ^ 32 \<Longrightarrow> b < 2 ^ 32 \<Longrightarrow> (of_nat a :: u64) < of_nat b \<longleftrightarrow> a < b"
  by (simp add: word_less_nat_alt unat_of_nat)

lemma of_nat32_zero: "a < 2 ^ 32 \<Longrightarrow> (of_nat a :: u64) = 0 \<longleftrightarrow> a = 0"
  by (simp add: word_unat_eq_iff unat_of_nat)

lemma sem_word_inj:
  "c < 2 ^ 32 \<Longrightarrow> n < 2 ^ 32 \<Longrightarrow> d < 2 ^ 32 \<Longrightarrow> m < 2 ^ 32 \<Longrightarrow>
   sem_word c n = sem_word d m \<longleftrightarrow> c = d \<and> n = m"
  by (metis prod.inject unat_of_nat32 unpack_sem_word)

lemma sem_word_inj_le:
  "c < 2 ^ 32 \<Longrightarrow> n \<le> c \<Longrightarrow> m \<le> c \<Longrightarrow> sem_word c n = sem_word c m \<longleftrightarrow> n = m"
  using sem_word_inj [of c n c m] by simp

lemmas sem_word_simps = unpack_sem_word of_nat32_le of_nat32_less of_nat32_zero

section \<open>The operations on a state with \<open>n\<close> of \<open>c\<close> units taken\<close>

lemma acquire_load_word:
  "c < 2 ^ 32 \<Longrightarrow> n < 2 ^ 32 \<Longrightarrow> sem_state s = sem_word c n \<Longrightarrow>
   acquire_load s = (if c \<le> n then AcqWait else AcqCas (sem_word c n))"
  by (simp add: acquire_load_def sem_word_simps)

lemma acquire_cas_word:
  "c < 2 ^ 32 \<Longrightarrow> n < 2 ^ 32 \<Longrightarrow> sem_state s = sem_word c n \<Longrightarrow>
   acquire_cas s (sem_word c n) = (True, s\<lparr>sem_state := sem_word c (Suc n)\<rparr>)"
  by (simp add: acquire_cas_def sem_word_simps cas_state_def)
    (simp add: sem_word_def add.commute)

lemma acquire_cas_stale: "sem_state s \<noteq> old \<Longrightarrow> acquire_cas s old = (False, s)"
  by (simp add: acquire_cas_def cas_state_def split: prod.splits)

lemma release_load_word:
  "c < 2 ^ 32 \<Longrightarrow> n < 2 ^ 32 \<Longrightarrow> sem_state s = sem_word c n \<Longrightarrow>
   release_load s = (if n = 0 then None else Some (sem_word c n))"
  by (simp add: release_load_def sem_word_simps Let_def)

lemma release_cas_word:
  assumes "c < 2 ^ 32" and "Suc n < 2 ^ 32" and "sem_state s = sem_word c (Suc n)"
  shows "release_cas s (sem_word c (Suc n)) =
    (if n < c then RelWake else RelDone, s\<lparr>sem_state := sem_word c n\<rparr>)"
proof -
  have "(of_nat (Suc n) :: u64) - 1 = of_nat n" by simp
  with assms show ?thesis
    by (simp add: release_cas_def cas_state_def unpack_sem_word of_nat32_less del: of_nat_Suc)
      (simp add: sem_word_def)
qed

lemma release_cas_stale: "sem_state s \<noteq> old \<Longrightarrow> release_cas s old = (RelRetry, s)"
  by (simp add: release_cas_def cas_state_def Let_def split: prod.splits)

lemma poke_simps [simp]:
  "sem_state (poke s) = sem_state s" "sem_queue_cap (poke s) = sem_queue_cap s"
  by (simp_all add: poke_def)

lemma sem_queue_poke: "sem_queue s \<le> sem_queue_cap s \<Longrightarrow>
  sem_queue (poke s) = min (sem_queue_cap s) (Suc (sem_queue s))"
  by (simp add: poke_def)

lemma poke_pow:
  "sem_queue s \<le> sem_queue_cap s \<Longrightarrow>
   (poke ^^ k) s = s\<lparr>sem_queue := min (sem_queue_cap s) (sem_queue s + k)\<rparr>"
proof (induction k)
  case 0
  then show ?case by simp
next
  case (Suc k)
  then show ?case by (simp add: poke_def min_def)
qed

lemma newSemaphore_eq:
  assumes "c < 2 ^ 32"
  shows "newSemaphore m c =
    \<lparr>sem_state = sem_word c 0, sem_queue = min m c, sem_queue_cap = m\<rparr>"
proof (cases "c = 0")
  case True
  then show ?thesis
    by (simp add: newSemaphore_def updateCapacity_def unpack_def sem_word_def pack_def)
next
  case False
  with assms have "(0 :: u64) < of_nat c" "(of_nat c :: u64) \<noteq> 0"
    using of_nat32_less [of 0 c] by auto
  then show ?thesis
    using assms
    by (simp add: newSemaphore_def updateCapacity_def unpack_def poke_pow unat_of_nat32)
      (simp add: sem_word_def pack_def)
qed

lemma Capacity_word: "c < 2 ^ 32 \<Longrightarrow> n < 2 ^ 32 \<Longrightarrow> sem_state s = sem_word c n \<Longrightarrow> Capacity s = c"
  by (simp add: Capacity_def unpack_sem_word unat_of_nat32)

end
