(* ===== verification/Breaker.thy ===== *)
theory Breaker
  imports Semaphore
begin

text \<open>
  The concurrency limiter of the resolver, \<^verbatim>\<open>src/resolver/internal/throttler/breaker.go\<close>.
  \<open>goroutine\<close> is the code of \<^verbatim>\<open>Maybe\<close> with its callees
  \<^verbatim>\<open>tryAcquireInFlightSlot\<close>, \<^verbatim>\<open>semaphore.acquire\<close>, \<^verbatim>\<open>semaphore.release\<close>
  and \<^verbatim>\<open>releaseInFlightSlot\<close> as one program per goroutine, cut at every atomic access;
  \<open>breaker_step\<close> lets any goroutine make its next move, so a reachable state is what some
  schedule of concurrent requests leads to. The invariants bound the requests that are
  admitted and the requests that run, show that \<^verbatim>\<open>release\<close> never panics and that a
  waiting request is never stranded; the semaphore refines a counter with a limit.
\<close>

datatype maybe_result = MaybeOk | ErrRequestQueueFull | MaybeCtx ctx_err

text \<open>Program counters of one call of \<^verbatim>\<open>Maybe\<close>, in the order of the code.\<close>

datatype pc =
    Idle
  | SlotLoad                       \<comment> \<open>top of the loop of tryAcquireInFlightSlot\<close>
  | SlotCas int                    \<comment> \<open>the loaded value is below totalSlots\<close>
  | SemLoad                        \<comment> \<open>top of the loop of acquire\<close>
  | SemCas u64                     \<comment> \<open>the loaded state has a free unit\<close>
  | SemWait                        \<comment> \<open>blocked in the select of acquire\<close>
  | Running                        \<comment> \<open>executing thunk\<close>
  | RelLoad                        \<comment> \<open>deferred sem.release: top of its loop\<close>
  | RelCas u64
  | RelPoke                        \<comment> \<open>state stored, before the non-blocking send\<close>
  | FlightLoad maybe_result        \<comment> \<open>deferred releaseInFlightSlot\<close>
  | FlightCas maybe_result int
  | Returned maybe_result
  | Panicked

record breaker =
  inFlight :: int
  totalSlots :: int
  maxConcurrency :: "16 word"
  sem :: semaphore

record breaker_params =
  QueueDepth :: nat
  MaxConcurrency :: nat
  InitialCapacity :: nat

definition NewBreaker :: "breaker_params \<Rightarrow> breaker" where
  "NewBreaker p =
     \<lparr>inFlight = 0,
      totalSlots = int (QueueDepth p + MaxConcurrency p),
      maxConcurrency = of_nat (MaxConcurrency p),
      sem = newSemaphore (MaxConcurrency p) (InitialCapacity p)\<rparr>"

text \<open>
  The next moves of a goroutine: a list, because the select of \<^verbatim>\<open>acquire\<close> may take the
  token or the cancelled context. The loop of \<^verbatim>\<open>releaseInFlightSlot\<close> returns after its
  first pass, whether or not the compare-and-swap stored.
\<close>

fun goroutine :: "breaker \<Rightarrow> pc \<Rightarrow> (breaker \<times> pc) list" where
  "goroutine b Idle = [(b, SlotLoad)]"
| "goroutine b SlotLoad =
     (let cur = inFlight b
      in if cur \<ge> totalSlots b then [(b, Returned ErrRequestQueueFull)] else [(b, SlotCas cur)])"
| "goroutine b (SlotCas cur) =
     (if inFlight b = cur then [(b\<lparr>inFlight := cur + 1\<rparr>, SemLoad)] else [(b, SlotLoad)])"
| "goroutine b SemLoad =
     (case acquire_load (sem b) of AcqWait \<Rightarrow> [(b, SemWait)] | AcqCas old \<Rightarrow> [(b, SemCas old)])"
| "goroutine b (SemCas old) =
     (let (stored, s') = acquire_cas (sem b) old
      in if stored then [(b\<lparr>sem := s'\<rparr>, Running)] else [(b, SemLoad)])"
| "goroutine b SemWait =
     [(b, FlightLoad (MaybeCtx DeadlineExceeded)), (b, FlightLoad (MaybeCtx Canceled))] @
     (if 0 < sem_queue (sem b)
      then [(b\<lparr>sem := (sem b)\<lparr>sem_queue := sem_queue (sem b) - 1\<rparr>\<rparr>, SemLoad)] else [])"
| "goroutine b Running = [(b, RelLoad)]"
| "goroutine b RelLoad =
     (case release_load (sem b) of None \<Rightarrow> [(b, Panicked)] | Some old \<Rightarrow> [(b, RelCas old)])"
| "goroutine b (RelCas old) =
     (case release_cas (sem b) old of
        (RelRetry, _) \<Rightarrow> [(b, RelLoad)]
      | (RelWake, s') \<Rightarrow> [(b\<lparr>sem := s'\<rparr>, RelPoke)]
      | (RelDone, s') \<Rightarrow> [(b\<lparr>sem := s'\<rparr>, FlightLoad MaybeOk)])"
| "goroutine b RelPoke = [(b\<lparr>sem := poke (sem b)\<rparr>, FlightLoad MaybeOk)]"
| "goroutine b (FlightLoad r) = [(b, FlightCas r (inFlight b))]"
| "goroutine b (FlightCas r cur) =
     (if inFlight b = cur then [(b\<lparr>inFlight := cur - 1\<rparr>, Returned r)] else [(b, Returned r)])"
| "goroutine b (Returned r) = [(b, Idle)]"
| "goroutine b Panicked = []"

type_synonym breaker_sys = "breaker \<times> pc list"

inductive breaker_step :: "breaker_sys \<Rightarrow> breaker_sys \<Rightarrow> bool" where
  move: "i < length pcs \<Longrightarrow> (b', p') \<in> set (goroutine b (pcs ! i)) \<Longrightarrow>
         breaker_step (b, pcs) (b', pcs[i := p'])"

inductive_cases breaker_stepE: "breaker_step (b, pcs) t"

definition breaker_init :: "breaker_params \<Rightarrow> nat \<Rightarrow> breaker_sys \<Rightarrow> bool" where
  "breaker_init p n s \<longleftrightarrow> s = (NewBreaker p, replicate n Idle)"

text \<open>The states that \<open>n\<close> concurrent requests can bring a fresh breaker to.\<close>

abbreviation breaker_reach :: "breaker_params \<Rightarrow> nat \<Rightarrow> breaker_sys \<Rightarrow> bool" where
  "breaker_reach p n \<equiv> reach (breaker_init p n) breaker_step"

section \<open>Invariant\<close>

fun holds_slot :: "pc \<Rightarrow> bool" where
  "holds_slot Idle = False"
| "holds_slot SlotLoad = False"
| "holds_slot (SlotCas _) = False"
| "holds_slot (Returned _) = False"
| "holds_slot Panicked = False"
| "holds_slot _ = True"

fun holds_sem :: "pc \<Rightarrow> bool" where
  "holds_sem Running = True"
| "holds_sem RelLoad = True"
| "holds_sem (RelCas _) = True"
| "holds_sem _ = False"

text \<open>Goroutines that are about to read the state again or to send a wake-up token.\<close>

fun awake :: "pc \<Rightarrow> bool" where
  "awake SemLoad = True"
| "awake (SemCas _) = True"
| "awake RelPoke = True"
| "awake _ = False"

text \<open>What a goroutine remembers from its last load.\<close>

fun pc_ok :: "nat \<Rightarrow> int \<Rightarrow> pc \<Rightarrow> bool" where
  "pc_ok c slots (SlotCas cur) = (cur < slots)"
| "pc_ok c slots (SemCas old) = (\<exists>n < c. old = sem_word c n)"
| "pc_ok c slots (RelCas old) = (\<exists>n < c. old = sem_word c (Suc n))"
| "pc_ok c slots Panicked = False"
| "pc_ok c slots _ = True"

definition pcs_ok :: "breaker_params \<Rightarrow> pc list \<Rightarrow> bool" where
  "pcs_ok p pcs \<longleftrightarrow>
     (\<forall>q \<in> set pcs. pc_ok (InitialCapacity p) (int (QueueDepth p + MaxConcurrency p)) q)"

definition breaker_inv :: "breaker_params \<Rightarrow> breaker_sys \<Rightarrow> bool" where
  "breaker_inv p s \<longleftrightarrow> (case s of (b, pcs) \<Rightarrow>
     totalSlots b = int (QueueDepth p + MaxConcurrency p) \<and>
     int (cnt holds_slot pcs) \<le> inFlight b \<and> inFlight b \<le> totalSlots b \<and>
     sem_state (sem b) = sem_word (InitialCapacity p) (cnt holds_sem pcs) \<and>
     cnt holds_sem pcs \<le> InitialCapacity p \<and>
     sem_queue_cap (sem b) = MaxConcurrency p \<and>
     sem_queue (sem b) \<le> sem_queue_cap (sem b) \<and>
     pcs_ok p pcs)"

text \<open>No waiter is left behind when nobody holds the semaphore.\<close>

definition wake_inv :: "breaker_sys \<Rightarrow> bool" where
  "wake_inv s \<longleftrightarrow> (case s of (b, pcs) \<Rightarrow>
     SemWait \<in> set pcs \<and> cnt holds_sem pcs = 0 \<longrightarrow> 0 < sem_queue (sem b) \<or> 0 < cnt awake pcs)"

lemma cnt_sem_le_slot: "cnt holds_sem pcs \<le> cnt holds_slot pcs"
  by (rule cnt_mono) (auto elim: holds_sem.elims)

lemma pcs_ok_update:
  "pcs_ok p pcs \<Longrightarrow> pc_ok (InitialCapacity p) (int (QueueDepth p + MaxConcurrency p)) q \<Longrightarrow>
   pcs_ok p (pcs[i := q])"
  using set_update_subset_insert [of pcs i q] by (auto simp: pcs_ok_def)

lemma pcs_ok_nth:
  "pcs_ok p pcs \<Longrightarrow> i < length pcs \<Longrightarrow>
   pc_ok (InitialCapacity p) (int (QueueDepth p + MaxConcurrency p)) (pcs ! i)"
  by (simp add: pcs_ok_def)

lemma pc_ok_SemCas [simp]: "n < c \<Longrightarrow> pc_ok c slots (SemCas (sem_word c n))"
  by auto

lemma pc_ok_RelCas [simp]: "Suc n \<le> c \<Longrightarrow> pc_ok c slots (RelCas (sem_word c (Suc n)))"
  by (auto intro: exI [of _ n])

text \<open>
  The invariant in a form that a move consumes: the mover's own program counter is taken out
  of the counts, and the rest of the list is unchanged.
\<close>

lemma cnt_split:
  assumes "i < length pcs"
  shows "\<exists>k. cnt P pcs = k + (if P (pcs ! i) then 1 else 0) \<and>
    (\<forall>q. cnt P (pcs[i := q]) = k + (if P q then 1 else 0))"
proof -
  define k where "k = cnt P pcs - (if P (pcs ! i) then 1 else 0)"
  have "cnt P pcs = k + (if P (pcs ! i) then 1 else 0)"
    using cnt_pos [OF assms, of P] by (auto simp: k_def)
  moreover have "cnt P (pcs[i := q]) = k + (if P q then 1 else 0)" for q
    using cnt_update [OF assms, of P q] calculation by (auto split: if_splits)
  ultimately show ?thesis by blast
qed

lemma breaker_inv_init:
  assumes "InitialCapacity p < 2 ^ 32" and "breaker_init p n s"
  shows "breaker_inv p s"
  using assms
  by (auto simp: breaker_inv_def breaker_init_def NewBreaker_def newSemaphore_eq pcs_ok_def)

lemma breaker_inv_acquire:
  assumes c: "InitialCapacity p < 2 ^ 32"
    and inv: "breaker_inv p (b, pcs)"
    and i: "i < length pcs" "pcs ! i = SemCas old"
    and mv: "(b', q) \<in> set (goroutine b (pcs ! i))"
  shows "breaker_inv p (b', pcs[i := q])"
proof -
  have ok: "pc_ok (InitialCapacity p) (int (QueueDepth p + MaxConcurrency p)) (pcs ! i)"
    using inv i by (intro pcs_ok_nth) (simp_all add: breaker_inv_def)
  then obtain n where n: "n < InitialCapacity p" "old = sem_word (InitialCapacity p) n"
    using i by auto
  let ?m = "cnt holds_sem pcs"
  have m: "cnt holds_sem (pcs[i := Running]) = Suc ?m" "cnt holds_sem (pcs[i := SemLoad]) = ?m"
    using i by (simp_all add: cnt_moves)
  have k: "cnt holds_slot (pcs[i := r]) = cnt holds_slot pcs" if "holds_slot r" for r
    using i that by (simp add: cnt_update_same)
  show ?thesis
  proof (cases "sem_state (sem b) = old")
    case True
    then have "n = ?m"
      using n inv c by (auto simp: breaker_inv_def sem_word_inj_le)
    with True show ?thesis
      using i mv inv k m n c
      by (auto simp: breaker_inv_def acquire_cas_word pcs_ok_update)
  next
    case False
    then show ?thesis
      using i mv inv k m
      by (auto simp: breaker_inv_def acquire_cas_stale pcs_ok_update)
  qed
qed

lemma breaker_inv_release:
  assumes c: "InitialCapacity p < 2 ^ 32"
    and inv: "breaker_inv p (b, pcs)"
    and i: "i < length pcs" "pcs ! i = RelCas old"
    and mv: "(b', q) \<in> set (goroutine b (pcs ! i))"
  shows "breaker_inv p (b', pcs[i := q])"
proof -
  have ok: "pc_ok (InitialCapacity p) (int (QueueDepth p + MaxConcurrency p)) (pcs ! i)"
    using inv i by (intro pcs_ok_nth) (simp_all add: breaker_inv_def)
  then obtain n where n: "n < InitialCapacity p" "old = sem_word (InitialCapacity p) (Suc n)"
    using i by auto
  obtain m where m: "cnt holds_sem pcs = Suc m"
    using cnt_pos [OF i(1), of holds_sem] i(2) by (auto simp: gr0_conv_Suc)
  have m': "cnt holds_sem (pcs[i := RelLoad]) = Suc m" "cnt holds_sem (pcs[i := RelPoke]) = m"
    using i m cnt_update_leave [OF i(1), of holds_sem RelPoke] by (simp_all add: cnt_update_same)
  have k: "cnt holds_slot (pcs[i := r]) = cnt holds_slot pcs" if "holds_slot r" for r
    using i that by (simp add: cnt_update_same)
  show ?thesis
  proof (cases "sem_state (sem b) = old")
    case True
    then have "sem_word (InitialCapacity p) (Suc n) = sem_word (InitialCapacity p) (Suc m)"
      using n inv m by (simp add: breaker_inv_def)
    then have "Suc n = Suc m"
      using n inv c m by (subst (asm) sem_word_inj_le) (simp_all add: breaker_inv_def)
    with True show ?thesis
      using i mv inv k m m' n c
      by (auto simp: breaker_inv_def release_cas_word pcs_ok_update)
  next
    case False
    then show ?thesis
      using i mv inv k m m'
      by (auto simp: breaker_inv_def release_cas_stale pcs_ok_update)
  qed
qed

lemma breaker_inv_move:
  assumes c: "InitialCapacity p < 2 ^ 32"
    and inv: "breaker_inv p (b, pcs)"
    and i: "i < length pcs"
    and mv: "(b', q) \<in> set (goroutine b (pcs ! i))"
  shows "breaker_inv p (b', pcs[i := q])"
proof -
  obtain k where k: "cnt holds_slot pcs = k + (if holds_slot (pcs ! i) then 1 else 0)"
    "\<And>q. cnt holds_slot (pcs[i := q]) = k + (if holds_slot q then 1 else 0)"
    using cnt_split [OF i] by metis
  obtain m where m: "cnt holds_sem pcs = m + (if holds_sem (pcs ! i) then 1 else 0)"
    "\<And>q. cnt holds_sem (pcs[i := q]) = m + (if holds_sem q then 1 else 0)"
    using cnt_split [OF i] by metis
  have ok: "pc_ok (InitialCapacity p) (int (QueueDepth p + MaxConcurrency p)) (pcs ! i)"
    using inv i by (intro pcs_ok_nth) (simp_all add: breaker_inv_def)
  have lt: "n < 2 ^ 32" if "n \<le> InitialCapacity p" for n using that c by simp
  have rest: "pc_ok (InitialCapacity p) (int (QueueDepth p + MaxConcurrency p)) q \<Longrightarrow>
      pcs_ok p (pcs[i := q])"
    using inv by (intro pcs_ok_update) (simp_all add: breaker_inv_def)
  show ?thesis
  proof (cases "pcs ! i")
    case (SemCas old)
    then show ?thesis using breaker_inv_acquire [OF c inv i _ mv] by simp
  next
    case (RelCas old)
    then show ?thesis using breaker_inv_release [OF c inv i _ mv] by simp
  next
    case SemLoad
    have "acquire_load (sem b) = (if InitialCapacity p \<le> cnt holds_sem pcs then AcqWait
        else AcqCas (sem_word (InitialCapacity p) (cnt holds_sem pcs)))"
      using inv lt c by (intro acquire_load_word) (simp_all add: breaker_inv_def)
    then show ?thesis
      using SemLoad mv inv k m rest by (auto simp: breaker_inv_def simp del: pc_ok.simps(2) split: if_splits)
  next
    case RelLoad
    then have "release_load (sem b) = Some (sem_word (InitialCapacity p) (Suc m))"
      using inv m lt [of "Suc m"] c by (subst release_load_word) (auto simp: breaker_inv_def)
    then show ?thesis
      using RelLoad mv inv k m rest by (auto simp: breaker_inv_def simp del: pc_ok.simps(3))
  next
    case RelPoke
    then show ?thesis
      using mv inv k m rest by (auto simp: breaker_inv_def sem_queue_poke)
  qed (use mv inv k m rest ok in \<open>auto simp: breaker_inv_def Let_def split: if_splits\<close>)
qed

lemma breaker_inv_step:
  "InitialCapacity p < 2 ^ 32 \<Longrightarrow> breaker_inv p s \<Longrightarrow> breaker_step s t \<Longrightarrow> breaker_inv p t"
  by (erule breaker_step.cases) (auto intro: breaker_inv_move)

interpretation breaker_safe: invariant_system "breaker_init p n" breaker_step
  "\<lambda>s. InitialCapacity p < 2 ^ 32 \<longrightarrow> breaker_inv p s" for p n
  by unfold_locales (auto intro: breaker_inv_init breaker_inv_step)

lemma breaker_reach_inv:
  "InitialCapacity p < 2 ^ 32 \<Longrightarrow> breaker_reach p n s \<Longrightarrow> breaker_inv p s"
  using breaker_safe.reach_inv by blast

section \<open>No waiting request is stranded\<close>

lemma goroutine_RelCas:
  assumes "pc_ok c slots (RelCas old)" and "c < 2 ^ 32"
    and "(b', q) \<in> set (goroutine b (RelCas old))"
  shows "q = RelLoad \<or> q = RelPoke"
proof -
  obtain n where n: "n < c" "old = sem_word c (Suc n)" using assms(1) by auto
  show ?thesis
  proof (cases "sem_state (sem b) = old")
    case True
    then show ?thesis using assms n by (simp add: release_cas_word)
  next
    case False
    then show ?thesis using assms by (simp add: release_cas_stale)
  qed
qed

lemma wake_inv_move:
  assumes c: "0 < InitialCapacity p" "InitialCapacity p < 2 ^ 32" "0 < MaxConcurrency p"
    and inv: "breaker_inv p (b, pcs)" "wake_inv (b, pcs)"
    and i: "i < length pcs"
    and mv: "(b', q) \<in> set (goroutine b (pcs ! i))"
  shows "wake_inv (b', pcs[i := q])"
proof -
  obtain k where k: "cnt awake pcs = k + (if awake (pcs ! i) then 1 else 0)"
    "\<And>q. cnt awake (pcs[i := q]) = k + (if awake q then 1 else 0)"
    using cnt_split [OF i] by metis
  obtain m where m: "cnt holds_sem pcs = m + (if holds_sem (pcs ! i) then 1 else 0)"
    "\<And>q. cnt holds_sem (pcs[i := q]) = m + (if holds_sem q then 1 else 0)"
    using cnt_split [OF i] by metis
  have st: "sem_state (sem b) = sem_word (InitialCapacity p) (cnt holds_sem pcs)"
    "cnt holds_sem pcs \<le> InitialCapacity p" "sem_queue_cap (sem b) = MaxConcurrency p"
    using inv(1) by (auto simp: breaker_inv_def)
  have w: "SemWait \<in> set (pcs[i := q]) \<Longrightarrow> q \<noteq> SemWait \<Longrightarrow> SemWait \<in> set pcs"
    using set_update_subset_insert [of pcs i q] by auto
  have np: "q \<noteq> Panicked"
    using breaker_inv_move [OF c(2) inv(1) i mv] pcs_ok_nth [of p "pcs[i := q]" i] i
    by (auto simp: breaker_inv_def)
  show ?thesis
  proof (cases "pcs ! i")
    case SemLoad
    have "acquire_load (sem b) = (if InitialCapacity p \<le> cnt holds_sem pcs then AcqWait
        else AcqCas (sem_word (InitialCapacity p) (cnt holds_sem pcs)))"
      using st c by (intro acquire_load_word) simp_all
    then show ?thesis
      using SemLoad mv inv(2) k m w c by (auto simp: wake_inv_def split: if_splits)
  next
    case (SemCas old)
    then show ?thesis
      using mv k m by (auto simp: wake_inv_def split: if_splits prod.splits)
  next
    case (RelCas old)
    have "pc_ok (InitialCapacity p) (int (QueueDepth p + MaxConcurrency p)) (RelCas old)"
      using inv(1) i RelCas pcs_ok_nth [of p pcs i] by (simp add: breaker_inv_def)
    then have "q = RelLoad \<or> q = RelPoke"
      using RelCas mv c goroutine_RelCas by metis
    then show ?thesis
      using m k by (auto simp: wake_inv_def)
  next
    case RelPoke
    then show ?thesis
      using mv st(3) c by (auto simp: wake_inv_def poke_def)
  qed (use mv inv(2) k m w np in
      \<open>auto simp: wake_inv_def Let_def split: if_splits option.splits acquire_pc.splits\<close>)
qed

definition live_inv :: "breaker_params \<Rightarrow> breaker_sys \<Rightarrow> bool" where
  "live_inv p s \<longleftrightarrow> breaker_inv p s \<and> wake_inv s"

lemma live_inv_init:
  assumes "InitialCapacity p < 2 ^ 32" and "breaker_init p n s"
  shows "live_inv p s"
  using breaker_inv_init [OF assms] assms(2) by (auto simp: live_inv_def wake_inv_def breaker_init_def)

lemma live_inv_step:
  assumes "0 < InitialCapacity p" "InitialCapacity p < 2 ^ 32" "0 < MaxConcurrency p"
    and "live_inv p s" and "breaker_step s t"
  shows "live_inv p t"
  using assms(5,4) wake_inv_move [OF assms(1-3)] breaker_inv_move [OF assms(2)]
  by (cases rule: breaker_step.cases) (auto simp: live_inv_def)

interpretation breaker_live: invariant_system "breaker_init p n" breaker_step
  "\<lambda>s. 0 < InitialCapacity p \<and> InitialCapacity p < 2 ^ 32 \<and> 0 < MaxConcurrency p \<longrightarrow> live_inv p s" for p n
  by unfold_locales (auto intro: live_inv_init live_inv_step)

lemma breaker_reach_live:
  assumes "0 < InitialCapacity p" "InitialCapacity p < 2 ^ 32" "0 < MaxConcurrency p"
    and "breaker_reach p n s"
  shows "live_inv p s"
  using breaker_live.reach_inv assms by blast

section \<open>Schedules\<close>

text \<open>A schedule names, move by move, the goroutine that moves and which of its moves it makes.\<close>

fun run_schedule :: "breaker_sys \<Rightarrow> (nat \<times> nat) list \<Rightarrow> breaker_sys option" where
  "run_schedule s [] = Some s"
| "run_schedule (b, pcs) ((i, j) # sch) =
     (if i < length pcs \<and> j < length (goroutine b (pcs ! i))
      then (case goroutine b (pcs ! i) ! j of (b', q) \<Rightarrow> run_schedule (b', pcs[i := q]) sch)
      else None)"

lemma run_schedule_reach:
  "breaker_reach p n s \<Longrightarrow> run_schedule s sch = Some t \<Longrightarrow> breaker_reach p n t"
proof (induction s sch rule: run_schedule.induct)
  case (1 s)
  then show ?case by simp
next
  case (2 b pcs i j sch)
  obtain b' q where bq: "goroutine b (pcs ! i) ! j = (b', q)" by fastforce
  have "breaker_step (b, pcs) (b', pcs[i := q])"
    using "2.prems"(2) bq by (intro breaker_step.move) (metis nth_mem run_schedule.simps(2) option.simps(3))+
  then have "breaker_reach p n (b', pcs[i := q])"
    using "2.prems"(1) by (rule reach_step [rotated])
  then show ?case
    using "2.IH" [OF _ bq [symmetric]] "2.prems"(2) bq by (auto split: if_splits)
qed

lemma run_schedule_init:
  "run_schedule (NewBreaker p, replicate n Idle) sch = Some t \<Longrightarrow> breaker_reach p n t"
  by (rule run_schedule_reach [OF reach_init]) (auto simp: breaker_init_def)

text \<open>The breaker when \<open>k\<close> requests run and nothing else is in progress.\<close>

definition running_breaker :: "breaker_params \<Rightarrow> nat \<Rightarrow> breaker" where
  "running_breaker p k =
     \<lparr>inFlight = int k, totalSlots = int (QueueDepth p + MaxConcurrency p),
      maxConcurrency = of_nat (MaxConcurrency p),
      sem = \<lparr>sem_state = sem_word (InitialCapacity p) k,
             sem_queue = min (MaxConcurrency p) (InitialCapacity p),
             sem_queue_cap = MaxConcurrency p\<rparr>\<rparr>"

lemma start_request:
  assumes "InitialCapacity p < 2 ^ 32" "k < InitialCapacity p" "k < QueueDepth p + MaxConcurrency p"
  shows "run_schedule (running_breaker p k, replicate k Running @ Idle # rest)
      [(k, 0), (k, 0), (k, 0), (k, 0), (k, 0)] =
    Some (running_breaker p (Suc k), replicate (Suc k) Running @ rest)"
proof -
  have "acquire_load (sem (running_breaker p k)) = AcqCas (sem_word (InitialCapacity p) k)"
    using assms by (subst acquire_load_word [where c = "InitialCapacity p" and n = k]) (auto simp: running_breaker_def)
  moreover have "acquire_cas (sem (running_breaker p k)) (sem_word (InitialCapacity p) k) =
      (True, sem (running_breaker p (Suc k)))"
    using assms by (simp add: running_breaker_def acquire_cas_word)
  ultimately show ?thesis
    using assms
    by (simp add: nth_append list_update_append replicate_append_same [symmetric] Let_def)
      (simp add: running_breaker_def)
qed

lemma reach_running:
  assumes "InitialCapacity p < 2 ^ 32"
  shows "k \<le> n \<Longrightarrow> k \<le> InitialCapacity p \<Longrightarrow> k \<le> QueueDepth p + MaxConcurrency p \<Longrightarrow>
    breaker_reach p n (running_breaker p k, replicate k Running @ replicate (n - k) Idle)"
proof (induction k)
  case 0
  have "NewBreaker p = running_breaker p 0"
    using assms by (simp add: NewBreaker_def running_breaker_def newSemaphore_eq)
  then show ?case by (auto intro: reach_init simp: breaker_init_def)
next
  case (Suc k)
  then have "replicate (n - k) Idle = Idle # replicate (n - Suc k) Idle"
    by (metis Suc_diff_Suc Suc_le_lessD replicate_Suc)
  with Suc show ?case
    using start_request [OF assms, of k "replicate (n - Suc k) Idle"]
    by (simp only:) (rule run_schedule_reach, simp_all del: run_schedule.simps)
qed

section \<open>The abstract counter\<close>

text \<open>
  What the semaphore promises its client: a count of holders that goes up only below the limit
  and down only when somebody holds.
\<close>

inductive counter_spec :: "nat \<Rightarrow> nat \<Rightarrow> nat \<Rightarrow> bool" for limit where
  stutter: "counter_spec limit n n"
| acquire_unit: "n < limit \<Longrightarrow> counter_spec limit n (Suc n)"
| release_unit: "counter_spec limit (Suc n) n"

definition holders :: "breaker_sys \<Rightarrow> nat" where
  "holders s = cnt holds_sem (snd s)"

lemma holders_move:
  assumes inv: "breaker_inv p t" and i: "i < length pcs"
    and t: "t = (b', pcs[i := q])"
  shows "counter_spec (InitialCapacity p) (holders (b, pcs)) (holders t)"
proof -
  obtain m where m: "cnt holds_sem pcs = m + (if holds_sem (pcs ! i) then 1 else 0)"
    "\<And>q. cnt holds_sem (pcs[i := q]) = m + (if holds_sem q then 1 else 0)"
    using cnt_split [OF i] by metis
  have "cnt holds_sem (pcs[i := q]) \<le> InitialCapacity p"
    using inv t by (simp add: breaker_inv_def)
  then show ?thesis
    using m t by (auto simp: holders_def intro: counter_spec.intros)
qed

section \<open>Properties\<close>

text \<open>
  C1: in every state that any number of concurrent requests can reach, at most
  \<open>QueueDepth + MaxConcurrency\<close> requests are inside \<^verbatim>\<open>Maybe\<close> past the admission
  check, at most \<open>InitialCapacity\<close> of them execute the thunk, and no
  \<^verbatim>\<open>semaphore.release\<close> panics on an unpaired release.
\<close>

theorem breaker_limits:
  assumes "InitialCapacity p < 2 ^ 32" and "breaker_reach p n (b, pcs)"
  shows "cnt holds_slot pcs \<le> QueueDepth p + MaxConcurrency p \<and>
    cnt (\<lambda>q. q = Running) pcs \<le> InitialCapacity p \<and> Panicked \<notin> set pcs"
proof -
  have inv: "breaker_inv p (b, pcs)" using assms by (rule breaker_reach_inv)
  have "cnt (\<lambda>q. q = Running) pcs \<le> cnt holds_sem pcs" by (rule cnt_mono) simp
  moreover have "Panicked \<notin> set pcs" using inv by (auto simp: breaker_inv_def pcs_ok_def)
  ultimately show ?thesis using inv by (auto simp: breaker_inv_def)
qed

theorem breaker_limits_witness:
  "cnt holds_slot [Running, Running, Idle] \<le> 3 \<and>
   cnt (\<lambda>q. q = Running) [Running, Running, Idle] \<le> 2 \<and> Panicked \<notin> set [Running, Running, Idle]"
  using breaker_limits [OF _ reach_running [of "\<lparr>QueueDepth = 1, MaxConcurrency = 2, InitialCapacity = 2\<rparr>" 2 3]]
  by (simp add: numeral_2_eq_2)

text \<open>
  C21: a request that waits for the semaphore is never stranded: a wake-up token is buffered in
  the channel, or another request executes the thunk or releases, or is about to read the
  state again or to send a token. (The channel must have room for one token and the capacity
  must not be zero.)
\<close>

theorem breaker_no_stranded_waiter:
  assumes "0 < InitialCapacity p" "InitialCapacity p < 2 ^ 32" "0 < MaxConcurrency p"
    and "breaker_reach p n (b, pcs)" and "SemWait \<in> set pcs"
  shows "0 < sem_queue (sem b) \<or> (\<exists>i < length pcs. holds_sem (pcs ! i) \<or> awake (pcs ! i))"
proof -
  have "wake_inv (b, pcs)"
    using breaker_reach_live [OF assms(1-4)] by (simp add: live_inv_def)
  then have "0 < sem_queue (sem b) \<or> 0 < cnt awake pcs \<or> 0 < cnt holds_sem pcs"
    using assms(5) by (auto simp: wake_inv_def)
  then show ?thesis by (meson cnt_pos_ex)
qed

text \<open>Two requests against a breaker of one unit: the first runs, the second waits.\<close>

definition one_unit :: breaker_params where
  "one_unit = \<lparr>QueueDepth = 1, MaxConcurrency = 1, InitialCapacity = 1\<rparr>"

definition waiting_sys :: breaker_sys where
  "waiting_sys = the (run_schedule (NewBreaker one_unit, replicate 2 Idle)
     (replicate 5 (0, 0) @ replicate 4 (1, 0)))"

lemma waiting_sys_run:
  "run_schedule (NewBreaker one_unit, replicate 2 Idle)
     (replicate 5 (0, 0) @ replicate 4 (1, 0)) = Some waiting_sys \<and> snd waiting_sys = [Running, SemWait]"
  by code_simp

lemma waiting_sys_reach: "breaker_reach one_unit 2 waiting_sys"
  using waiting_sys_run run_schedule_init by blast

theorem breaker_no_stranded_waiter_witness:
  "breaker_reach one_unit 2 waiting_sys \<and> SemWait \<in> set (snd waiting_sys) \<and>
   (0 < sem_queue (sem (fst waiting_sys)) \<or>
    (\<exists>i < length (snd waiting_sys). holds_sem (snd waiting_sys ! i) \<or> awake (snd waiting_sys ! i)))"
  using breaker_no_stranded_waiter [of one_unit 2 "fst waiting_sys" "snd waiting_sys"]
    waiting_sys_reach waiting_sys_run
  by (auto simp: one_unit_def)

text \<open>
  C20: the packed word and its compare-and-swap loops refine a counter with a limit: every step
  of every goroutine leaves the number of holders alone, raises it by one below
  \<open>InitialCapacity\<close>, or lowers it by one, and the word holds exactly that number.
\<close>

theorem semaphore_refines_counter:
  assumes "InitialCapacity p < 2 ^ 32" and "breaker_reach p n s" and "breaker_step s t"
  shows "counter_spec (InitialCapacity p) (holders s) (holders t) \<and>
    unpack (sem_state (sem (fst t))) = (of_nat (InitialCapacity p), of_nat (holders t))"
proof -
  have "breaker_reach p n t" using assms(2,3) by (rule reach_step)
  with assms(1) have inv: "breaker_inv p t" by (rule breaker_reach_inv)
  have "counter_spec (InitialCapacity p) (holders s) (holders t)"
    using assms(3) by (cases rule: breaker_step.cases) (use inv holders_move in auto)
  moreover have "unpack (sem_state (sem (fst t))) = (of_nat (InitialCapacity p), of_nat (holders t))"
    using inv assms(1) by (cases t) (auto simp: breaker_inv_def holders_def unpack_sem_word)
  ultimately show ?thesis ..
qed

theorem semaphore_refines_counter_witness:
  "counter_spec 1 (holders waiting_sys)
     (holders (fst waiting_sys, (snd waiting_sys)[0 := RelLoad]))"
proof -
  have "breaker_step (fst waiting_sys, snd waiting_sys) (fst waiting_sys, (snd waiting_sys)[0 := RelLoad])"
    by (rule breaker_step.move) (simp_all add: waiting_sys_run)
  then show ?thesis
    using semaphore_refines_counter [of one_unit 2 waiting_sys] waiting_sys_reach
    by (simp add: one_unit_def)
qed

text \<open>
  \<^verbatim>\<open>releaseInFlightSlot\<close> gives up after one failed compare-and-swap. Two requests that
  finish at the same time can leave \<^verbatim>\<open>inFlight\<close> at one after both have returned: the slot
  is lost for good, and with two slots in all, one more such collision leaves none.
\<close>

theorem in_flight_slot_leak:
  "\<exists>b. breaker_reach one_unit 2 (b, [Returned MaybeOk, Returned MaybeOk]) \<and> inFlight b = 1"
proof -
  let ?sch = "replicate 9 (0, 0) @ replicate 9 (1, 0) @ [(0, 0), (1, 0), (0, 0), (1, 0)]"
  have "map_option (\<lambda>(b, pcs). (pcs, inFlight b)) (run_schedule (NewBreaker one_unit, replicate 2 Idle) ?sch) =
    Some ([Returned MaybeOk, Returned MaybeOk], 1)"
    by code_simp
  then show ?thesis
    using run_schedule_init [of one_unit 2 ?sch] by (auto simp: map_option_case split: option.splits)
qed

text \<open>
  The number of requests that execute the thunk at once is bounded by
  \<open>InitialCapacity\<close>, and the bound is attained: with the default environment of the resolver
  (queue size 100, concurrency 10, initial capacity 100) a hundred requests run at once, ten
  times \<^verbatim>\<open>MaxConcurrency\<close>.
\<close>

theorem default_breaker_runs_initial_capacity:
  "\<exists>b. breaker_reach \<lparr>QueueDepth = 100, MaxConcurrency = 10, InitialCapacity = 100\<rparr> 100
      (b, replicate 100 Running)"
  using reach_running [of "\<lparr>QueueDepth = 100, MaxConcurrency = 10, InitialCapacity = 100\<rparr>" 100 100]
  by auto

end
