(* ===== verification/Throttler.thy ===== *)
theory Throttler
  imports Breaker Kube
begin

text \<open>
  The throttler of the resolver (\<^verbatim>\<open>src/resolver/internal/throttler/throttler.go\<close>) and the
  readiness check it uses (\<^verbatim>\<open>src/pkg/k8shelper/ops.go\<close>). A request waits in \<^verbatim>\<open>Try\<close>
  until its target is ready or its context is done. What happens while it waits for the breaker,
  sleeps or looks at its context is a record \<open>try_env\<close> of arbitrary programs: they may change the
  shared state in any way other requests and timers can. The breaker itself is in theory
  \<open>Breaker\<close>; here it admits the thunk or returns an error.
\<close>

record throttler_params =
  tp_QueueRetryDuration :: duration
  tp_TrafficReEnableDuration :: duration
  tp_QueueDepth :: nat
  tp_MaxConcurrency :: nat
  tp_InitialCapacity :: nat

record throttler =
  t_breaker :: breaker
  retryDuration :: duration
  t_TrafficReEnableDuration :: duration

definition NewThrottler :: "throttler_params \<Rightarrow> throttler" where
  "NewThrottler param =
     \<lparr>t_breaker = NewBreaker \<lparr>QueueDepth = tp_QueueDepth param, MaxConcurrency = tp_MaxConcurrency param,
        InitialCapacity = tp_InitialCapacity param\<rparr>,
      retryDuration = tp_QueueRetryDuration param, t_TrafficReEnableDuration = tp_TrafficReEnableDuration param\<rparr>"

record 'w thr_st = "'w st" +
  serviceReadyMap :: "(string, bool) sync_map"
  readyTimers :: "string list"
  queueSizeMap :: "(string, int) sync_map"

definition service_path :: "string \<Rightarrow> string \<Rightarrow> string" where
  "service_path namespace service = namespace @ ''/'' @ service"

section \<open>Readiness\<close>

definition endpoint_ready :: "endpoint \<Rightarrow> bool" where
  "endpoint_ready ep \<longleftrightarrow> (case ep_Ready ep of None \<Rightarrow> True | Some r \<Rightarrow> r)"

definition CheckIfServiceEndpointSliceActive ::
  "('w, 'x) api_scheme \<Rightarrow> string \<Rightarrow> string \<Rightarrow> (('w, 'z) st_scheme, bool) prog" where
  "CheckIfServiceEndpointSliceActive api ns svc =
     attempt (api_read (a_listSlices api svc (Some ns))) ''CheckIfServiceEndpointSliceActive - GET'' (\<lambda>slices.
       ret (list_ex (\<lambda>slice. list_ex endpoint_ready (eps_Endpoints slice)) slices))"

definition mark_ready :: "string \<Rightarrow> (('w, 'z) thr_st_scheme, bool) prog" where
  "mark_ready key = (\<lambda>s.
     (Ok True, s\<lparr>serviceReadyMap := Store (serviceReadyMap s) key True, readyTimers := key # readyTimers s\<rparr>))"

definition checkIfServiceReady ::
  "('w, 'x) api_scheme \<Rightarrow> string \<Rightarrow> string \<Rightarrow> (('w, 'z) thr_st_scheme, bool) prog" where
  "checkIfServiceReady api namespace service = (\<lambda>s.
     let key = service_path namespace service in
     case Load (serviceReadyMap s) key of
       Some ready \<Rightarrow> (Ok ready, s)
     | None \<Rightarrow>
         attempt (CheckIfServiceEndpointSliceActive api namespace service) ''unable to get target active endpoints'' (\<lambda>isPodActive.
           if \<not> isPodActive then fail (EMsg ''no active endpoints found'') else mark_ready key) s)"

text \<open>The timer that forgets that a service is ready.\<close>

definition ready_timer_fires :: "string \<Rightarrow> ('w, 'z) thr_st_scheme \<Rightarrow> ('w, 'z) thr_st_scheme" where
  "ready_timer_fires key s = s\<lparr>serviceReadyMap := Delete (serviceReadyMap s) key, readyTimers := remove1 key (readyTimers s)\<rparr>"

section \<open>Queue sizes\<close>

definition GetQueueSize :: "string \<Rightarrow> string \<Rightarrow> ('w, 'z) thr_st_scheme \<Rightarrow> int" where
  "GetQueueSize namespace service s =
     (case Load (queueSizeMap s) (service_path namespace service) of Some n \<Rightarrow> n | None \<Rightarrow> 0)"

definition change_queue_size :: "int \<Rightarrow> string \<Rightarrow> string \<Rightarrow> (('w, 'z) thr_st_scheme, unit) prog" where
  "change_queue_size d namespace service = (\<lambda>s.
     (Ok (), s\<lparr>queueSizeMap := Store (queueSizeMap s) (service_path namespace service) (GetQueueSize namespace service s + d)\<rparr>))"

definition incrementQueueSize :: "string \<Rightarrow> string \<Rightarrow> (('w, 'z) thr_st_scheme, unit) prog" where
  "incrementQueueSize = change_queue_size 1"

definition decrementQueueSize :: "string \<Rightarrow> string \<Rightarrow> (('w, 'z) thr_st_scheme, unit) prog" where
  "decrementQueueSize = change_queue_size (- 1)"

section \<open>Try\<close>

record 's try_env =
  te_Maybe :: "('s, unit) prog"               \<comment> \<open>the wait for the breaker\<close>
  te_Done :: "'s \<Rightarrow> ctx_err option \<times> 's"       \<comment> \<open>the context at the select\<close>
  te_Sleep :: "'s \<Rightarrow> 's"                      \<comment> \<open>the retry duration\<close>

text \<open>The thunk up to the select: the error of this round, and whether the request is tried again.\<close>

definition try_thunk ::
  "('w, 'x) api_scheme \<Rightarrow> host \<Rightarrow> (nat \<Rightarrow> (('w, 'z) thr_st_scheme, unit) prog) \<Rightarrow> (('w, 'z) thr_st_scheme \<Rightarrow> ('w, 'z) thr_st_scheme) \<Rightarrow>
   nat \<Rightarrow> (('w, 'z) thr_st_scheme, go_error option \<times> bool) prog" where
  "try_thunk api host resolve tryErrCallback tryCount =
     handle (checkIfServiceReady api (h_Namespace host) (TargetService host))
       (\<lambda>err s. (Ok (Some err, True), tryErrCallback s))
       (\<lambda>isPodActive.
          if isPodActive
          then handle (resolve tryCount)
                 (\<lambda>res. ret (Some (EWrap ''resolve error'' res), False))
                 (\<lambda>_. ret (None, False))
          else ret (None, True))"

definition try_select :: "('s, 'y) try_env_scheme \<Rightarrow> go_error option \<times> bool \<Rightarrow> ('s, go_error option \<times> bool) prog" where
  "try_select env r = (\<lambda>s.
     case te_Done env s of
       (Some e, s') \<Rightarrow> (Ok (Some (EWrap ''context done error'' (ECtx e)), False), s')
     | (None, s') \<Rightarrow> (Ok r, if snd r then te_Sleep env s' else s'))"

definition try_round ::
  "(('w, 'z) thr_st_scheme, 'y) try_env_scheme \<Rightarrow> ('w, 'x) api_scheme \<Rightarrow> host \<Rightarrow> (nat \<Rightarrow> (('w, 'z) thr_st_scheme, unit) prog) \<Rightarrow>
   (('w, 'z) thr_st_scheme \<Rightarrow> ('w, 'z) thr_st_scheme) \<Rightarrow> nat \<Rightarrow> (('w, 'z) thr_st_scheme, go_error option \<times> bool) prog" where
  "try_round env api host resolve tryErrCallback tryCount =
     attempt (te_Maybe env) ''breaker error'' (\<lambda>_.
       handle (try_thunk api host resolve tryErrCallback tryCount) fail (try_select env))"

partial_function (option) try_loop ::
  "(('w, 'z) thr_st_scheme, 'y) try_env_scheme \<Rightarrow> ('w, 'x) api_scheme \<Rightarrow> host \<Rightarrow> (nat \<Rightarrow> (('w, 'z) thr_st_scheme, unit) prog) \<Rightarrow>
   (('w, 'z) thr_st_scheme \<Rightarrow> ('w, 'z) thr_st_scheme) \<Rightarrow> nat \<Rightarrow> ('w, 'z) thr_st_scheme \<Rightarrow> (unit outcome \<times> ('w, 'z) thr_st_scheme) option" where
  "try_loop env api host resolve tryErrCallback tryCount s =
     (case try_round env api host resolve tryErrCallback tryCount s of
        (Ok (tryErr, reenqueue), s') \<Rightarrow>
          if reenqueue then try_loop env api host resolve tryErrCallback (tryCount + 1) s'
          else Some (case tryErr of None \<Rightarrow> Ok () | Some e \<Rightarrow> Err (EWrap ''thunk error'' e), s')
      | (Err e, s') \<Rightarrow> Some (Err e, s')
      | (Panic p, s') \<Rightarrow> Some (Panic p, s'))"

text \<open>The queue size is given back by a deferred call.\<close>

definition Try ::
  "(('w, 'z) thr_st_scheme, 'y) try_env_scheme \<Rightarrow> ('w, 'x) api_scheme \<Rightarrow> host \<Rightarrow> (nat \<Rightarrow> (('w, 'z) thr_st_scheme, unit) prog) \<Rightarrow>
   (('w, 'z) thr_st_scheme \<Rightarrow> ('w, 'z) thr_st_scheme) \<Rightarrow> ('w, 'z) thr_st_scheme \<Rightarrow> (unit outcome \<times> ('w, 'z) thr_st_scheme) option" where
  "Try env api host resolve tryErrCallback s =
     (case incrementQueueSize (h_Namespace host) (SourceService host) s of
        (_, s1) \<Rightarrow> map_option (\<lambda>(r, s2). (r, snd (decrementQueueSize (h_Namespace host) (SourceService host) s2)))
                     (try_loop env api host resolve tryErrCallback 1 s1))"

lemma Try_run:
  "Try env api host resolve callback s = Some (r, s') \<longleftrightarrow>
     (\<exists>s2. try_loop env api host resolve callback 1 (snd (incrementQueueSize (h_Namespace host) (SourceService host) s)) = Some (r, s2) \<and>
       s' = snd (decrementQueueSize (h_Namespace host) (SourceService host) s2))"
  by (auto simp: Try_def case_prod_beta)

section \<open>What Try does\<close>

text \<open>
  The specification: a request first waits for some rounds, in each of which the breaker admits it,
  the target is not ready and the context is not done, and which end with a sleep; the callback is
  started in every round whose readiness check fails. \<open>waits\<close> does not mention \<open>resolve\<close>.
\<close>

inductive waits ::
  "(('w, 'z) thr_st_scheme, 'y) try_env_scheme \<Rightarrow> ('w, 'x) api_scheme \<Rightarrow> host \<Rightarrow> (('w, 'z) thr_st_scheme \<Rightarrow> ('w, 'z) thr_st_scheme) \<Rightarrow>
   nat \<Rightarrow> ('w, 'z) thr_st_scheme \<Rightarrow> ('w, 'z) thr_st_scheme \<Rightarrow> bool"
  for env api host callback where
  waits_not: "waits env api host callback 0 s s"
| waits_round: "te_Maybe env s = (Ok (), s1) \<Longrightarrow>
    checkIfServiceReady api (h_Namespace host) (TargetService host) s1 = (x, s2) \<Longrightarrow>
    (\<exists>e. x = Err e \<and> s3 = callback s2) \<or> (x = Ok False \<and> s3 = s2) \<Longrightarrow>
    te_Done env s3 = (None, s4) \<Longrightarrow> waits env api host callback n (te_Sleep env s4) t \<Longrightarrow>
    waits env api host callback (Suc n) s t"

text \<open>The last round, with number \<open>k\<close>.\<close>

inductive ends ::
  "(('w, 'z) thr_st_scheme, 'y) try_env_scheme \<Rightarrow> ('w, 'x) api_scheme \<Rightarrow> host \<Rightarrow> (('w, 'z) thr_st_scheme \<Rightarrow> ('w, 'z) thr_st_scheme) \<Rightarrow>
   (nat \<Rightarrow> (('w, 'z) thr_st_scheme, unit) prog) \<Rightarrow> nat \<Rightarrow> ('w, 'z) thr_st_scheme \<Rightarrow> unit outcome \<Rightarrow> ('w, 'z) thr_st_scheme \<Rightarrow> bool"
  for env api host callback resolve k s where
  not_admitted: "te_Maybe env s = (Err e, s') \<Longrightarrow> ends env api host callback resolve k s (Err (EWrap ''breaker error'' e)) s'"
| breaker_panics: "te_Maybe env s = (Panic p, s') \<Longrightarrow> ends env api host callback resolve k s (Panic p) s'"
| timed_out: "te_Maybe env s = (Ok (), s1) \<Longrightarrow>
    checkIfServiceReady api (h_Namespace host) (TargetService host) s1 = (x, s2) \<Longrightarrow>
    (\<exists>e. x = Err e \<and> s3 = callback s2) \<or> (x = Ok False \<and> s3 = s2) \<Longrightarrow> te_Done env s3 = (Some c, s') \<Longrightarrow>
    ends env api host callback resolve k s (Err (EWrap ''thunk error'' (EWrap ''context done error'' (ECtx c)))) s'"
| resolved: "te_Maybe env s = (Ok (), s1) \<Longrightarrow>
    checkIfServiceReady api (h_Namespace host) (TargetService host) s1 = (Ok True, s2) \<Longrightarrow>
    resolve k s2 = (x, s3) \<Longrightarrow> \<forall>p. x \<noteq> Panic p \<Longrightarrow> te_Done env s3 = (None, s') \<Longrightarrow>
    ends env api host callback resolve k s
      (case x of Err e \<Rightarrow> Err (EWrap ''thunk error'' (EWrap ''resolve error'' e)) | _ \<Rightarrow> Ok ()) s'"
| resolved_late: "te_Maybe env s = (Ok (), s1) \<Longrightarrow>
    checkIfServiceReady api (h_Namespace host) (TargetService host) s1 = (Ok True, s2) \<Longrightarrow>
    resolve k s2 = (x, s3) \<Longrightarrow> \<forall>p. x \<noteq> Panic p \<Longrightarrow> te_Done env s3 = (Some c, s') \<Longrightarrow>
    ends env api host callback resolve k s (Err (EWrap ''thunk error'' (EWrap ''context done error'' (ECtx c)))) s'"
| resolve_panics: "te_Maybe env s = (Ok (), s1) \<Longrightarrow>
    checkIfServiceReady api (h_Namespace host) (TargetService host) s1 = (Ok True, s2) \<Longrightarrow>
    resolve k s2 = (Panic p, s') \<Longrightarrow> ends env api host callback resolve k s (Panic p) s'"

lemma checkIfServiceReady_no_panic: "fst (checkIfServiceReady api ns svc s) \<noteq> Panic p"
  by (auto simp: checkIfServiceReady_def CheckIfServiceEndpointSliceActive_def attempt_def handle_def api_read_def
      lift_sum_def mark_ready_def Let_def split: option.splits prod.splits sum.splits if_splits)

lemma try_round_admitted:
  "te_Maybe env s = (Ok u, s1) \<Longrightarrow>
   try_round env api host resolve callback k s = handle (try_thunk api host resolve callback k) fail (try_select env) s1"
  by (simp add: try_round_def attempt_def)

lemma ready_round:
  assumes "te_Maybe env s = (Ok (), s1)"
    and "checkIfServiceReady api (h_Namespace host) (TargetService host) s1 = (Ok True, s2)" and "resolve k s2 = (y, s3)"
  shows "try_round env api host resolve callback k s =
    (case y of
       Ok u \<Rightarrow> try_select env (None, False) s3
     | Err e \<Rightarrow> try_select env (Some (EWrap ''resolve error'' e), False) s3
     | Panic p \<Rightarrow> (Panic p, s3))"
  using assms(2,3) unfolding try_round_admitted [OF assms(1)]
  by (cases y) (simp_all add: handle_run try_thunk_def)

lemma try_loop_stops:
  "try_round env api host resolve callback k s = (Ok (e, False), s') \<Longrightarrow>
     try_loop env api host resolve callback k s = Some (case e of None \<Rightarrow> Ok () | Some e \<Rightarrow> Err (EWrap ''thunk error'' e), s')"
  "try_round env api host resolve callback k s = (Err err, s') \<Longrightarrow> try_loop env api host resolve callback k s = Some (Err err, s')"
  "try_round env api host resolve callback k s = (Panic p, s') \<Longrightarrow> try_loop env api host resolve callback k s = Some (Panic p, s')"
  by (simp_all add: try_loop.simps)

text \<open>A round that calls \<open>resolve\<close> is the last one.\<close>

lemma ready_round_over:
  assumes admitted: "te_Maybe env s = (Ok (), s1)"
    and check: "checkIfServiceReady api (h_Namespace host) (TargetService host) s1 = (Ok True, s2)"
  shows "\<exists>r s'. ends env api host callback resolve k s r s' \<and> try_loop env api host resolve callback k s = Some (r, s') \<and>
    (\<forall>e s''. try_round env api host resolve callback k s \<noteq> (Ok (e, True), s''))"
proof -
  let ?round = "try_round env api host resolve callback k s"
  obtain y s3 where y: "resolve k s2 = (y, s3)" by fastforce
  obtain d s' where d: "te_Done env s3 = (d, s')" by fastforce
  note round = ready_round [where resolve = resolve and k = k and callback = callback, OF admitted check y]
  show ?thesis
  proof (cases "\<exists>p. y = Panic p")
    case True
    then obtain p where p: "y = Panic p" by blast
    then have "?round = (Panic p, s3)" by (simp add: round)
    moreover have "ends env api host callback resolve k s (Panic p) s3"
      by (rule ends.resolve_panics [OF admitted check]) (simp add: y p)
    ultimately show ?thesis by (auto simp: try_loop.simps)
  next
    case False
    then have y': "\<forall>p. y \<noteq> Panic p" by blast
    define e where "e = (case y of Err e \<Rightarrow> Some (EWrap ''resolve error'' e) | _ \<Rightarrow> None)"
    have body: "?round = try_select env (e, False) s3"
      using y' by (cases y) (simp_all add: round e_def)
    show ?thesis
    proof (cases d)
      case None
      then have run: "?round = (Ok (e, False), s')" using body d by (simp add: try_select_def)
      moreover have "(case e of None \<Rightarrow> Ok () | Some e \<Rightarrow> Err (EWrap ''thunk error'' e)) =
          (case y of Err e \<Rightarrow> Err (EWrap ''thunk error'' (EWrap ''resolve error'' e)) | _ \<Rightarrow> Ok ())"
        using y' by (cases y) (simp_all add: e_def)
      moreover have "ends env api host callback resolve k s
          (case y of Err e \<Rightarrow> Err (EWrap ''thunk error'' (EWrap ''resolve error'' e)) | _ \<Rightarrow> Ok ()) s'"
        using d None by (intro ends.resolved [OF admitted check _ y']) (simp_all add: y)
      ultimately show ?thesis by (auto simp: try_loop.simps)
    next
      case (Some c)
      then have "?round = (Ok (Some (EWrap ''context done error'' (ECtx c)), False), s')"
        using body d by (simp add: try_select_def)
      moreover have "ends env api host callback resolve k s (Err (EWrap ''thunk error'' (EWrap ''context done error'' (ECtx c)))) s'"
        using d Some by (intro ends.resolved_late [OF admitted check _ y']) (simp_all add: y)
      ultimately show ?thesis by (auto simp: try_loop.simps)
    qed
  qed
qed

text \<open>A round waits, or it is the last one; there is nothing else.\<close>

lemma try_round_cases:
  obtains (wait) s1 x s2 s3 s4 tryErr where
    "te_Maybe env s = (Ok (), s1)" "checkIfServiceReady api (h_Namespace host) (TargetService host) s1 = (x, s2)"
    "(\<exists>e. x = Err e \<and> s3 = callback s2) \<or> (x = Ok False \<and> s3 = s2)" "te_Done env s3 = (None, s4)"
    "try_round env api host resolve callback k s = (Ok (tryErr, True), te_Sleep env s4)"
  | (over) r s' where "ends env api host callback resolve k s r s'"
    "try_loop env api host resolve callback k s = Some (r, s')"
    "\<And>e s''. try_round env api host resolve callback k s \<noteq> (Ok (e, True), s'')"
proof (cases rule: handle_cases [of "te_Maybe env" s "\<lambda>e. fail (EWrap ''breaker error'' e)"
      "\<lambda>_. handle (try_thunk api host resolve callback k) fail (try_select env)"])
  case (ok u s1)
  have admitted: "te_Maybe env s = (Ok (), s1)" using ok by simp
  obtain x s2 where check: "checkIfServiceReady api (h_Namespace host) (TargetService host) s1 = (x, s2)" by fastforce
  show thesis
  proof (cases "x = Ok True")
    case True
    then show thesis using ready_round_over [OF admitted, of api host s2 callback resolve k] check over by auto
  next
    case False
    then obtain s3 e where s3: "(\<exists>e. x = Err e \<and> s3 = callback s2) \<or> (x = Ok False \<and> s3 = s2)"
      "try_thunk api host resolve callback k s1 = (Ok (e, True), s3)"
      using check checkIfServiceReady_no_panic [of api "h_Namespace host" "TargetService host" s1]
      by (cases x) (auto simp: try_thunk_def handle_run)
    obtain d s' where d: "te_Done env s3 = (d, s')" by fastforce
    show thesis
    proof (cases d)
      case None
      then show thesis using wait [OF admitted check s3(1)] d s3(2) by (simp add: try_round_admitted [OF admitted] try_select_def)
    next
      case (Some c)
      then show thesis
        using over [OF ends.timed_out [where callback = callback, OF admitted check s3(1)]] d s3(2)
        by (simp add: try_loop.simps try_round_admitted [OF admitted] try_select_def)
    qed
  qed
next
  case (err e s')
  then have "ends env api host callback resolve k s (Err (EWrap ''breaker error'' e)) s'" by (intro ends.not_admitted)
  with err show thesis using over by (simp add: try_loop.simps try_round_def)
next
  case (panicked p s')
  then have "ends env api host callback resolve k s (Panic p) s'" by (intro ends.breaker_panics)
  with panicked show thesis using over by (simp add: try_loop.simps try_round_def)
qed

lemma try_loop_waits:
  "try_round env api host resolve callback k s = (Ok (e, True), s') \<Longrightarrow>
   try_loop env api host resolve callback k s = try_loop env api host resolve callback (Suc k) s'"
  by (simp add: try_loop.simps)

lemma try_loop_returns:
  assumes "waits env api host callback n s t" "ends env api host callback resolve (k + n) t r s'"
  shows "try_loop env api host resolve callback k s = Some (r, s')"
  using assms
proof (induction arbitrary: k rule: waits.induct)
  case (waits_not s)
  then show ?case
  proof (cases rule: try_round_cases [of env s api host callback resolve k])
    case (wait s1 x s2 s3 s4 e)
    with waits_not show ?thesis by (auto elim!: ends.cases)
  next
    case (over r' s'')
    with waits_not show ?thesis by (auto elim!: ends.cases)
  qed
next
  case (waits_round s s1 x s2 s3 s4 n t)
  have "\<exists>e. try_thunk api host resolve callback k s1 = (Ok (e, True), s3)"
    using waits_round(2,3) by (auto simp: try_thunk_def handle_run)
  then have "\<exists>e. try_round env api host resolve callback k s = (Ok (e, True), te_Sleep env s4)"
    using waits_round(1,4) by (auto simp: try_round_admitted [OF waits_round(1)] try_select_def)
  then show ?case using waits_round.IH [of "Suc k"] waits_round.prems by (auto simp: try_loop_waits)
qed


lemma try_loop_sound:
  assumes ret: "try_loop env api host resolve callback k s = Some q"
  shows "\<exists>n t. waits env api host callback n s t \<and> ends env api host callback resolve (k + n) t (fst q) (snd q)"
proof (rule try_loop.raw_induct [where P = "\<lambda>env api host resolve callback k s q.
      \<exists>n t. waits env api host callback n s t \<and> ends env api host callback resolve (k + n) t (fst q) (snd q)", OF _ ret])
  fix f :: "(('a, 'b) thr_st_scheme, 'c) try_env_scheme \<Rightarrow> ('a, 'd) api_scheme \<Rightarrow> host \<Rightarrow> (nat \<Rightarrow> (('a, 'b) thr_st_scheme, unit) prog) \<Rightarrow>
      (('a, 'b) thr_st_scheme \<Rightarrow> ('a, 'b) thr_st_scheme) \<Rightarrow> nat \<Rightarrow> ('a, 'b) thr_st_scheme \<Rightarrow> (unit outcome \<times> ('a, 'b) thr_st_scheme) option"
    and env api host resolve callback k s q
  assume IH: "\<And>env api host resolve callback k s q. f env api host resolve callback k s = Some q \<Longrightarrow>
      \<exists>n t. waits env api host callback n s t \<and> ends env api host callback resolve (k + n) t (fst q) (snd q)"
    and eq: "(case try_round env api host resolve callback k s of
        (Ok (tryErr, reenqueue), s') \<Rightarrow>
          if reenqueue then f env api host resolve callback (k + 1) s'
          else Some (case tryErr of None \<Rightarrow> Ok () | Some e \<Rightarrow> Err (EWrap ''thunk error'' e), s')
      | (Err e, s') \<Rightarrow> Some (Err e, s') | (Panic p, s') \<Rightarrow> Some (Panic p, s')) = Some q"
  show "\<exists>n t. waits env api host callback n s t \<and> ends env api host callback resolve (k + n) t (fst q) (snd q)"
  proof (cases rule: try_round_cases [of env s api host callback resolve k])
    case (wait s1 x s2 s3 s4 tryErr)
    with eq have "f env api host resolve callback (k + 1) (te_Sleep env s4) = Some q" by simp
    from IH [OF this] obtain n t where "waits env api host callback n (te_Sleep env s4) t"
      "ends env api host callback resolve (k + 1 + n) t (fst q) (snd q)" by blast
    then show ?thesis using waits_round [where callback = callback, OF wait(1-4)] by (intro exI [of _ "Suc n"] exI [of _ t]) simp
  next
    case (over r s')
    obtain a b where ab: "try_round env api host resolve callback k s = (a, b)" by fastforce
    have "q = (r, s')"
    proof (cases a)
      case (Ok er)
      then have "snd er = False" using over(3) [of "fst er" b] ab by (cases er) auto
      then show ?thesis using eq over(2) ab Ok by (cases er) (simp add: try_loop_stops(1))
    qed (use eq over(2) ab in \<open>simp_all add: try_loop_stops\<close>)
    with over(1) show ?thesis by (intro exI [of _ 0] exI [of _ s]) (simp add: waits_not)
  qed
qed

lemma wait_round:
  assumes "te_Maybe env s = (Ok (), s1)"
    and "checkIfServiceReady api (h_Namespace host) (TargetService host) s1 = (x, s2)"
    and "(\<exists>e. x = Err e \<and> s3 = callback s2) \<or> (x = Ok False \<and> s3 = s2)"
  shows "try_round env api host resolve callback k s = try_select env (case x of Err e \<Rightarrow> Some e | _ \<Rightarrow> None, True) s3"
  using assms(2,3) unfolding try_round_admitted [OF assms(1)]
  by (auto simp: handle_run try_thunk_def)

lemma waits_loop:
  "waits env api host callback n s t \<Longrightarrow>
   try_loop env api host resolve callback k s = try_loop env api host resolve callback (k + n) t"
proof (induction arbitrary: k rule: waits.induct)
  case (waits_round s s1 x s2 s3 s4 n t)
  from wait_round [where callback = callback and resolve = resolve and k = k, OF waits_round.hyps(1-3)]
  have "try_loop env api host resolve callback k s = try_loop env api host resolve callback (k + 1) (te_Sleep env s4)"
    using waits_round.hyps(4) by (subst try_loop.simps) (simp add: try_select_def)
  with waits_round.IH [of "k + 1"] show ?case by simp
qed simp

lemma ends_loop:
  assumes "ends env api host callback resolve k s r s'"
  shows "try_loop env api host resolve callback k s = Some (r, s')"
  using assms
proof cases
  case (not_admitted e)
  then have "try_round env api host resolve callback k s = (case r of Err e \<Rightarrow> Err e | Panic p \<Rightarrow> Panic p | Ok u \<Rightarrow> Panic [], s')" by (simp add: try_round_def)
  with not_admitted(1) show ?thesis by (simp add: try_loop_stops)
next
  case (breaker_panics p)
  then have "try_round env api host resolve callback k s = (case r of Err e \<Rightarrow> Err e | Panic p \<Rightarrow> Panic p | Ok u \<Rightarrow> Panic [], s')" by (simp add: try_round_def)
  with breaker_panics(1) show ?thesis by (simp add: try_loop_stops)
next
  case (timed_out s1 x s2 s3 c)
  from wait_round [where callback = callback and resolve = resolve and k = k, OF timed_out(2-4)] timed_out(1,5)
  show ?thesis by (simp add: try_select_def try_loop_stops)
next
  case (resolved s1 s2 x s3)
  from ready_round [where callback = callback and resolve = resolve and k = k, OF resolved(2-4)] resolved(1,5,6)
  show ?thesis by (cases x) (simp_all add: try_select_def try_loop_stops)
next
  case (resolved_late s1 s2 x s3 c)
  from ready_round [where callback = callback and resolve = resolve and k = k, OF resolved_late(2-4)] resolved_late(1,5,6)
  show ?thesis by (cases x) (simp_all add: try_select_def try_loop_stops)
next
  case (resolve_panics s1 s2 p)
  from ready_round [where callback = callback and resolve = resolve and k = k, OF resolve_panics(2-4)] resolve_panics(1)
  show ?thesis by (simp add: try_loop_stops)
qed

lemma try_loop_spec:
  "try_loop env api host resolve callback k s = Some (r, s') \<longleftrightarrow>
     (\<exists>n t. waits env api host callback n s t \<and> ends env api host callback resolve (k + n) t r s')"
proof
  assume "try_loop env api host resolve callback k s = Some (r, s')"
  then show "\<exists>n t. waits env api host callback n s t \<and> ends env api host callback resolve (k + n) t r s'"
    using try_loop_sound [of env api host resolve callback k s "(r, s')"] by simp
next
  assume "\<exists>n t. waits env api host callback n s t \<and> ends env api host callback resolve (k + n) t r s'"
  then obtain n t where "waits env api host callback n s t" and "ends env api host callback resolve (k + n) t r s'" by blast
  from waits_loop [OF this(1), of resolve k] ends_loop [OF this(2)]
  show "try_loop env api host resolve callback k s = Some (r, s')" by (rule trans)
qed

text \<open>
  C4: \<^verbatim>\<open>Try\<close> does exactly what the specification says: the request is counted, waits for some
  number of rounds without being sent, and then there is one last round, in which it is sent once if
  the target is ready. It is never sent twice, never sent to a target that was not found ready, what
  \<^verbatim>\<open>Try\<close> returns is the outcome of that round, and the count is given back however it ends.
\<close>

theorem try_refines_spec:
  "Try env api host resolve callback s = Some (r, s') \<longleftrightarrow>
     (\<exists>n t s2. waits env api host callback n (snd (incrementQueueSize (h_Namespace host) (SourceService host) s)) t \<and>
       ends env api host callback resolve (1 + n) t r s2 \<and>
       s' = snd (decrementQueueSize (h_Namespace host) (SourceService host) s2))"
  by (auto simp: Try_run try_loop_spec)

section \<open>Termination\<close>

text \<open>
  A context with a deadline: \<open>left w\<close> bounds the number of sleeps that fit between the time of
  world \<open>w\<close> and the deadline. Time does not run backwards, a sleep uses up some of what is left,
  and when nothing is left the context is done.
\<close>

definition deadline ::
  "('w \<Rightarrow> nat) \<Rightarrow> (('w, 'z) thr_st_scheme, 'y) try_env_scheme \<Rightarrow> ('w, 'x) api_scheme \<Rightarrow>
   (('w, 'z) thr_st_scheme \<Rightarrow> ('w, 'z) thr_st_scheme) \<Rightarrow> bool" where
  "deadline left env api callback \<longleftrightarrow>
     (\<forall>s r s'. te_Maybe env s = (r, s') \<longrightarrow> left (world s') \<le> left (world s)) \<and>
     (\<forall>ns svc w r w'. a_listSlices api svc ns w = (r, w') \<longrightarrow> left w' \<le> left w) \<and>
     (\<forall>s. left (world (callback s)) \<le> left (world s)) \<and>
     (\<forall>s s'. te_Done env s = (None, s') \<longrightarrow> left (world (te_Sleep env s')) < left (world s))"

lemma check_keeps_time:
  fixes s :: "('w, 'z) thr_st_scheme"
  assumes "deadline left env api callback" and "checkIfServiceReady api ns svc s = (x, s')"
  shows "left (world s') \<le> left (world s)"
proof (cases "Load (serviceReadyMap s) (service_path ns svc)")
  case (Some b)
  then show ?thesis using assms(2) by (simp add: checkIfServiceReady_def)
next
  case None
  obtain r w where list: "a_listSlices api svc (Some ns) (world s) = (r, w)" by fastforce
  then have "left w \<le> left (world s)" using assms(1) unfolding deadline_def by blast
  moreover have "world s' = w"
    using assms(2) None list
    by (cases r) (auto simp: checkIfServiceReady_def CheckIfServiceEndpointSliceActive_def attempt_def handle_run api_read_def mark_ready_def
        split: if_splits)
  ultimately show ?thesis by simp
qed

lemma round_uses_time:
  assumes d: "deadline left env api callback"
    and "te_Maybe env s = (Ok (), s1)"
    and "checkIfServiceReady api (h_Namespace host) (TargetService host) s1 = (x, s2)"
    and "(\<exists>e. x = Err e \<and> s3 = callback s2) \<or> (x = Ok False \<and> s3 = s2)" and "te_Done env s3 = (None, s4)"
  shows "left (world (te_Sleep env s4)) < left (world s)"
proof -
  have "left (world (te_Sleep env s4)) < left (world s3)" using d assms(5) unfolding deadline_def by blast
  also have "\<dots> \<le> left (world s2)" using d assms(4) unfolding deadline_def by auto
  also have "\<dots> \<le> left (world s1)" by (rule check_keeps_time [OF d assms(3)])
  also have "\<dots> \<le> left (world s)" using d assms(2) unfolding deadline_def by blast
  finally show ?thesis .
qed

lemma waits_bounded:
  "waits env api host callback n s t \<Longrightarrow> deadline left env api callback \<Longrightarrow> n \<le> left (world s)"
proof (induction rule: waits.induct)
  case (waits_round s s1 x s2 s3 s4 n t)
  have "left (world (te_Sleep env s4)) < left (world s)"
    by (rule round_uses_time [OF waits_round.prems waits_round.hyps(1-4)])
  with waits_round.IH waits_round.prems show ?case by simp
qed simp

lemma some_round_is_last:
  assumes "deadline left env api callback"
  shows "\<exists>n t r s'. waits env api host callback n s t \<and> ends env api host callback resolve (k + n) t r s'"
proof (induction "left (world s)" arbitrary: s k rule: less_induct)
  case less
  show ?case
  proof (cases rule: try_round_cases [of env s api host callback resolve k])
    case (wait s1 x s2 s3 s4 tryErr)
    have "left (world (te_Sleep env s4)) < left (world s)" by (rule round_uses_time [OF assms wait(1-4)])
    from less [OF this, of "k + 1"] obtain n t r s' where
      "waits env api host callback n (te_Sleep env s4) t" "ends env api host callback resolve (k + 1 + n) t r s'" by blast
    then show ?thesis
      using waits_round [where callback = callback, OF wait(1-4)] by (intro exI [of _ "Suc n"] exI [of _ t]) auto
  next
    case (over r s')
    then show ?thesis using waits_not [of env api host callback s] by (metis add_0_right)
  qed
qed

text \<open>
  C8: a request does not wait for ever. If its context has a deadline, \<^verbatim>\<open>Try\<close> returns, whatever
  the readiness checks answer and whatever other requests do, and waits at most as many rounds as
  sleeps fit before the deadline.
\<close>

theorem try_terminates:
  assumes "deadline left env api callback"
  shows "\<exists>n t r s2. Try env api host resolve callback s =
      Some (r, snd (decrementQueueSize (h_Namespace host) (SourceService host) s2)) \<and>
    waits env api host callback n (snd (incrementQueueSize (h_Namespace host) (SourceService host) s)) t \<and>
    ends env api host callback resolve (1 + n) t r s2 \<and> n \<le> left (world s)"
proof -
  define s1 where "s1 = snd (incrementQueueSize (h_Namespace host) (SourceService host) s)"
  obtain n t r s2 where run: "waits env api host callback n s1 t" "ends env api host callback resolve (1 + n) t r s2"
    using some_round_is_last [OF assms, where k = 1] by blast
  then have "try_loop env api host resolve callback 1 s1 = Some (r, s2)"
    by (simp only: waits_loop [OF run(1)] ends_loop)
  moreover have "n \<le> left (world s)"
    using waits_bounded [OF run(1) assms] by (simp add: s1_def incrementQueueSize_def change_queue_size_def)
  ultimately show ?thesis using run unfolding Try_run s1_def by blast
qed

definition idle_api :: "nat api" where
  "idle_api =
     \<lparr>a_getES = (\<lambda>_ w. (Inl (EStatus NotFound), w)), a_listES = (\<lambda>w. (Inr [], w)),
      a_dynListES = (\<lambda>_ w. (Inr [], w)), a_getService = (\<lambda>_ w. (Inl (EStatus NotFound), w)),
      a_getSlice = (\<lambda>_ w. (Inl (EStatus NotFound), w)), a_listSlices = (\<lambda>_ _ w. (Inr [], w)),
      a_listPods = (\<lambda>_ _ w. (Inr [], w)), a_getScale = (\<lambda>_ _ _ w. (Inl (EStatus NotFound), w)),
      a_getDynamic = (\<lambda>_ _ _ w. (Inl (EStatus NotFound), w)), a_addEventHandler = (\<lambda>_ _ _ w. (Inr (), w)),
      a_waitForSync = (\<lambda>_ _ _ w. (True, w)), a_write = (\<lambda>_ w. (Inr (), w)), a_now = (\<lambda>w. (0, w)),
      a_http = (\<lambda>_ _ _ w. (Inl (EMsg ''refused''), w)), a_getenv = (\<lambda>_. []),
      a_ParseGroupVersion = (\<lambda>v. Inr ([], v)), a_toLabelSelector = Inr, a_asSelector = Inr,
      a_controllerReference = (\<lambda>_ _. Inl (EMsg ''no scheme''))\<rparr>"

text \<open>A clock that counts down to the deadline, an idle breaker, and a target of the shop.\<close>

definition clock_env :: "(nat, 'z) thr_st_scheme try_env" where
  "clock_env =
     \<lparr>te_Maybe = ret (), te_Done = (\<lambda>s. (if world s = 0 then Some DeadlineExceeded else None, s)),
      te_Sleep = (\<lambda>s. s\<lparr>world := world s - 1\<rparr>)\<rparr>"

definition clock_st :: "nat \<Rightarrow> nat thr_st" where
  "clock_st n = \<lparr>world = n, writes = [], serviceReadyMap = sm_empty, readyTimers = [], queueSizeMap = sm_empty\<rparr>"

definition web_host :: host where
  "web_host =
     \<lparr>IncomingHost = ''web.shop.svc'', h_Namespace = ''shop'', SourceService = ''web'', TargetService = ''web-pvt'',
      SourceHost = ''http://web.shop.svc'', TargetHost = ''http://web-pvt.shop.svc'', TrafficAllowed = True,
      TrafficDisableScheduled = False\<rparr>"

lemma clock_deadline: "deadline Suc clock_env idle_api (\<lambda>s. s)"
  by (auto simp: deadline_def clock_env_def idle_api_def split: if_splits)

theorem try_terminates_witness:
  "\<exists>r s'. Try clock_env idle_api web_host (\<lambda>_. ret ()) (\<lambda>s. s) (clock_st 3) = Some (r, s')"
  using try_terminates [OF clock_deadline] by blast

text \<open>
  A request that was sent and answered is reported as failed if its context is done by the time
  the answer has been copied: the error of the context replaces the result.
\<close>

theorem served_request_reported_failed:
  assumes "te_Maybe env s = (Ok (), s1)"
    and "checkIfServiceReady api (h_Namespace host) (TargetService host) s1 = (Ok True, s2)"
    and "resolve k s2 = (Ok (), s3)" and "te_Done env s3 = (Some c, s4)"
  shows "try_loop env api host resolve callback k s =
    Some (Err (EWrap ''thunk error'' (EWrap ''context done error'' (ECtx c))), s4)"
  by (rule ends_loop, rule ends.resolved_late) (use assms in auto)

definition expired_st :: "nat thr_st" where
  "expired_st = (clock_st 0)\<lparr>serviceReadyMap := Store sm_empty ''shop/web-pvt'' True\<rparr>"

theorem served_request_reported_failed_witness:
  "try_loop clock_env idle_api web_host (\<lambda>_. ret ()) (\<lambda>s. s) 1 expired_st =
    Some (Err (EWrap ''thunk error'' (EWrap ''context done error'' (ECtx DeadlineExceeded))), expired_st)"
proof (rule served_request_reported_failed)
  show "te_Maybe clock_env expired_st = (Ok (), expired_st)" by (simp add: clock_env_def)
  show "checkIfServiceReady idle_api (h_Namespace web_host) (TargetService web_host) expired_st = (Ok True, expired_st)"
    by (simp add: checkIfServiceReady_def service_path_def web_host_def expired_st_def)
  show "ret () expired_st = (Ok (), expired_st)" by simp
  show "te_Done clock_env expired_st = (Some DeadlineExceeded, expired_st)"
    by (simp add: clock_env_def expired_st_def clock_st_def)
qed

section \<open>The cache of ready services\<close>

text \<open>Checks by any request, timers, and whatever else happens to the world.\<close>

inductive ready_step :: "('w, 'x) api_scheme \<Rightarrow> ('w, 'z) thr_st_scheme \<Rightarrow> ('w, 'z) thr_st_scheme \<Rightarrow> bool"
  for api where
  check: "ready_step api s (snd (checkIfServiceReady api ns svc s))"
| forget: "key \<in> set (readyTimers s) \<Longrightarrow> ready_step api s (ready_timer_fires key s)"
| elsewhere: "ready_step api s (s\<lparr>world := w, queueSizeMap := m\<rparr>)"

definition ready_init :: "('w, 'z) thr_st_scheme \<Rightarrow> bool" where
  "ready_init s \<longleftrightarrow> serviceReadyMap s = sm_empty \<and> readyTimers s = []"

definition ready_inv :: "('w, 'z) thr_st_scheme \<Rightarrow> bool" where
  "ready_inv s \<longleftrightarrow> (\<forall>key b. Load (serviceReadyMap s) key = Some b \<longrightarrow> b \<and> key \<in> set (readyTimers s))"

lemma checkIfServiceReady_state:
  obtains w where "snd (checkIfServiceReady api ns svc s) = s\<lparr>world := w\<rparr>"
  | w where "snd (checkIfServiceReady api ns svc s) =
      s\<lparr>world := w, serviceReadyMap := Store (serviceReadyMap s) (service_path ns svc) True, readyTimers := service_path ns svc # readyTimers s\<rparr>"
proof (cases "Load (serviceReadyMap s) (service_path ns svc)")
  case (Some b)
  then show thesis using that(1) [of "world s"] by (simp add: checkIfServiceReady_def)
next
  case None
  obtain r w where list: "a_listSlices api svc (Some ns) (world s) = (r, w)" by fastforce
  note check = checkIfServiceReady_def CheckIfServiceEndpointSliceActive_def attempt_def handle_run api_read_def mark_ready_def
  show thesis
  proof (cases "\<exists>slices. r = Inr slices \<and> list_ex (\<lambda>slice. list_ex endpoint_ready (eps_Endpoints slice)) slices")
    case True
    then show thesis using that(2) [of w] None list by (auto simp: check)
  next
    case False
    then show thesis using that(1) [of w] None list by (cases r) (auto simp: check)
  qed
qed

interpretation ready_cache: invariant_system ready_init "ready_step api" ready_inv for api :: "('w, 'x) api_scheme"
proof unfold_locales
  show "ready_inv s" if "ready_init s" for s :: "('w, 'z) thr_st_scheme"
    using that by (simp add: ready_init_def ready_inv_def)
  show "ready_inv t" if "ready_inv s" and "ready_step api s t" for s t :: "('w, 'z) thr_st_scheme"
    using that(2,1)
  proof cases
    case (check ns svc)
    then show ?thesis using \<open>ready_inv s\<close>
      by (cases rule: checkIfServiceReady_state [of api ns svc s]) (auto simp: ready_inv_def split: if_splits)
  next
    case (forget key)
    then show ?thesis using \<open>ready_inv s\<close> by (auto simp: ready_inv_def ready_timer_fires_def split: if_splits)
  next
    case elsewhere
    then show ?thesis using \<open>ready_inv s\<close> by (auto simp: ready_inv_def)
  qed
qed

text \<open>
  C34: readiness is never remembered for good. In every reachable state the cache of the throttler
  holds only positive answers, and for each of them a timer is pending that will forget it.
\<close>

theorem ready_answers_expire:
  assumes "reach ready_init (ready_step api) s"
  shows "Load (serviceReadyMap s) key = None \<or> (Load (serviceReadyMap s) key = Some True \<and> key \<in> set (readyTimers s))"
  using ready_cache.reach_inv [OF assms] unfolding ready_inv_def by (cases "Load (serviceReadyMap s) key") auto

definition ready_api :: "nat api" where
  "ready_api = idle_api\<lparr>a_listSlices := (\<lambda>_ _ w. (Inr [\<lparr>eps_Name = ''web-1'', eps_Namespace = ''shop'', eps_Labels = [],
     eps_AddressType = ''IPv4'', eps_Ports = [], eps_Endpoints = [\<lparr>ep_Addresses = [''10.0.0.1''], ep_Ready = None\<rparr>]\<rparr>], w))\<rparr>"

theorem ready_answers_expire_witness:
  "Load (serviceReadyMap (snd (checkIfServiceReady ready_api ''shop'' ''web-pvt'' (clock_st 3)))) ''shop/web-pvt'' = Some True \<and>
   ''shop/web-pvt'' \<in> set (readyTimers (snd (checkIfServiceReady ready_api ''shop'' ''web-pvt'' (clock_st 3))))"
proof -
  let ?s = "snd (checkIfServiceReady ready_api ''shop'' ''web-pvt'' (clock_st 3))"
  have reached: "reach ready_init (ready_step ready_api) ?s"
    by (rule reach_step [where s = "clock_st 3"], rule reach_init) (simp_all add: ready_init_def clock_st_def ready_step.check)
  have "Load (serviceReadyMap ?s) ''shop/web-pvt'' \<noteq> None"
    by (simp add: Let_def checkIfServiceReady_def CheckIfServiceEndpointSliceActive_def attempt_def handle_run api_read_def mark_ready_def
        ready_api_def idle_api_def clock_st_def service_path_def endpoint_ready_def)
  with ready_answers_expire [OF reached, of "''shop/web-pvt''"] show ?thesis by simp
qed

section \<open>Concurrent changes of a queue size\<close>

text \<open>
  The map is concurrent but a change is a load and a store. Requests are numbered; \<open>locals\<close> is what
  each has loaded.
\<close>

datatype queue_act = LoadSize | StoreSize int

fun queue_step :: "string \<Rightarrow> string \<Rightarrow> nat \<times> queue_act \<Rightarrow> (nat \<Rightarrow> int) \<times> ('w, 'z) thr_st_scheme \<Rightarrow> (nat \<Rightarrow> int) \<times> ('w, 'z) thr_st_scheme" where
  "queue_step ns svc (g, LoadSize) (locals, s) = (locals(g := GetQueueSize ns svc s), s)"
| "queue_step ns svc (g, StoreSize d) (locals, s) =
     (locals, s\<lparr>queueSizeMap := Store (queueSizeMap s) (service_path ns svc) (locals g + d)\<rparr>)"

lemma queue_size_update [simp]:
  "GetQueueSize ns svc (s\<lparr>queueSizeMap := Store (queueSizeMap s) (service_path ns svc) v\<rparr>) = v"
  by (simp add: GetQueueSize_def)

text \<open>Without interference the two steps are the change.\<close>

lemma queue_step_change:
  "snd (fold (queue_step ns svc) [(g, LoadSize), (g, StoreSize d)] (locals, s)) = snd (change_queue_size d ns svc s)"
  by (simp add: change_queue_size_def)

text \<open>
  Two requests for a service that arrive together can lose one of the increments. When both
  have left, the queue size is one less than before they came, so that a later request that waits
  is reported as an empty queue.
\<close>

theorem queue_size_lost_update:
  "GetQueueSize ns svc (snd (fold (queue_step ns svc)
      [(0, LoadSize), (1, LoadSize), (0, StoreSize 1), (1, StoreSize 1),
       (0, LoadSize), (0, StoreSize (- 1)), (1, LoadSize), (1, StoreSize (- 1))] (locals, s))) =
   GetQueueSize ns svc s - 1"
  by (simp add: GetQueueSize_def)

end
