(* ===== verification/Crd_Cache.thy ===== *)
theory Crd_Cache
  imports Rpc_Client "HOL-Library.List_Lexorder" "HOL-Library.Char_ord"
begin

text \<open>
  The resolver's copy of the ElastiServices (\<^verbatim>\<open>src/resolver/internal/crdcache/cache.go\<close>): it
  is fetched from the operator at the start and at every tick of the poll interval, and replaced as
  a whole. The answers of the operator are the arguments of the fetches.
\<close>

definition defaultPollInterval :: duration where "defaultPollInterval = 5 * 60 * second"

record crd_cache =
  operatorRPC :: operator_client
  pollInterval :: duration
  cc_cache :: "(string, cache_entry) sync_map"
  stopped :: bool                                  \<comment> \<open>the stop channel is closed\<close>

definition New :: "operator_client \<Rightarrow> duration \<Rightarrow> crd_cache" where
  "New client interval =
     \<lparr>operatorRPC = client, pollInterval = (if interval \<le> 0 then defaultPollInterval else interval),
      cc_cache = sm_empty, stopped = False\<rparr>"

text \<open>The range over the services stores each under its own key, in any order.\<close>

definition fetch :: "libs \<Rightarrow> go_error + http_response \<Rightarrow> crd_cache \<Rightarrow> (go_error + unit) \<times> crd_cache" where
  "fetch l resp c =
     (case GetElastiServiceCache l resp (operatorRPC c) of
        Inl err \<Rightarrow> (Inl (EWrap ''fetch'' err), c)
      | Inr services \<Rightarrow> (Inr (), c\<lparr>cc_cache := (\<lambda>k. services k)\<rparr>))"

definition StopCache :: "crd_cache \<Rightarrow> crd_cache" where
  "StopCache c = c\<lparr>stopped := True\<rparr>"

text \<open>
  \<^verbatim>\<open>Start\<close>: a first fetch, then the loop. A round of the loop is a tick with the answer of the
  operator, or the arm of the stop channel, which is there once the channel is closed.
\<close>

datatype poll_event = Tick "go_error + http_response" | StopSeen | StopCalled

fun poll_loop :: "libs \<Rightarrow> poll_event list \<Rightarrow> crd_cache \<Rightarrow> crd_cache" where
  "poll_loop l [] c = c"
| "poll_loop l (Tick resp # es) c = poll_loop l es (snd (fetch l resp c))"
| "poll_loop l (StopCalled # es) c = poll_loop l es (StopCache c)"
| "poll_loop l (StopSeen # es) c = (if stopped c then c else poll_loop l es c)"

definition StartCache :: "libs \<Rightarrow> go_error + http_response \<Rightarrow> poll_event list \<Rightarrow> crd_cache \<Rightarrow> crd_cache" where
  "StartCache l first es c = poll_loop l es (snd (fetch l first c))"

definition GetElastiService :: "string \<Rightarrow> crd_cache \<Rightarrow> cache_entry option" where
  "GetElastiService namespacedServiceName c = Load (cc_cache c) namespacedServiceName"

text \<open>\<open>keys\<close> are the keys the range visits.\<close>

definition ListCachedServices :: "string list \<Rightarrow> crd_cache \<Rightarrow> (string \<times> cache_entry) list" where
  "ListCachedServices keys c = List.map_filter (\<lambda>k. map_option (Pair k) (Load (cc_cache c) k)) (sort keys)"

section \<open>Properties\<close>

text \<open>The answers the loop fetches before it stops, and the last one that holds services.\<close>

fun answers :: "bool \<Rightarrow> poll_event list \<Rightarrow> (go_error + http_response) list" where
  "answers st [] = []"
| "answers st (Tick resp # es) = resp # answers st es"
| "answers st (StopCalled # es) = answers True es"
| "answers st (StopSeen # es) = (if st then [] else answers st es)"

definition last_good :: "(string \<rightharpoonup> cache_entry) \<Rightarrow> (go_error + (string \<rightharpoonup> cache_entry)) list \<Rightarrow> (string \<rightharpoonup> cache_entry)" where
  "last_good m rs = fold (\<lambda>r m. case r of Inl _ \<Rightarrow> m | Inr services \<Rightarrow> services) rs m"

lemma fetch_cache:
  "cc_cache (snd (fetch l resp c)) =
     (case GetElastiServiceCache l resp (operatorRPC c) of Inl _ \<Rightarrow> cc_cache c | Inr services \<Rightarrow> services)"
  "operatorRPC (snd (fetch l resp c)) = operatorRPC c"
  "stopped (snd (fetch l resp c)) = stopped c"
  by (simp_all add: fetch_def split: sum.split)

lemma poll_loop_cache:
  "cc_cache (poll_loop l es c) =
     last_good (cc_cache c) (map (\<lambda>r. GetElastiServiceCache l r (operatorRPC c)) (answers (stopped c) es))"
  by (induction l es c rule: poll_loop.induct)
    (simp_all add: fetch_cache last_good_def StopCache_def)

lemma last_good_eq:
  "last_good m rs = (case find (\<lambda>r. \<not> isl r) (rev rs) of None \<Rightarrow> m | Some r \<Rightarrow> projr r)"
  unfolding last_good_def
proof (induction rs rule: rev_induct)
  case (snoc r rs)
  then show ?case by (cases r) simp_all
qed simp

text \<open>
  C33: after any course of the poller the resolver sees the ElastiServices of the last answer of the
  operator that could be fetched and decoded; a failed fetch leaves them as they were, and before
  the first good answer there are none.
\<close>

theorem cache_shows_last_good_answer:
  "GetElastiService key (StartCache l first es (New client interval)) =
     (case find (\<lambda>r. \<not> isl r) (rev (map (\<lambda>r. GetElastiServiceCache l r client) (first # answers False es))) of
        None \<Rightarrow> None
      | Some r \<Rightarrow> projr r key)"
proof -
  let ?c = "New client interval"
  have c: "operatorRPC ?c = client" "cc_cache ?c = Map.empty" "\<not> stopped ?c" by (simp_all add: New_def sm_empty_def)
  have "cc_cache (StartCache l first es ?c) =
      last_good Map.empty (map (\<lambda>r. GetElastiServiceCache l r client) (first # answers False es))"
    using c by (simp add: StartCache_def poll_loop_cache fetch_cache last_good_def cong: sum.case_cong)
  then show ?thesis by (simp only: GetElastiService_def Load_def last_good_eq) (simp split: option.split)
qed

text \<open>The snapshot lists every cached service once, in the order of the keys.\<close>

lemma map_filter_Pair: "map fst (List.map_filter (\<lambda>k. map_option (Pair k) (f k)) ks) = filter (\<lambda>k. f k \<noteq> None) ks"
  by (induction ks) (auto simp: List.map_filter_def)

lemma cached_services_sorted:
  "distinct keys \<Longrightarrow> set keys = dom (cc_cache c) \<Longrightarrow>
     sorted (map fst (ListCachedServices keys c)) \<and> map_of (ListCachedServices keys c) = cc_cache c"
proof -
  assume keys: "distinct keys" "set keys = dom (cc_cache c)"
  have fst: "map fst (ListCachedServices keys c) = sort keys"
    using keys(2) unfolding ListCachedServices_def map_filter_Pair by (auto simp: Load_def intro!: filter_True)
  have mem: "(k, v) \<in> set (ListCachedServices keys c) \<longleftrightarrow> cc_cache c k = Some v" for k v
    using keys(2) by (force simp: ListCachedServices_def List.map_filter_def Load_def image_iff)
  have "map_of (ListCachedServices keys c) k = cc_cache c k" for k
  proof (cases "cc_cache c k")
    case None
    then show ?thesis using mem by (metis map_of_SomeD not_None_eq)
  next
    case (Some v)
    then show ?thesis using mem keys(1) fst by (auto intro: map_of_is_SomeI)
  qed
  then show ?thesis using fst by auto
qed

end
