(* ===== verification/Probe.thy ===== *)
theory Probe
  imports Wire "HOL-Library.Sublist"
begin

text \<open>
  Probe responses (\<^verbatim>\<open>src/resolver/internal/crdcache/spec.go\<close>): whether a request is answered
  by the resolver itself, from the rules of the spec in its cache. The regular expressions are those
  of Go's package \<^verbatim>\<open>regexp\<close>, an argument \<open>Compile\<close>. A request has the path, the headers
  and the query parameters as \<^verbatim>\<open>net/http\<close> has parsed them.
\<close>

type_synonym regexp = "string \<Rightarrow> go_error + (string \<Rightarrow> bool)"

type_synonym url_values = "string \<rightharpoonup> string list"

record request =
  q_Method :: string
  q_Host :: string
  q_Path :: string
  q_RequestURI :: string
  q_Query :: url_values
  q_Header :: url_values

section \<open>Header keys\<close>

text \<open>\<^verbatim>\<open>http.CanonicalHeaderKey\<close>: a key with a byte that no token has is left as it is.\<close>

definition is_alnum :: "char \<Rightarrow> bool" where
  "is_alnum c \<longleftrightarrow> (let n = (of_char c :: nat) in (48 \<le> n \<and> n \<le> 57) \<or> (65 \<le> n \<and> n \<le> 90) \<or> (97 \<le> n \<and> n \<le> 122))"

definition is_token_char :: "char \<Rightarrow> bool" where
  "is_token_char c \<longleftrightarrow> is_alnum c \<or> (of_char c :: nat) \<in> {33, 35, 36, 37, 38, 39, 42, 43, 45, 46, 94, 95, 96, 124, 126}"

fun canonical_case :: "bool \<Rightarrow> string \<Rightarrow> string" where
  "canonical_case up [] = []"
| "canonical_case up (c # cs) = (if up then upper_char c else lower_char c) # canonical_case (c = CHR ''-'') cs"

definition CanonicalHeaderKey :: "string \<Rightarrow> string" where
  "CanonicalHeaderKey s = (if list_all is_token_char s then canonical_case True s else s)"

definition header_values :: "url_values \<Rightarrow> string \<Rightarrow> string list" where
  "header_values h key = (case h (CanonicalHeaderKey key) of None \<Rightarrow> [] | Some vs \<Rightarrow> vs)"

section \<open>Matching\<close>

definition MatchTypePathPrefix :: string where "MatchTypePathPrefix = ''PathPrefix''"
definition MatchTypeExact :: string where "MatchTypeExact = ''Exact''"
definition MatchTypeRegularExpression :: string where "MatchTypeRegularExpression = ''RegularExpression''"

definition methodMatchesProbeResponse :: "string option \<Rightarrow> string \<Rightarrow> bool" where
  "methodMatchesProbeResponse ruleMethod requestMethod =
     (case ruleMethod of
        None \<Rightarrow> True
      | Some m \<Rightarrow> TrimSpace m = [] \<or> EqualFold (TrimSpace m) requestMethod)"

definition canonicalPathMatchType :: "string \<Rightarrow> string" where
  "canonicalPathMatchType t =
     (let ts = TrimSpace t in
      if ts = [] \<or> EqualFold ts MatchTypePathPrefix then MatchTypePathPrefix
      else if EqualFold ts MatchTypeExact then MatchTypeExact
      else if EqualFold ts MatchTypeRegularExpression then MatchTypeRegularExpression
      else MatchTypePathPrefix)"

definition normalizeProbePathMatch :: "path_match option \<Rightarrow> path_match" where
  "normalizeProbePathMatch p =
     (case p of
        None \<Rightarrow> \<lparr>pm_Type = MatchTypePathPrefix, pm_Value = ''/''\<rparr>
      | Some pm \<Rightarrow>
          (let typ = (if TrimSpace (pm_Type pm) = [] then MatchTypePathPrefix else TrimSpace (pm_Type pm));
               val = (if canonicalPathMatchType typ = MatchTypePathPrefix \<and> pm_Value pm = [] then ''/'' else pm_Value pm)
           in \<lparr>pm_Type = typ, pm_Value = val\<rparr>))"

definition pathPrefix :: "string \<Rightarrow> string \<Rightarrow> bool" where
  "pathPrefix path pre =
     (if pre = [] \<or> pre = ''/'' then HasPrefix path ''/''
      else if path = pre then True
      else if \<not> HasPrefix path pre then False
      else if HasSuffix pre ''/'' then True
      else length path > length pre \<and> path ! length pre = CHR ''/'')"

definition pathMatches :: "regexp \<Rightarrow> string \<Rightarrow> path_match option \<Rightarrow> go_error + bool" where
  "pathMatches Compile reqPath p =
     (let pm = normalizeProbePathMatch p; typ = canonicalPathMatchType (pm_Type pm) in
      if typ = ''Exact'' then Inr (reqPath = pm_Value pm)
      else if typ = ''RegularExpression'' then
        (case Compile (pm_Value pm) of
           Inl err \<Rightarrow> Inl (EWrap ''probeResponse path regex invalid'' err)
         | Inr re \<Rightarrow> Inr (re reqPath))
      else Inr (pathPrefix reqPath (pm_Value pm)))"

definition headerValueMatches :: "regexp \<Rightarrow> header_match \<Rightarrow> url_values \<Rightarrow> go_error + bool" where
  "headerValueMatches Compile rule h =
     (let key = CanonicalHeaderKey (TrimSpace (hm_Name rule));
          vals = header_values h key;
          typ = TrimSpace (hm_Type rule) in
      if vals = [] then Inr False
      else if typ = [] \<or> EqualFold typ MatchTypeExact then Inr (list_ex (\<lambda>v. v = hm_Value rule) vals)
      else if EqualFold typ MatchTypeRegularExpression then
        (case Compile (hm_Value rule) of
           Inl err \<Rightarrow> Inl (EWrap ''probeResponse header regex invalid'' err)
         | Inr re \<Rightarrow> Inr (list_ex re vals))
      else Inr (list_ex (\<lambda>v. v = hm_Value rule) vals))"

fun headersMatch :: "regexp \<Rightarrow> header_match list \<Rightarrow> url_values \<Rightarrow> go_error + bool" where
  "headersMatch Compile [] h = Inr True"
| "headersMatch Compile (rule # rules) h =
     (if TrimSpace (hm_Name rule) = [] then Inl (EMsg ''header name is empty'')
      else case headerValueMatches Compile rule h of
        Inl err \<Rightarrow> Inl err
      | Inr matched \<Rightarrow> if \<not> matched then Inr False else headersMatch Compile rules h)"

definition queryParamValueMatches :: "regexp \<Rightarrow> query_match \<Rightarrow> url_values \<Rightarrow> bool" where
  "queryParamValueMatches Compile rule q =
     (let vals = (case q (qm_Name rule) of None \<Rightarrow> [] | Some vs \<Rightarrow> vs);
          typ = TrimSpace (qm_Type rule) in
      if vals = [] then False
      else if typ = [] \<or> EqualFold typ MatchTypeExact then list_ex (\<lambda>v. v = qm_Value rule) vals
      else if EqualFold typ MatchTypeRegularExpression then
        (case Compile (qm_Value rule) of Inl _ \<Rightarrow> False | Inr re \<Rightarrow> list_ex re vals)
      else list_ex (\<lambda>v. v = qm_Value rule) vals)"

fun queryParamsMatch :: "regexp \<Rightarrow> query_match list \<Rightarrow> url_values \<Rightarrow> bool" where
  "queryParamsMatch Compile [] q = True"
| "queryParamsMatch Compile (rule # rules) q =
     (if TrimSpace (qm_Name rule) = [] then False
      else if \<not> queryParamValueMatches Compile rule q then False
      else queryParamsMatch Compile rules q)"

text \<open>The loop over the rules.\<close>

fun try_rules :: "regexp \<Rightarrow> probe_rule list \<Rightarrow> request \<Rightarrow> (string \<times> int) option" where
  "try_rules Compile [] req = None"
| "try_rules Compile (r # rs) req =
     (if \<not> methodMatchesProbeResponse (pr_Method r) (q_Method req) then try_rules Compile rs req
      else case pathMatches Compile (q_Path req) (pr_Path r) of
        Inl err \<Rightarrow> try_rules Compile rs req
      | Inr pathMatched \<Rightarrow> if \<not> pathMatched then try_rules Compile rs req
      else case headersMatch Compile (pr_Headers r) (q_Header req) of
        Inl err \<Rightarrow> try_rules Compile rs req
      | Inr headersMatched \<Rightarrow> if \<not> headersMatched then try_rules Compile rs req
      else if \<not> queryParamsMatch Compile (pr_QueryParams r) (q_Query req) then try_rules Compile rs req
      else Some (pr_Body (pr_Response r), if pr_Status (pr_Response r) = 0 then 200 else pr_Status (pr_Response r)))"

definition MatchProbeResponseFromSpec :: "regexp \<Rightarrow> raw_message \<Rightarrow> request \<Rightarrow> (string \<times> int) option" where
  "MatchProbeResponseFromSpec Compile specJSON req =
     (if specJSON = None then None
      else case Unmarshal decode_spec zero_spec specJSON of
        Inl err \<Rightarrow> None
      | Inr s \<Rightarrow> try_rules Compile (ProbeResponse s) req)"

section \<open>Segments\<close>

lemma Split_append_sep: "Split c (p @ c # r) = Split c p @ Split c r"
proof (induction p)
  case (Cons x p)
  obtain y ys where "Split c p = y # ys" by (cases "Split c p") auto
  with Cons show ?case by simp
qed simp

lemma Join_append: "xs \<noteq> [] \<Longrightarrow> ys \<noteq> [] \<Longrightarrow> Join sep (xs @ ys) = Join sep xs @ sep @ Join sep ys"
proof (induction xs)
  case (Cons x xs)
  then show ?case by (cases "xs = []") (simp_all add: Join_Cons)
qed simp

lemma Split_strict_prefix: "strict_prefix (Split c p) (Split c s) \<longleftrightarrow> (\<exists>r. s = p @ c # r)"
proof
  assume "strict_prefix (Split c p) (Split c s)"
  then obtain ys where ys: "Split c s = Split c p @ ys" "ys \<noteq> []"
    by (auto simp: strict_prefix_def prefix_def)
  have "s = Join [c] (Split c p @ ys)" using Join_Split [of c s] ys(1) by simp
  also have "\<dots> = p @ c # Join [c] ys" using ys(2) by (simp add: Join_append Join_Split)
  finally show "\<exists>r. s = p @ c # r" by blast
qed (auto simp: Split_append_sep strict_prefix_def)

lemma Split_prefix: "prefix (Split c p) (Split c s) \<longleftrightarrow> s = p \<or> (\<exists>r. s = p @ c # r)"
proof -
  have "Split c p = Split c s \<longleftrightarrow> s = p" by (metis Join_Split)
  then show ?thesis using Split_strict_prefix [of c p s] by (auto simp: strict_prefix_def)
qed


section \<open>The first rule that matches\<close>

definition rule_matches :: "regexp \<Rightarrow> request \<Rightarrow> probe_rule \<Rightarrow> bool" where
  "rule_matches Compile req r \<longleftrightarrow>
     methodMatchesProbeResponse (pr_Method r) (q_Method req) \<and>
     pathMatches Compile (q_Path req) (pr_Path r) = Inr True \<and>
     list_all (\<lambda>h. TrimSpace (hm_Name h) \<noteq> [] \<and> headerValueMatches Compile h (q_Header req) = Inr True) (pr_Headers r) \<and>
     list_all (\<lambda>q. TrimSpace (qm_Name q) \<noteq> [] \<and> queryParamValueMatches Compile q (q_Query req)) (pr_QueryParams r)"

definition rule_answer :: "probe_rule \<Rightarrow> string \<times> int" where
  "rule_answer r = (pr_Body (pr_Response r), if pr_Status (pr_Response r) = 0 then 200 else pr_Status (pr_Response r))"

lemma headersMatch_all:
  "headersMatch Compile hs h = Inr True \<longleftrightarrow>
     list_all (\<lambda>r. TrimSpace (hm_Name r) \<noteq> [] \<and> headerValueMatches Compile r h = Inr True) hs"
  by (induction hs) (auto split: sum.splits)

lemma queryParamsMatch_all:
  "queryParamsMatch Compile qs q \<longleftrightarrow>
     list_all (\<lambda>r. TrimSpace (qm_Name r) \<noteq> [] \<and> queryParamValueMatches Compile r q) qs"
  by (induction qs) auto

lemma try_rules_find: "try_rules Compile rs req = map_option rule_answer (find (rule_matches Compile req) rs)"
proof (induction rs)
  case (Cons r rs)
  then show ?case
    by (auto simp: rule_matches_def rule_answer_def simp flip: headersMatch_all queryParamsMatch_all split: sum.splits)
qed simp

lemma MatchProbeResponse_encoded:
  "spec_ok s \<Longrightarrow> MatchProbeResponseFromSpec Compile (Some (encode_spec s)) req =
     map_option rule_answer (find (rule_matches Compile req) (ProbeResponse s))"
  by (simp add: MatchProbeResponseFromSpec_def try_rules_find spec.unmarshal)

definition probe_spec :: es_spec where
  "probe_spec = zero_spec\<lparr>ProbeResponse :=
     [\<lparr>pr_Path = Some \<lparr>pm_Type = ''RegularExpression'', pm_Value = ''(''\<rparr>, pr_Headers = [], pr_QueryParams = [], pr_Method = None,
        pr_Response = \<lparr>pr_Status = 503, pr_Body = ''bad rule''\<rparr>\<rparr>,
      \<lparr>pr_Path = Some \<lparr>pm_Type = [], pm_Value = ''/health''\<rparr>,
        pr_Headers = [\<lparr>hm_Name = ''user-agent'', hm_Type = ''Exact'', hm_Value = ''kube-probe''\<rparr>],
        pr_QueryParams = [], pr_Method = Some ''get'', pr_Response = \<lparr>pr_Status = 0, pr_Body = ''ok''\<rparr>\<rparr>]\<rparr>"

definition probe_request :: request where
  "probe_request =
     \<lparr>q_Method = ''GET'', q_Host = ''web.shop.svc.cluster.local'', q_Path = ''/health/live'', q_RequestURI = ''/health/live'', q_Query = Map.empty,
      q_Header = [''User-Agent'' \<mapsto> [''kube-probe'']]\<rparr>"

end
