(* ===== verification/Handler.thy ===== *)
theory Handler
  imports Host_Manager Throttler Crd_Cache Probe
begin

text \<open>
  The request handler of the resolver (\<^verbatim>\<open>src/resolver/internal/handler\<close>). It finds the host,
  answers probes from the cache, refuses requests for hosts whose traffic is switched, and hands the
  others to the throttler, which proxies them once their target is ready. The reverse proxy of
  \<^verbatim>\<open>net/http/httputil\<close>, URL parsing and the underlying response writer's connection are
  arguments; calls of the operator run in goroutines of their own and are recorded when they are
  started.
\<close>

section \<open>The response writer\<close>

text \<open>
  \<open>rw_\<close> are the fields of the wrapper in \<^verbatim>\<open>writer.go\<close>, \<open>hw_\<close> what the connection has
  seen: the first final status, the body, the header, and whether writes fail.
\<close>

record response_writer =
  rw_statusCode :: int
  rw_body :: string
  hw_status :: "int option"
  hw_body :: string
  hw_header :: "string \<rightharpoonup> string"
  hw_broken :: bool

definition newResponseWriter :: "bool \<Rightarrow> response_writer" where
  "newResponseWriter broken =
     \<lparr>rw_statusCode = 0, rw_body = [], hw_status = None, hw_body = [], hw_header = Map.empty, hw_broken = broken\<rparr>"

text \<open>
  \<^verbatim>\<open>WriteHeader\<close> of \<^verbatim>\<open>net/http\<close>: only the first final status counts, informational ones are not
  final, and a code of other than three digits panics.
\<close>

definition WriteHeader :: "int \<Rightarrow> response_writer \<Rightarrow> response_writer outcome" where
  "WriteHeader statusCode rw =
     (let rw' = rw\<lparr>rw_statusCode := statusCode\<rparr> in
      if hw_status rw \<noteq> None then Ok rw'
      else if statusCode < 100 \<or> 999 < statusCode then Panic ''invalid WriteHeader code''
      else if statusCode \<le> 199 \<and> statusCode \<noteq> 101 then Ok rw'
      else Ok (rw'\<lparr>hw_status := Some statusCode\<rparr>))"

definition Write :: "string \<Rightarrow> response_writer \<Rightarrow> (go_error + unit) \<times> response_writer" where
  "Write b rw =
     (let rw' = rw\<lparr>rw_body := rw_body rw @ b, hw_status := Some (case hw_status rw of None \<Rightarrow> 200 | Some c \<Rightarrow> c)\<rparr> in
      if hw_broken rw then (Inl (EWrap ''Write'' (EMsg ''connection'')), rw')
      else (Inr (), rw'\<lparr>hw_body := hw_body rw @ b\<rparr>))"

definition Header_Set :: "string \<Rightarrow> string \<Rightarrow> response_writer \<Rightarrow> response_writer" where
  "Header_Set k v rw = rw\<lparr>hw_header := (hw_header rw)(k \<mapsto> v)\<rparr>"

section \<open>State\<close>

record 'w res_st = "'w thr_st" +
  hms :: hm_sys
  crdCache :: "crd_cache option"
  notified :: "(string \<times> string) list"     \<comment> \<open>calls of SendIncomingRequestInfo that were started\<close>
  rw :: response_writer

text \<open>The request the reverse proxy sends.\<close>

record out_request =
  or_URL :: string
  or_Host :: string
  or_Header :: url_values

text \<open>
  How the reverse proxy ends: the response is copied, the error handler is called, or it panics, with
  an error value or with another value.
\<close>

datatype proxy_result = Proxied | ProxyFailed go_error | ProxyPanicsErr go_error | ProxyPanics string

record ('w, 'z) handler_env =
  he_try :: "('w, 'z) res_st_scheme try_env"
  he_api :: "'w api"
  he_Compile :: regexp
  he_ParseURL :: "string \<Rightarrow> go_error + string"
  he_Proxy :: "out_request \<Rightarrow> ('w, 'z) res_st_scheme \<Rightarrow> proxy_result \<times> ('w, 'z) res_st_scheme"

definition on_writer :: "(response_writer \<Rightarrow> response_writer) \<Rightarrow> ('w, 'z) res_st_scheme \<Rightarrow> ('w, 'z) res_st_scheme" where
  "on_writer f s = s\<lparr>rw := f (rw s)\<rparr>"

definition write_header :: "int \<Rightarrow> (('w, 'z) res_st_scheme, unit) prog" where
  "write_header code = (\<lambda>s. case WriteHeader code (rw s) of
      Ok r \<Rightarrow> (Ok (), s\<lparr>rw := r\<rparr>)
    | Err e \<Rightarrow> (Err e, s)
    | Panic p \<Rightarrow> (Panic p, s\<lparr>rw := (rw s)\<lparr>rw_statusCode := code\<rparr>\<rparr>))"

definition write_body :: "string \<Rightarrow> (('w, 'z) res_st_scheme, unit) prog" where
  "write_body b = (\<lambda>s. case Write b (rw s) of (x, r) \<Rightarrow> (lift_sum x, s\<lparr>rw := r\<rparr>))"

text \<open>\<^verbatim>\<open>http.Error\<close>\<close>

definition http_Error :: "string \<Rightarrow> int \<Rightarrow> (('w, 'z) res_st_scheme, unit) prog" where
  "http_Error msg code = (\<lambda>s.
     let s1 = on_writer (\<lambda>r. Header_Set ''X-Content-Type-Options'' ''nosniff''
                (Header_Set ''Content-Type'' ''text/plain; charset=utf-8'' (r\<lparr>hw_header := (hw_header r)(''Content-Length'' := None)\<rparr>))) s
     in handle (write_header code) fail (\<lambda>_. ignoring (write_body (msg @ [CHR 0x0A])) (ret ())) s1)"

section \<open>Proxying\<close>

definition Header_Get :: "url_values \<Rightarrow> string \<Rightarrow> string" where
  "Header_Get h key = (case h (CanonicalHeaderKey key) of None \<Rightarrow> [] | Some vs \<Rightarrow> (case vs of [] \<Rightarrow> [] | v # _ \<Rightarrow> v))"

definition header_set :: "url_values \<Rightarrow> string \<Rightarrow> string \<Rightarrow> url_values" where
  "header_set h key v = h(CanonicalHeaderKey key \<mapsto> [v])"

text \<open>The \<^verbatim>\<open>Director\<close> of \<^verbatim>\<open>NewHeaderPruningReverseProxy\<close>.\<close>

definition NewHeaderPruningReverseProxy :: "string \<Rightarrow> request \<Rightarrow> out_request" where
  "NewHeaderPruningReverseProxy target req =
     (let originalHost = q_Host req;
          h1 = header_set (q_Header req) ''X-Forwarded-Host'' originalHost;
          h2 = (if Header_Get h1 '':authority'' \<noteq> [] then header_set h1 '':authority'' originalHost else h1)
      in \<lparr>or_URL = target, or_Host = originalHost, or_Header = h2\<rparr>)"

definition proxy_error_handler :: "(('w, 'z) res_st_scheme, unit) prog" where
  "proxy_error_handler = (\<lambda>s.
     if case hw_header (rw s) ''Content-Type'' of None \<Rightarrow> True | Some v \<Rightarrow> v = []
     then handle (write_header 502) fail (\<lambda>_. ignoring (write_body ''Bad Gateway'') (ret ()))
            (on_writer (Header_Set ''Content-Type'' ''text/plain; charset=utf-8'') s)
     else (Ok (), s))"

text \<open>The deferred \<^verbatim>\<open>recover\<close> turns a panic with an error into an error; its type assertion panics on other values.\<close>

definition ProxyRequest :: "('w, 'z) handler_env \<Rightarrow> request \<Rightarrow> host \<Rightarrow> nat \<Rightarrow> (('w, 'z) res_st_scheme, unit) prog" where
  "ProxyRequest env req host tries =
     attempt (pure_call (he_ParseURL env (TargetHost host @ q_RequestURI req))) ''error parsing target URL'' (\<lambda>targetURL s.
       case he_Proxy env (NewHeaderPruningReverseProxy targetURL req) s of
         (Proxied, s') \<Rightarrow> (Ok (), s')
       | (ProxyFailed err, s') \<Rightarrow> proxy_error_handler s'
       | (ProxyPanicsErr err, s') \<Rightarrow> (Err (EWrap ''panic in ProxyRequest'' err), s')
       | (ProxyPanics p, s') \<Rightarrow> (Panic ''interface conversion'', s'))"

definition schedule_disable :: "string \<Rightarrow> (('w, 'z) res_st_scheme, unit) prog" where
  "schedule_disable name = (\<lambda>s. (Ok (), s\<lparr>hms := ScheduleDisableTrafficForHost name (hms s)\<rparr>))"

text \<open>The function the handler passes to the throttler as \<^verbatim>\<open>resolve\<close>.\<close>

definition resolve_request :: "('w, 'z) handler_env \<Rightarrow> request \<Rightarrow> host \<Rightarrow> nat \<Rightarrow> (('w, 'z) res_st_scheme, unit) prog" where
  "resolve_request env req host tries = (\<lambda>s.
     handle (ProxyRequest env req host tries) fail (\<lambda>_. schedule_disable (IncomingHost host))
       (on_writer (Header_Set ''Connection'' ''close'') s))"

section \<open>The handler\<close>

definition notify :: "host \<Rightarrow> ('w, 'z) res_st_scheme \<Rightarrow> ('w, 'z) res_st_scheme" where
  "notify host s = s\<lparr>notified := notified s @ [(h_Namespace host, SourceService host)]\<rparr>"

definition respondProbeResponseIfMatch ::
  "('w, 'z) handler_env \<Rightarrow> request \<Rightarrow> host \<Rightarrow> (('w, 'z) res_st_scheme, bool) prog" where
  "respondProbeResponseIfMatch env req host = (\<lambda>s.
     case crdCache s of
       None \<Rightarrow> (Ok False, s)
     | Some c \<Rightarrow>
         (case GetElastiService (h_Namespace host @ ''/'' @ SourceService host) c of
            None \<Rightarrow> (Ok False, s)
          | Some crdDetails \<Rightarrow>
              (case MatchProbeResponseFromSpec (he_Compile env) (ce_Spec crdDetails) req of
                 None \<Rightarrow> (Ok False, s)
               | Some (body, status) \<Rightarrow>
                   handle (write_header status) fail (\<lambda>_.
                     if q_Method req = ''HEAD'' then ret True
                     else ignoring (write_body body) (ret True)) s)))"

definition traffic_switched :: "host \<Rightarrow> (('w, 'z) res_st_scheme, host \<times> go_error option) prog" where
  "traffic_switched host = (\<lambda>s.
     handle (write_header 408) fail (\<lambda>_.
       handle (write_body ''{\"error\": \"traffic is switched\"}'')
         (\<lambda>err. ret (host, Some (EWrap ''error writing response'' err)))
         (\<lambda>_. ret (host, Some (EMsg ''traffic not allowed by resolver''))))
       (on_writer (\<lambda>r. Header_Set ''Content-Type'' ''application/json'' (Header_Set ''Connection'' ''close'' r)) s))"

definition answer_try_error :: "host \<Rightarrow> go_error \<Rightarrow> (('w, 'z) res_st_scheme, host \<times> go_error option) prog" where
  "answer_try_error host tryErr =
     (let result = ret (host, Some (EWrap ''throttler try error'' tryErr)) in
      if IsDeadlineExceeded tryErr then handle (http_Error ''request timeout'' 408) fail (\<lambda>_. result)
      else handle (write_header 500) fail (\<lambda>_. result))"

text \<open>\<open>None\<close>: the throttler does not return.\<close>

definition throttled_request ::
  "('w, 'z) handler_env \<Rightarrow> request \<Rightarrow> host \<Rightarrow> ('w, 'z) res_st_scheme \<Rightarrow> ((host \<times> go_error option) outcome \<times> ('w, 'z) res_st_scheme) option" where
  "throttled_request env req host s =
     map_option (\<lambda>(r, s'). case r of
         Ok _ \<Rightarrow> (Ok (host, None), s')
       | Err tryErr \<Rightarrow> answer_try_error host tryErr s'
       | Panic p \<Rightarrow> (Panic p, s'))
       (Try (he_try env) (he_api env) host (resolve_request env req host) (notify host) (notify host s))"

definition no_host :: host where
  "no_host = \<lparr>IncomingHost = [], h_Namespace = [], SourceService = [], TargetService = [], SourceHost = [], TargetHost = [],
     TrafficAllowed = False, TrafficDisableScheduled = False\<rparr>"

definition handleAnyRequest ::
  "('w, 'z) handler_env \<Rightarrow> request \<Rightarrow> ('w, 'z) res_st_scheme \<Rightarrow> ((host \<times> go_error option) outcome \<times> ('w, 'z) res_st_scheme) option" where
  "handleAnyRequest env req s =
     (case GetHost \<lparr>req_Host = q_Host req, req_Header = q_Header req\<rparr> (manager (hms s)) of
        (None, m) \<Rightarrow> Some (Panic ''index out of range'', s\<lparr>hms := (hms s)\<lparr>manager := m\<rparr>\<rparr>)
      | (Some (Inl err), m) \<Rightarrow>
          Some (handle (http_Error ''Error getting host'' 500) fail
                  (\<lambda>_. ret (no_host, Some (EWrap ''error getting host'' err))) (s\<lparr>hms := (hms s)\<lparr>manager := m\<rparr>\<rparr>))
      | (Some (Inr host), m) \<Rightarrow>
          (case respondProbeResponseIfMatch env req host (s\<lparr>hms := (hms s)\<lparr>manager := m\<rparr>\<rparr>) of
             (Ok True, s1) \<Rightarrow> Some (Ok (host, None), s1)
           | (Ok False, s1) \<Rightarrow>
               if \<not> TrafficAllowed host then Some (traffic_switched host s1)
               else throttled_request env req host s1
           | (Err e, s1) \<Rightarrow> Some (Err e, s1)
           | (Panic p, s1) \<Rightarrow> Some (Panic p, s1)))"

text \<open>\<^verbatim>\<open>ServeHTTP\<close>: what is left of the request are the labels of its histogram.\<close>

definition ServeHTTP ::
  "('w, 'z) handler_env \<Rightarrow> bool \<Rightarrow> request \<Rightarrow> ('w, 'z) res_st_scheme \<Rightarrow>
   ((host \<times> string \<times> int \<times> go_error option) outcome \<times> ('w, 'z) res_st_scheme) option" where
  "ServeHTTP env broken req s =
     map_option (\<lambda>(r, s'). (case r of
         Ok (host, err) \<Rightarrow> Ok (host, q_Method req, rw_statusCode (rw s'), err)
       | Err e \<Rightarrow> Err e
       | Panic p \<Rightarrow> Panic p, s'))
       (handleAnyRequest env req (s\<lparr>rw := newResponseWriter broken\<rparr>))"

section \<open>Status endpoints\<close>

definition query_Get :: "url_values \<Rightarrow> string \<Rightarrow> string" where
  "query_Get q key = (case q key of None \<Rightarrow> [] | Some vs \<Rightarrow> (case vs of [] \<Rightarrow> [] | v # _ \<Rightarrow> v))"

definition GetQueueStatus :: "request \<Rightarrow> ('w, 'z) res_st_scheme \<Rightarrow> json" where
  "GetQueueStatus r s =
     (let queueSize = GetQueueSize (query_Get (q_Query r) ''namespace'') (query_Get (q_Query r) ''service'') s
      in JObj [(''queueStatus'', JInt (if queueSize > 0 then 1 else 0))])"

definition encode_cached_service :: "string \<times> cache_entry \<Rightarrow> json" where
  "encode_cached_service kv =
     JObj ((''namespacedName'', JStr (fst kv)) # (case encode_entry (snd kv) of JObj ms \<Rightarrow> ms | _ \<Rightarrow> []))"

text \<open>\<open>keys\<close> as for \<open>ListCachedServices\<close>; without a cache the call panics.\<close>

definition GetCRDCacheStatus :: "string list \<Rightarrow> ('w, 'z) res_st_scheme \<Rightarrow> json outcome" where
  "GetCRDCacheStatus keys s =
     (case crdCache s of
        None \<Rightarrow> Panic ''nil pointer dereference''
      | Some c \<Rightarrow>
          (let services = ListCachedServices keys c
           in Ok (JObj [(''count'', JInt (int (length services))), (''services'', JArr (map encode_cached_service services))])))"

section \<open>Requests that do not reach a target\<close>

text \<open>The host of a request, as the host manager has it, and the manager afterwards.\<close>

definition found_host :: "request \<Rightarrow> ('w, 'z) res_st_scheme \<Rightarrow> host \<Rightarrow> host_manager \<Rightarrow> bool" where
  "found_host req s host m \<longleftrightarrow>
     GetHost \<lparr>req_Host = q_Host req, req_Header = q_Header req\<rparr> (manager (hms s)) = (Some (Inr host), m)"

definition probe_answer :: "('w, 'z) handler_env \<Rightarrow> request \<Rightarrow> host \<Rightarrow> crd_cache option \<Rightarrow> (string \<times> int) option" where
  "probe_answer env req host cache =
     (case cache of
        None \<Rightarrow> None
      | Some c \<Rightarrow>
          (case GetElastiService (h_Namespace host @ ''/'' @ SourceService host) c of
             None \<Rightarrow> None
           | Some e \<Rightarrow> MatchProbeResponseFromSpec (he_Compile env) (ce_Spec e) req))"

lemma respondProbe_run:
  "respondProbeResponseIfMatch env req host s =
     (case probe_answer env req host (crdCache s) of
        None \<Rightarrow> (Ok False, s)
      | Some (body, status) \<Rightarrow>
          handle (write_header status) fail (\<lambda>_. if q_Method req = ''HEAD'' then ret True else ignoring (write_body body) (ret True)) s)"
  by (simp add: respondProbeResponseIfMatch_def probe_answer_def split: option.split)

lemma write_header_fresh:
  "hw_status (rw s) = None \<Longrightarrow> 200 \<le> code \<Longrightarrow> code \<le> 999 \<Longrightarrow>
   write_header code s = (Ok (), s\<lparr>rw := (rw s)\<lparr>rw_statusCode := code, hw_status := Some code\<rparr>\<rparr>)"
  by (simp add: write_header_def WriteHeader_def Let_def)

lemma write_header_again:
  "hw_status (rw s) = Some c \<Longrightarrow> write_header code s = (Ok (), s\<lparr>rw := (rw s)\<lparr>rw_statusCode := code\<rparr>\<rparr>)"
  by (simp add: write_header_def WriteHeader_def Let_def)

lemma write_body_run:
  "hw_status (rw s) = Some c \<Longrightarrow>
   write_body b s = (if hw_broken (rw s) then Err (EWrap ''Write'' (EMsg ''connection'')) else Ok (),
     s\<lparr>rw := (rw s)\<lparr>rw_body := rw_body (rw s) @ b, hw_body := hw_body (rw s) @ (if hw_broken (rw s) then [] else b)\<rparr>\<rparr>)"
  by (simp add: write_body_def Write_def Let_def)

lemma handle_found:
  assumes "found_host req s host m"
  shows "handleAnyRequest env req (s\<lparr>rw := w\<rparr>) =
    (case respondProbeResponseIfMatch env req host (s\<lparr>hms := (hms s)\<lparr>manager := m\<rparr>, rw := w\<rparr>) of
       (Ok True, s1) \<Rightarrow> Some (Ok (host, None), s1)
     | (Ok False, s1) \<Rightarrow> if \<not> TrafficAllowed host then Some (traffic_switched host s1) else throttled_request env req host s1
     | (Err e, s1) \<Rightarrow> Some (Err e, s1)
     | (Panic p, s1) \<Rightarrow> Some (Panic p, s1))"
proof -
  have swap: "s\<lparr>rw := w, hms := (hms s)\<lparr>manager := m\<rparr>\<rparr> = s\<lparr>hms := (hms s)\<lparr>manager := m\<rparr>, rw := w\<rparr>" by (cases s) simp
  show ?thesis using assms by (simp add: handleAnyRequest_def found_host_def) (simp only: swap)
qed


text \<open>
  While the traffic of a host is switched away from the resolver, a request for it is not queued
  and not proxied and the operator is not told; the client is told to close its connection and to
  try again.
\<close>

theorem switched_traffic_refused:
  assumes "found_host req s host m" and "probe_answer env req host (crdCache s) = None" and "\<not> TrafficAllowed host"
  shows "\<exists>w err. ServeHTTP env broken req s =
      Some (Ok (host, q_Method req, 408, Some err), s\<lparr>hms := (hms s)\<lparr>manager := m\<rparr>, rw := w\<rparr>) \<and>
    hw_status w = Some 408 \<and> hw_header w ''Connection'' = Some ''close''"
proof -
  let ?s = "s\<lparr>hms := (hms s)\<lparr>manager := m\<rparr>, rw := newResponseWriter broken\<rparr>"
  have "respondProbeResponseIfMatch env req host ?s = (Ok False, ?s)"
    using assms(2) by (simp add: respondProbe_run)
  moreover obtain w err where "traffic_switched host ?s = (Ok (host, Some err), ?s\<lparr>rw := w\<rparr>)" and "rw_statusCode w = 408"
    and "hw_status w = Some 408" and "hw_header w ''Connection'' = Some ''close''"
    by (cases broken) (simp_all add: traffic_switched_def on_writer_def Header_Set_def newResponseWriter_def write_header_fresh
        write_body_run handle_run)
  ultimately show ?thesis
    using assms(3) by (auto simp: ServeHTTP_def handle_found [OF assms(1)])
qed

section \<open>A target that does not become ready\<close>

text \<open>
  What others may do while a request waits: they do not write to its response, start more calls of
  the operator, and do not mark the target \<open>key\<close> as ready.
\<close>

definition undisturbed :: "string \<Rightarrow> ('w, 'z) res_st_scheme \<Rightarrow> ('w, 'z) res_st_scheme \<Rightarrow> bool" where
  "undisturbed key s s' \<longleftrightarrow> rw s' = rw s \<and> prefix (notified s) (notified s') \<and>
     (Load (serviceReadyMap s) key = Some True \<or> Load (serviceReadyMap s') key \<noteq> Some True)"

definition patient_env :: "string \<Rightarrow> ('w, 'z) handler_env \<Rightarrow> bool" where
  "patient_env key env \<longleftrightarrow>
     (\<forall>s. \<exists>s'. te_Maybe (he_try env) s = (Ok (), s') \<and> undisturbed key s s') \<and>
     (\<forall>s. undisturbed key s (snd (te_Done (he_try env) s)) \<and> fst (te_Done (he_try env) s) \<in> {None, Some DeadlineExceeded}) \<and>
     (\<forall>s. undisturbed key s (te_Sleep (he_try env) s))"

definition never_ready :: "('w, 'x) api_scheme \<Rightarrow> string \<Rightarrow> string \<Rightarrow> bool" where
  "never_ready api ns svc \<longleftrightarrow>
     (\<forall>w slices. fst (a_listSlices api svc (Some ns) w) = Inr slices \<longrightarrow>
        \<not> list_ex (\<lambda>slice. list_ex endpoint_ready (eps_Endpoints slice)) slices)"

lemma undisturbed_refl [simp]: "undisturbed key s s"
  by (auto simp: undisturbed_def)

lemma undisturbed_trans: "undisturbed key s t \<Longrightarrow> undisturbed key t u \<Longrightarrow> undisturbed key s u"
  by (auto simp: undisturbed_def)

lemma undisturbed_notify [simp]: "undisturbed key s (notify host s)"
  by (auto simp: undisturbed_def notify_def)

lemma undisturbed_ready: "undisturbed key s t \<Longrightarrow> Load (serviceReadyMap s) key \<noteq> Some True \<Longrightarrow> Load (serviceReadyMap t) key \<noteq> Some True"
  by (auto simp: undisturbed_def)

lemma check_never_ready:
  fixes s :: "('w, 'z) res_st_scheme"
  assumes "never_ready api ns svc" and "Load (serviceReadyMap s) (service_path ns svc) \<noteq> Some True"
    and "checkIfServiceReady api ns svc s = (x, s')"
  shows "x \<noteq> Ok True" and "undisturbed (service_path ns svc) s s'"
proof -
  note check = checkIfServiceReady_def CheckIfServiceEndpointSliceActive_def attempt_def handle_run api_read_def
  have "x \<noteq> Ok True \<and> undisturbed (service_path ns svc) s s'"
  proof (cases "Load (serviceReadyMap s) (service_path ns svc)")
    case None
    obtain r w where list: "a_listSlices api svc (Some ns) (world s) = (r, w)" by fastforce
    have "\<not> list_ex (\<lambda>slice. list_ex endpoint_ready (eps_Endpoints slice)) slices" if "r = Inr slices" for slices
      using assms(1) list that unfolding never_ready_def by (metis fst_conv)
    with None list assms(3) show ?thesis by (cases r) (auto simp: check undisturbed_def)
  next
    case (Some b)
    then show ?thesis using assms(2,3) by (auto simp: check)
  qed
  then show "x \<noteq> Ok True" and "undisturbed (service_path ns svc) s s'" by simp_all
qed

lemma waits_undisturbed:
  assumes "waits (he_try env) api host (notify host) n s t"
    and "patient_env (service_path (h_Namespace host) (TargetService host)) env"
    and "never_ready api (h_Namespace host) (TargetService host)"
    and "Load (serviceReadyMap s) (service_path (h_Namespace host) (TargetService host)) \<noteq> Some True"
  shows "undisturbed (service_path (h_Namespace host) (TargetService host)) s t"
  using assms(1,4)
proof (induction rule: waits.induct)
  case (waits_round s s1 x s2 s3 s4 n t)
  let ?key = "service_path (h_Namespace host) (TargetService host)"
  have 1: "undisturbed ?key s s1" using assms(2) waits_round.hyps(1) unfolding patient_env_def by (metis prod.inject)
  have 2: "undisturbed ?key s1 s2"
    using check_never_ready(2) [OF assms(3) _ waits_round.hyps(2)] undisturbed_ready [OF 1] waits_round.prems by blast
  have 3: "undisturbed ?key s2 s3" using waits_round.hyps(3) by auto
  have 4: "undisturbed ?key s3 s4" using assms(2) waits_round.hyps(4) unfolding patient_env_def by (metis snd_conv)
  have 5: "undisturbed ?key s4 (te_Sleep (he_try env) s4)" using assms(2) unfolding patient_env_def by blast
  have all: "undisturbed ?key s (te_Sleep (he_try env) s4)"
    using 1 2 3 4 5 by (blast intro: undisturbed_trans)
  with waits_round.IH undisturbed_ready [OF all] waits_round.prems show ?case by (blast intro: undisturbed_trans)
qed simp

lemma ends_unready:
  assumes "ends (he_try env) api host (notify host) resolve k s r s'"
    and env: "patient_env (service_path (h_Namespace host) (TargetService host)) env"
    and api: "never_ready api (h_Namespace host) (TargetService host)"
    and unready: "Load (serviceReadyMap s) (service_path (h_Namespace host) (TargetService host)) \<noteq> Some True"
  shows "r = Err (EWrap ''thunk error'' (EWrap ''context done error'' (ECtx DeadlineExceeded))) \<and>
    undisturbed (service_path (h_Namespace host) (TargetService host)) s s'"
proof -
  let ?key = "service_path (h_Namespace host) (TargetService host)"
  obtain s1 where s1: "te_Maybe (he_try env) s = (Ok (), s1)" "undisturbed ?key s s1"
    using env unfolding patient_env_def by blast
  obtain x s2 where check: "checkIfServiceReady api (h_Namespace host) (TargetService host) s1 = (x, s2)" by fastforce
  have x: "x \<noteq> Ok True" "undisturbed ?key s1 s2"
    using check_never_ready [OF api _ check] undisturbed_ready [OF s1(2) unready] by blast+
  from assms(1) show ?thesis
  proof cases
    case (timed_out t1 y t2 t3 c)
    then have "t2 = s2" using s1(1) check by simp
    then have "undisturbed ?key s2 t3" using timed_out(4) by auto
    moreover have "undisturbed ?key t3 s'" "c = DeadlineExceeded"
      using env timed_out(5) unfolding patient_env_def by (metis snd_conv, metis fst_conv insertE option.distinct(1) option.inject singletonD)
    ultimately show ?thesis using s1(2) x(2) timed_out(1) by (blast intro: undisturbed_trans)
  qed (use s1(1) check x(1) in auto)
qed

lemma throttled_times_out:
  fixes s :: "('w, 'z) res_st_scheme"
  assumes env: "patient_env (service_path (h_Namespace host) (TargetService host)) env"
    and deadline: "deadline left (he_try env) (he_api env) (notify host)"
    and api: "never_ready (he_api env) (h_Namespace host) (TargetService host)"
    and unready: "Load (serviceReadyMap s) (service_path (h_Namespace host) (TargetService host)) \<noteq> Some True"
    and fresh: "hw_status (rw s) = None" "\<not> hw_broken (rw s)" "hw_body (rw s) = []"
  shows "\<exists>e s'. throttled_request env req host s = Some (Ok (host, Some e), s') \<and>
    rw_statusCode (rw s') = 408 \<and> hw_status (rw s') = Some 408 \<and> hw_body (rw s') = ''request timeout'' @ [CHR 0x0A] \<and>
    (h_Namespace host, SourceService host) \<in> set (notified s')"
proof -
  let ?key = "service_path (h_Namespace host) (TargetService host)"
  let ?err = "EWrap ''thunk error'' (EWrap ''context done error'' (ECtx DeadlineExceeded))"
  define s1 where "s1 = snd (incrementQueueSize (h_Namespace host) (SourceService host) (notify host s))"
  have s1: "rw s1 = rw s" "notified s1 = notified s @ [(h_Namespace host, SourceService host)]"
    "serviceReadyMap s1 = serviceReadyMap s"
    by (simp_all add: s1_def incrementQueueSize_def change_queue_size_def notify_def)
  obtain n t r s2 where run: "try_loop (he_try env) (he_api env) host (resolve_request env req host) (notify host) 1 s1 = Some (r, s2)"
    "waits (he_try env) (he_api env) host (notify host) n s1 t"
    "ends (he_try env) (he_api env) host (notify host) (resolve_request env req host) (1 + n) t r s2"
    using some_round_is_last [OF deadline, where s = s1 and k = 1] waits_loop ends_loop by metis
  have t: "undisturbed ?key s1 t" using waits_undisturbed [OF run(2) env api] unready s1(3) by simp
  have r: "r = Err ?err" "undisturbed ?key t s2"
    using ends_unready [OF run(3) env api] undisturbed_ready [OF t] unready s1(3) by simp_all
  have u: "undisturbed ?key s1 s2" using t r(2) by (rule undisturbed_trans)
  define s3 where "s3 = snd (decrementQueueSize (h_Namespace host) (SourceService host) s2)"
  have s3: "rw s3 = rw s" "(h_Namespace host, SourceService host) \<in> set (notified s3)"
    using u s1 by (auto simp: s3_def decrementQueueSize_def change_queue_size_def undisturbed_def dest!: set_mono_prefix)
  have "Try (he_try env) (he_api env) host (resolve_request env req host) (notify host) (notify host s) = Some (Err ?err, s3)"
    using run(1) r(1) by (simp add: Try_def s1_def s3_def case_prod_beta)
  then have "throttled_request env req host s = Some (answer_try_error host ?err s3)"
    by (simp add: throttled_request_def)
  moreover obtain s4 where "http_Error ''request timeout'' 408 s3 = (Ok (), s4)" "rw_statusCode (rw s4) = 408" "hw_status (rw s4) = Some 408"
      "hw_body (rw s4) = ''request timeout'' @ [CHR 0x0A]" "notified s4 = notified s3"
    using fresh s3(1) by (simp add: http_Error_def on_writer_def Header_Set_def write_header_fresh write_body_run)
  ultimately show ?thesis using s3(2) by (auto simp: answer_try_error_def)
qed

lemma traffic_throttled:
  assumes "found_host req s host m" and "probe_answer env req host (crdCache s) = None" and "TrafficAllowed host"
  shows "handleAnyRequest env req (s\<lparr>rw := w\<rparr>) = throttled_request env req host (s\<lparr>hms := (hms s)\<lparr>manager := m\<rparr>, rw := w\<rparr>)"
  using assms(2,3) by (simp add: handle_found [OF assms(1)] respondProbe_run)


section \<open>Requests that reach a target\<close>

text \<open>
  The reverse proxy reports a failure to its error handler only, so that a request whose proxying
  failed, with a 502 for the client, counts as served: the traffic of the host is scheduled to be
  switched away from the resolver all the same.
\<close>

theorem failed_proxy_counts_as_served:
  assumes "he_ParseURL env (TargetHost host @ q_RequestURI req) = Inr url"
    and "he_Proxy env (NewHeaderPruningReverseProxy url req) (on_writer (Header_Set ''Connection'' ''close'') s) = (ProxyFailed err, s1)"
    and "hw_status (rw s1) = None" and "hw_header (rw s1) ''Content-Type'' = None"
  shows "\<exists>s'. resolve_request env req host k s = (Ok (), s') \<and> hw_status (rw s') = Some 502 \<and>
    hms s' = ScheduleDisableTrafficForHost (IncomingHost host) (hms s1)"
proof -
  obtain s2 where "proxy_error_handler s1 = (Ok (), s2)" "hw_status (rw s2) = Some 502" "hms s2 = hms s1"
    using assms(3,4) by (cases "hw_broken (rw s1)") (simp_all add: proxy_error_handler_def on_writer_def Header_Set_def write_header_fresh handle_run write_body_run ignoring_def)
  then have "ProxyRequest env req host k (on_writer (Header_Set ''Connection'' ''close'') s) = (Ok (), s2)"
    using assms(1,2) by (simp add: ProxyRequest_def attempt_def handle_run pure_call_def)
  then show ?thesis
    using \<open>hw_status (rw s2) = Some 502\<close> \<open>hms s2 = hms s1\<close> by (simp add: resolve_request_def schedule_disable_def)
qed

text \<open>
  A request that is answered just before its deadline gets its answer spoiled. Although the
  response has been copied to the client, the handler reports a timeout: it appends the text of the
  timeout to the body and records status 408, while the client has seen the status of the target.
\<close>

theorem late_answer_spoiled:
  fixes s :: "('w, 'z) res_st_scheme"
  assumes "te_Maybe (he_try env) (snd (incrementQueueSize (h_Namespace host) (SourceService host) (notify host s))) = (Ok (), s1)"
    and "checkIfServiceReady (he_api env) (h_Namespace host) (TargetService host) s1 = (Ok True, s2)"
    and "resolve_request env req host 1 s2 = (Ok (), s3)" and "te_Done (he_try env) s3 = (Some DeadlineExceeded, s4)"
    and answered: "hw_status (rw s4) = Some c" "\<not> hw_broken (rw s4)"
  shows "\<exists>e s'. throttled_request env req host s = Some (Ok (host, Some e), s') \<and> hw_status (rw s') = Some c \<and>
    hw_body (rw s') = hw_body (rw s4) @ ''request timeout'' @ [CHR 0x0A] \<and> rw_statusCode (rw s') = 408"
proof -
  let ?err = "EWrap ''thunk error'' (EWrap ''context done error'' (ECtx DeadlineExceeded))"
  have "try_loop (he_try env) (he_api env) host (resolve_request env req host) (notify host) 1
      (snd (incrementQueueSize (h_Namespace host) (SourceService host) (notify host s))) = Some (Err ?err, s4)"
    by (rule ends_loop, rule ends.resolved_late) (use assms(1-4) in auto)
  then have "Try (he_try env) (he_api env) host (resolve_request env req host) (notify host) (notify host s) =
      Some (Err ?err, snd (decrementQueueSize (h_Namespace host) (SourceService host) s4))"
    by (simp add: Try_def case_prod_beta)
  then have "throttled_request env req host s =
      Some (answer_try_error host ?err (snd (decrementQueueSize (h_Namespace host) (SourceService host) s4)))"
    by (simp add: throttled_request_def)
  then show ?thesis
    using answered by (simp add: answer_try_error_def http_Error_def on_writer_def Header_Set_def write_header_again write_body_run
        decrementQueueSize_def change_queue_size_def)
qed

section \<open>Concrete runs\<close>

text \<open>A resolver with one known host, an idle breaker and a clock; the reverse proxy answers \<^verbatim>\<open>hello\<close>.\<close>

definition sample_henv :: "(nat, unit) handler_env" where
  "sample_henv =
     \<lparr>he_try = clock_env, he_api = idle_api, he_Compile = (\<lambda>_. Inl (EMsg ''unsupported'')), he_ParseURL = Inr,
      he_Proxy = (\<lambda>_ s. (Proxied, on_writer (\<lambda>r. snd (Write ''hello'' r)) s))\<rparr>"

definition sample_cache :: crd_cache where
  "sample_cache = (New (NewOperatorClientWithURL ''http://operator'') 0)
     \<lparr>cc_cache := Store sm_empty ''shop/web'' \<lparr>ce_Name = ''web-es'', ce_Spec = Some (encode_spec probe_spec), ce_Status = None\<rparr>\<rparr>"

definition res_st0 :: "nat \<Rightarrow> host \<Rightarrow> nat res_st" where
  "res_st0 n host =
     \<lparr>world = n, writes = [], serviceReadyMap = sm_empty, readyTimers = [], queueSizeMap = sm_empty,
      hms = \<lparr>manager = (NewHostManager 1 1 ''Host'')\<lparr>hosts := Store sm_empty ''web.shop.svc.cluster.local'' host\<rparr>,
        disable_timers = {#}, enable_timers = {#}\<rparr>,
      crdCache = Some sample_cache, notified = [], rw = newResponseWriter False\<rparr>"

lemma sample_found: "found_host (probe_request\<lparr>q_Path := p\<rparr>) (res_st0 n host) host (manager (hms (res_st0 n host)))"
  by (simp add: found_host_def GetHost_def incoming_host_def probe_request_def res_st0_def NewHostManager_def)

lemma sample_answer:
  assumes "h_Namespace h = ''shop''" and "SourceService h = ''web''"
  shows "probe_answer sample_henv (probe_request\<lparr>q_Path := p\<rparr>) h (crdCache (res_st0 n host)) =
     map_option rule_answer (find (rule_matches (\<lambda>_. Inl (EMsg ''unsupported'')) (probe_request\<lparr>q_Path := p\<rparr>)) (ProbeResponse probe_spec))"
proof -
  have "spec_ok probe_spec" by (simp add: spec_ok_def probe_spec_def zero_spec_def in_int_def rule_ok_def)
  then show ?thesis
    by (simp add: probe_answer_def res_st0_def sample_cache_def sample_henv_def GetElastiService_def assms MatchProbeResponse_encoded)
qed


theorem switched_traffic_refused_witness:
  "\<exists>s' e. ServeHTTP sample_henv False (probe_request\<lparr>q_Path := ''/shop''\<rparr>) (res_st0 3 (web_host\<lparr>TrafficAllowed := False\<rparr>)) =
     Some (Ok (web_host\<lparr>TrafficAllowed := False\<rparr>, ''GET'', 408, Some e), s') \<and> notified s' = []"
proof -
  let ?host = "web_host\<lparr>TrafficAllowed := False\<rparr>"
  have "map_option rule_answer (find (rule_matches (\<lambda>_. Inl (EMsg ''unsupported'')) (probe_request\<lparr>q_Path := ''/shop''\<rparr>)) (ProbeResponse probe_spec)) = None"
    by code_simp
  then have "probe_answer sample_henv (probe_request\<lparr>q_Path := ''/shop''\<rparr>) ?host (crdCache (res_st0 3 ?host)) = None"
    by (subst sample_answer) (simp_all add: web_host_def)
  from switched_traffic_refused [OF sample_found this, of False]
  show ?thesis by (auto simp: probe_request_def res_st0_def)
qed


theorem failed_proxy_counts_as_served_witness:
  "\<exists>s'. resolve_request (sample_henv\<lparr>he_Proxy := (\<lambda>_ s. (ProxyFailed (EMsg ''connection reset''), s))\<rparr>) probe_request
      (web_host\<lparr>IncomingHost := ''web.shop.svc.cluster.local''\<rparr>) 1 (res_st0 3 web_host) = (Ok (), s') \<and>
    hw_status (rw s') = Some 502 \<and> disable_timers (hms s') = {#''web.shop.svc.cluster.local''#}"
proof -
  let ?env = "sample_henv\<lparr>he_Proxy := (\<lambda>_ s. (ProxyFailed (EMsg ''connection reset''), s))\<rparr>"
  let ?host = "web_host\<lparr>IncomingHost := ''web.shop.svc.cluster.local''\<rparr>"
  let ?s = "on_writer (Header_Set ''Connection'' ''close'') (res_st0 3 web_host)"
  have "he_ParseURL ?env (TargetHost ?host @ q_RequestURI probe_request) = Inr (TargetHost ?host @ q_RequestURI probe_request)"
    by (simp add: sample_henv_def)
  moreover have "he_Proxy ?env (NewHeaderPruningReverseProxy (TargetHost ?host @ q_RequestURI probe_request) probe_request) ?s =
      (ProxyFailed (EMsg ''connection reset''), ?s)" by simp
  moreover have "hw_status (rw ?s) = None" "hw_header (rw ?s) ''Content-Type'' = None"
    by (simp_all add: on_writer_def Header_Set_def res_st0_def newResponseWriter_def)
  ultimately have "\<exists>s'. resolve_request ?env probe_request ?host 1 (res_st0 3 web_host) = (Ok (), s') \<and> hw_status (rw s') = Some 502 \<and>
      hms s' = ScheduleDisableTrafficForHost (IncomingHost ?host) (hms ?s)"
    by (rule failed_proxy_counts_as_served)
  then show ?thesis
    by (auto simp: ScheduleDisableTrafficForHost_def on_writer_def res_st0_def NewHostManager_def web_host_def)
qed

theorem late_answer_spoiled_witness:
  "\<exists>e s'. throttled_request (sample_henv\<lparr>he_api := ready_api\<rparr>) probe_request web_host (res_st0 0 web_host) = Some (Ok (web_host, Some e), s') \<and>
    hw_status (rw s') = Some 200 \<and> hw_body (rw s') = ''hellorequest timeout'' @ [CHR 0x0A] \<and> rw_statusCode (rw s') = 408"
proof -
  let ?env = "sample_henv\<lparr>he_api := ready_api\<rparr>"
  define s1 where "s1 = snd (incrementQueueSize (h_Namespace web_host) (SourceService web_host) (notify web_host (res_st0 0 web_host)))"
  define s2 where "s2 = snd (checkIfServiceReady ready_api (h_Namespace web_host) (TargetService web_host) s1)"
  define s3 where "s3 = snd (resolve_request ?env probe_request web_host 1 s2)"
  note starts = s1_def incrementQueueSize_def change_queue_size_def notify_def res_st0_def
  have check: "checkIfServiceReady ready_api (h_Namespace web_host) (TargetService web_host) s1 = (Ok True, s2)"
    by (simp add: s2_def Let_def checkIfServiceReady_def CheckIfServiceEndpointSliceActive_def attempt_def handle_run api_read_def mark_ready_def
        ready_api_def idle_api_def endpoint_ready_def starts)
  have s2: "rw s2 = newResponseWriter False" "world s2 = 0"
    by (simp_all add: s2_def Let_def checkIfServiceReady_def CheckIfServiceEndpointSliceActive_def attempt_def handle_run api_read_def mark_ready_def
        ready_api_def idle_api_def endpoint_ready_def starts)
  have served: "resolve_request ?env probe_request web_host 1 s2 = (Ok (), s3)" "world s3 = 0" "hw_status (rw s3) = Some 200"
      "hw_body (rw s3) = ''hello''" "\<not> hw_broken (rw s3)"
    using s2 by (simp_all add: s3_def resolve_request_def ProxyRequest_def attempt_def handle_run pure_call_def sample_henv_def
        schedule_disable_def on_writer_def Header_Set_def Write_def Let_def newResponseWriter_def)
  have "te_Maybe (he_try ?env) s1 = (Ok (), s1)" "te_Done (he_try ?env) s3 = (Some DeadlineExceeded, s3)"
    using served(2) by (simp_all add: sample_henv_def clock_env_def)
  then show ?thesis
    using late_answer_spoiled [of ?env web_host "res_st0 0 web_host" s1 s2 probe_request s3 s3 200] check served
    by (auto simp: s1_def)
qed

end
