(* ===== verification/Transport.thy ===== *)
theory Transport
  imports Packages
begin

text \<open>
  The transport of the reverse proxy (\<^verbatim>\<open>src/resolver/internal/throttler/transport.go\<close>): the
  protocol of the outgoing connection, and the dialer that retries while a fresh endpoint does not
  answer yet. The dials of package \<^verbatim>\<open>net\<close>, \<^verbatim>\<open>tls\<close> and the step of
  \<^verbatim>\<open>wait.Backoff\<close> are arguments; what is used of the latter is its documentation: a step
  lowers the remaining steps by one.
\<close>

definition ErrTimeoutDialing :: go_error where "ErrTimeoutDialing = EMsg ''timed out dialing''"

definition retry_sleep :: duration where "retry_sleep = 30 * 1000000"

text \<open>\<^verbatim>\<open>wait.Backoff\<close>; factor and jitter in hundredths.\<close>

record backoff =
  bo_Duration :: duration
  bo_Factor :: int
  bo_Jitter :: int
  bo_Steps :: int

definition backOffTemplate :: backoff where
  "backOffTemplate = \<lparr>bo_Duration = 50 * 1000000, bo_Factor = 140, bo_Jitter = 10, bo_Steps = 15\<rparr>"

text \<open>An error of a dial: whether it is a timeout of the network, and whether the connection was refused.\<close>

record dial_error =
  de_err :: go_error
  de_Timeout :: bool
  de_refused :: bool

type_synonym ('s, 'c) dialer = "duration \<Rightarrow> 's \<Rightarrow> (dial_error + 'c) \<times> 's"

text \<open>\<open>pause\<close> is what happens during the sleep between two dials.\<close>

partial_function (option) dial_loop ::
  "('s, 'c) dialer \<Rightarrow> (backoff \<Rightarrow> duration \<times> backoff) \<Rightarrow> ('s \<Rightarrow> 's) \<Rightarrow> duration \<Rightarrow> backoff \<Rightarrow> 's \<Rightarrow> ((go_error + 'c) \<times> 's) option" where
  "dial_loop Dial Step pause timeout bo s =
     (case Dial timeout s of
        (Inr c, s') \<Rightarrow> Some (Inr c, s')
      | (Inl err, s') \<Rightarrow>
          if de_Timeout err \<or> de_refused err
          then (if bo_Steps bo < 1 then Some (Inl (EWrap ''after'' ErrTimeoutDialing), s')
                else dial_loop Dial Step pause (fst (Step bo)) (snd (Step bo)) (pause s'))
          else Some (Inl (EWrap ''dialBackOffHelper'' (de_err err)), s'))"

text \<open>The dialer without or with TLS, as \<open>tlsConf\<close> is nil or not.\<close>

definition dialBackOffHelper ::
  "('s, 'c) dialer \<Rightarrow> ('t \<Rightarrow> ('s, 'c) dialer) \<Rightarrow> (backoff \<Rightarrow> duration \<times> backoff) \<Rightarrow> ('s \<Rightarrow> 's) \<Rightarrow> backoff \<Rightarrow> 't option \<Rightarrow>
   's \<Rightarrow> ((go_error + 'c) \<times> 's) option" where
  "dialBackOffHelper DialContext DialWithDialer Step pause bo tlsConf s =
     dial_loop (case tlsConf of None \<Rightarrow> DialContext | Some conf \<Rightarrow> DialWithDialer conf) Step pause (bo_Duration bo) bo s"

definition NewBackoffDialer ::
  "('s, 'c) dialer \<Rightarrow> (unit \<Rightarrow> ('s, 'c) dialer) \<Rightarrow> (backoff \<Rightarrow> duration \<times> backoff) \<Rightarrow> ('s \<Rightarrow> 's) \<Rightarrow> backoff \<Rightarrow>
   's \<Rightarrow> ((go_error + 'c) \<times> 's) option" where
  "NewBackoffDialer DialContext DialWithDialer Step pause backoffConfig =
     dialBackOffHelper DialContext DialWithDialer Step pause backoffConfig None"

definition DialWithBackOff ::
  "('s, 'c) dialer \<Rightarrow> (unit \<Rightarrow> ('s, 'c) dialer) \<Rightarrow> (backoff \<Rightarrow> duration \<times> backoff) \<Rightarrow> ('s \<Rightarrow> 's) \<Rightarrow>
   's \<Rightarrow> ((go_error + 'c) \<times> 's) option" where
  "DialWithBackOff DialContext DialWithDialer Step pause = NewBackoffDialer DialContext DialWithDialer Step pause backOffTemplate"

section \<open>The protocol\<close>

record http_transport =
  DisableKeepAlives :: bool
  MaxIdleConns :: int
  MaxIdleConnsPerHost :: int
  ForceAttemptHTTP2 :: bool
  DisableCompression :: bool

definition newHTTPTransport :: "bool \<Rightarrow> bool \<Rightarrow> int \<Rightarrow> int \<Rightarrow> http_transport" where
  "newHTTPTransport disableKeepAlives disableCompression maxIdle maxIdlePerHost =
     \<lparr>DisableKeepAlives = disableKeepAlives, MaxIdleConns = maxIdle, MaxIdleConnsPerHost = maxIdlePerHost,
      ForceAttemptHTTP2 = False, DisableCompression = disableCompression\<rparr>"

datatype round_tripper = HTTP1 http_transport | H2C bool bool     \<comment> \<open>AllowHTTP and DisableCompression\<close>

definition newH2CTransport :: "bool \<Rightarrow> round_tripper" where
  "newH2CTransport disableCompression = H2C True disableCompression"

definition NewProxyAutoTransport :: "int \<Rightarrow> int \<Rightarrow> int \<Rightarrow> round_tripper" where
  "NewProxyAutoTransport maxIdleProxyConns maxIdleProxyConnsPerHost protoMajor =
     (let v1 = HTTP1 (newHTTPTransport False True maxIdleProxyConns maxIdleProxyConnsPerHost);
          v2 = newH2CTransport True
      in if protoMajor = 2 then v2 else v1)"

section \<open>Properties\<close>

text \<open>What the loop does, with the number of dials.\<close>

definition retryable :: "dial_error \<Rightarrow> bool" where
  "retryable err \<longleftrightarrow> de_Timeout err \<or> de_refused err"

inductive dials ::
  "('s, 'c) dialer \<Rightarrow> (backoff \<Rightarrow> duration \<times> backoff) \<Rightarrow> ('s \<Rightarrow> 's) \<Rightarrow> nat \<Rightarrow> duration \<Rightarrow> backoff \<Rightarrow> 's \<Rightarrow> (go_error + 'c) \<Rightarrow> 's \<Rightarrow> bool"
  for Dial Step pause where
  connected: "Dial t s = (Inr c, s') \<Longrightarrow> dials Dial Step pause 1 t bo s (Inr c) s'"
| failed: "Dial t s = (Inl err, s') \<Longrightarrow> \<not> retryable err \<Longrightarrow>
    dials Dial Step pause 1 t bo s (Inl (EWrap ''dialBackOffHelper'' (de_err err))) s'"
| gave_up: "Dial t s = (Inl err, s') \<Longrightarrow> retryable err \<Longrightarrow> bo_Steps bo < 1 \<Longrightarrow>
    dials Dial Step pause 1 t bo s (Inl (EWrap ''after'' ErrTimeoutDialing)) s'"
| again: "Dial t s = (Inl err, s1) \<Longrightarrow> retryable err \<Longrightarrow> 1 \<le> bo_Steps bo \<Longrightarrow>
    dials Dial Step pause n (fst (Step bo)) (snd (Step bo)) (pause s1) r s' \<Longrightarrow> dials Dial Step pause (Suc n) t bo s r s'"

definition steps_down :: "(backoff \<Rightarrow> duration \<times> backoff) \<Rightarrow> bool" where
  "steps_down Step \<longleftrightarrow> (\<forall>bo. 1 \<le> bo_Steps bo \<longrightarrow> bo_Steps (snd (Step bo)) = bo_Steps bo - 1)"

lemma dial_loop_bounded:
  assumes "steps_down Step"
  shows "\<exists>n r s'. dial_loop Dial Step pause t bo s = Some (r, s') \<and> dials Dial Step pause n t bo s r s' \<and>
    n \<le> Suc (nat (bo_Steps bo)) \<and> (r = Inl (EWrap ''after'' ErrTimeoutDialing) \<longrightarrow> n = Suc (nat (bo_Steps bo)))"
proof (induction "nat (bo_Steps bo)" arbitrary: t bo s rule: less_induct)
  case less
  obtain x s1 where dial: "Dial t s = (x, s1)" by fastforce
  show ?case
  proof (cases "\<exists>err. x = Inl err \<and> retryable err \<and> 1 \<le> bo_Steps bo")
    case True
    then obtain err where err: "x = Inl err" "retryable err" "1 \<le> bo_Steps bo" by blast
    let ?bo = "snd (Step bo)"
    have steps: "bo_Steps ?bo = bo_Steps bo - 1" using assms err(3) by (simp add: steps_down_def)
    then have "nat (bo_Steps ?bo) < nat (bo_Steps bo)" using err(3) by simp
    from less [OF this, of "fst (Step bo)" "pause s1"] obtain n r s' where
      "dial_loop Dial Step pause (fst (Step bo)) ?bo (pause s1) = Some (r, s')"
      "dials Dial Step pause n (fst (Step bo)) ?bo (pause s1) r s'" "n \<le> Suc (nat (bo_Steps ?bo))"
      "r = Inl (EWrap ''after'' ErrTimeoutDialing) \<longrightarrow> n = Suc (nat (bo_Steps ?bo))" by blast
    moreover have "dial_loop Dial Step pause t bo s = dial_loop Dial Step pause (fst (Step bo)) ?bo (pause s1)"
      using dial err by (subst dial_loop.simps) (simp add: retryable_def)
    ultimately show ?thesis
      using again [where Step = Step and pause = pause and bo = bo and n = n and r = r and s' = s'] dial err steps
      by (intro exI [of _ "Suc n"] exI [of _ r] exI [of _ s']) auto
  next
    case False
    show ?thesis
    proof (cases x)
      case (Inr c)
      then show ?thesis using dial connected [of Dial t s c s1 Step pause bo] by (subst dial_loop.simps) force
    next
      case (Inl err)
      then show ?thesis using dial False failed [of Dial t s err s1 Step pause bo] gave_up [of Dial t s err s1 bo Step pause]
        by (subst dial_loop.simps) (force simp: retryable_def ErrTimeoutDialing_def)
    qed
  qed
qed

text \<open>
  C38: the dialer always comes back, after at most one dial more than its steps. It returns the first
  connection; an error that is neither a timeout nor a refused connection ends it at once; and it
  reports a timeout only after all the dials its steps allow.
\<close>

theorem dial_attempts_bounded:
  assumes "steps_down Step"
  shows "\<exists>n r s'. dialBackOffHelper DialContext DialWithDialer Step pause bo tlsConf s = Some (r, s') \<and>
    dials (case tlsConf of None \<Rightarrow> DialContext | Some conf \<Rightarrow> DialWithDialer conf) Step pause n (bo_Duration bo) bo s r s' \<and>
    n \<le> Suc (nat (bo_Steps bo)) \<and> (r = Inl (EWrap ''after'' ErrTimeoutDialing) \<longrightarrow> n = Suc (nat (bo_Steps bo)))"
  unfolding dialBackOffHelper_def by (rule dial_loop_bounded [OF assms])

definition sample_step :: "backoff \<Rightarrow> duration \<times> backoff" where
  "sample_step bo = (bo_Duration bo, bo\<lparr>bo_Duration := bo_Duration bo * bo_Factor bo div 100, bo_Steps := bo_Steps bo - 1\<rparr>)"

text \<open>The third dial succeeds.\<close>

definition sample_dial :: "(nat, nat) dialer" where
  "sample_dial t s = (if s < 2 then Inl \<lparr>de_err = EMsg ''connection refused'', de_Timeout = False, de_refused = True\<rparr> else Inr s, Suc s)"

theorem dial_attempts_bounded_witness:
  "\<exists>n r s'. DialWithBackOff sample_dial (\<lambda>_. sample_dial) sample_step (\<lambda>s. s) 0 = Some (r, s') \<and> n \<le> 16 \<and>
     dials sample_dial sample_step (\<lambda>s. s) n (bo_Duration backOffTemplate) backOffTemplate 0 r s'"
proof -
  have "steps_down sample_step" by (simp add: steps_down_def sample_step_def)
  from dial_attempts_bounded [OF this, of sample_dial "\<lambda>_. sample_dial" "\<lambda>s. s" backOffTemplate None 0]
  show ?thesis by (auto simp: backOffTemplate_def DialWithBackOff_def NewBackoffDialer_def)
qed

end
