(* ===== verification/Resolver_Main.thy ===== *)
theory Resolver_Main
  imports Handler Transport
begin

text \<open>
  The start of the resolver (\<^verbatim>\<open>src/resolver/cmd/main.go\<close>): the settings with their defaults, and
  the components they are wired into. Reading the settings from the environment is the library
  \<^verbatim>\<open>envconfig\<close>; the two HTTP servers run in \<^verbatim>\<open>net/http\<close>.
\<close>

record settings =
  set_MaxIdleProxyConns :: int
  set_MaxIdleProxyConnsPerHost :: int
  set_ReqTimeout :: int
  set_TrafficReEnableDuration :: int
  set_TrafficDisableGraceDuration :: int
  set_OperatorRetryDuration :: int
  set_QueueRetryDuration :: int
  set_QueueSize :: nat
  set_MaxQueueConcurrency :: nat
  set_InitialCapacity :: nat
  set_HeaderForHost :: string
  set_CRDCachePollIntervalMinutes :: int
  set_EnableH2C :: bool

definition default_settings :: settings where
  "default_settings =
     \<lparr>set_MaxIdleProxyConns = 1000, set_MaxIdleProxyConnsPerHost = 100, set_ReqTimeout = 600, set_TrafficReEnableDuration = 30,
      set_TrafficDisableGraceDuration = 15, set_OperatorRetryDuration = 30, set_QueueRetryDuration = 5, set_QueueSize = 100,
      set_MaxQueueConcurrency = 10, set_InitialCapacity = 100, set_HeaderForHost = ''Host'', set_CRDCachePollIntervalMinutes = 5,
      set_EnableH2C = False\<rparr>"

record resolver_process =
  rp_operator :: operator_client
  rp_operatorRetry :: duration
  rp_hosts :: host_manager
  rp_cache :: crd_cache
  rp_transport :: "int \<Rightarrow> round_tripper"
  rp_throttler :: throttler
  rp_timeout :: duration
  rp_reverseProxyPort :: string
  rp_internalPort :: string

definition resolver_main :: "settings \<Rightarrow> env \<Rightarrow> string + resolver_process" where
  "resolver_main cfg Getenv =
     seq_panic (NewOperatorClient Getenv) (\<lambda>newOperatorRPC.
     seq_panic (GetResolverConfig Getenv) (\<lambda>rc.
       Inr \<lparr>rp_operator = newOperatorRPC, rp_operatorRetry = set_OperatorRetryDuration cfg * second,
            rp_hosts = NewHostManager (set_TrafficReEnableDuration cfg * second) (set_TrafficDisableGraceDuration cfg * second)
              (set_HeaderForHost cfg),
            rp_cache = New newOperatorRPC (set_CRDCachePollIntervalMinutes cfg * 60 * second),
            rp_transport = NewProxyAutoTransport (set_MaxIdleProxyConns cfg) (set_MaxIdleProxyConnsPerHost cfg),
            rp_throttler = NewThrottler \<lparr>tp_QueueRetryDuration = set_QueueRetryDuration cfg * second,
              tp_TrafficReEnableDuration = set_TrafficReEnableDuration cfg * second, tp_QueueDepth = set_QueueSize cfg,
              tp_MaxConcurrency = set_MaxQueueConcurrency cfg, tp_InitialCapacity = set_InitialCapacity cfg\<rparr>,
            rp_timeout = set_ReqTimeout cfg * second,
            rp_reverseProxyPort = '':'' @ Itoa_int (ReverseProxyPort rc), rp_internalPort = '':'' @ Itoa_int (Port rc)\<rparr>))"

text \<open>
  The protocols of the reverse proxy server: those \<^verbatim>\<open>net/http\<close> defaults to, or HTTP/1 and HTTP/2 without
  TLS, which gRPC clients need.
\<close>

datatype http_protocol = HTTP1 | UnencryptedHTTP2

definition reverseProxyProtocols :: "settings \<Rightarrow> http_protocol set option" where
  "reverseProxyProtocols cfg = (if set_EnableH2C cfg then Some {HTTP1, UnencryptedHTTP2} else None)"

text \<open>The routes of the internal server.\<close>

datatype internal_endpoint = Metrics | QueueStatus | CRDCacheStatus | Alive

definition internalServeMux :: "string \<Rightarrow> internal_endpoint option" where
  "internalServeMux path =
     map_of [(''/metrics'', Metrics), (''/queue-status'', QueueStatus), (''/crd-cache-status'', CRDCacheStatus),
       (''/healthz'', Alive), (''/readyz'', Alive)] path"

section \<open>Defaults\<close>

text \<open>
  With the defaults the breaker admits 110 requests and its semaphore starts with 100 units, although
  the concurrency of the queue is set to 10; a request waits 120 rounds at most before its timeout.
\<close>

lemma default_breaker:
  "resolver_main default_settings Getenv = Inr p \<Longrightarrow>
     t_breaker (rp_throttler p) = NewBreaker \<lparr>QueueDepth = 100, MaxConcurrency = 10, InitialCapacity = 100\<rparr>"
  by (cases "NewOperatorClient Getenv"; cases "GetResolverConfig Getenv")
    (auto simp: resolver_main_def default_settings_def NewThrottler_def)

lemma default_rounds:
  "resolver_main default_settings Getenv = Inr p \<Longrightarrow> rp_timeout p = 120 * retryDuration (rp_throttler p)"
  by (cases "NewOperatorClient Getenv"; cases "GetResolverConfig Getenv")
    (auto simp: resolver_main_def default_settings_def NewThrottler_def)

end
