(* ===== verification/Scale_Watcher.thy ===== *)
theory Scale_Watcher
  imports Scale_Handler
begin

text \<open>
  The scale down watcher (\<^verbatim>\<open>StartScaleDownWatcher\<close> of \<^verbatim>\<open>src/pkg/scaling/scale_handler.go\<close>):
  a goroutine that runs the check at every tick until its context is done. \<^verbatim>\<open>time.NewTicker\<close>
  panics if the interval is not positive.
\<close>

definition NewTicker :: "duration \<Rightarrow> (('w, 'z) scaler_st_scheme, unit) prog" where
  "NewTicker d = (if d \<le> 0 then panic ''non-positive interval for NewTicker'' else ret ())"

text \<open>What the \<^verbatim>\<open>select\<close> of the loop receives, in order.\<close>

datatype watch_event = Tick_received | Ctx_done

fun watch_loop ::
  "libs \<Rightarrow> ('w, 'x) api_scheme \<Rightarrow> string list \<Rightarrow> watch_event list \<Rightarrow> (('w, 'z) scaler_st_scheme, unit) prog" where
  "watch_loop l api watch [] = ret ()"
| "watch_loop l api watch (Ctx_done # _) = ret ()"
| "watch_loop l api watch (Tick_received # events) = ignoring (checkAndScale l api watch) (watch_loop l api watch events)"

definition StartScaleDownWatcher ::
  "libs \<Rightarrow> ('w, 'x) api_scheme \<Rightarrow> string list \<Rightarrow> watch_event list \<Rightarrow> (('w, 'z) scaler_st_scheme, unit) prog" where
  "StartScaleDownWatcher l api watch events =
     handle (NewTicker (polling_interval l (a_getenv api))) fail (\<lambda>_. watch_loop l api watch events)"

section \<open>Properties\<close>

lemma polling_interval_positive: "0 < polling_interval l Getenv"
  by (auto simp: polling_interval_def Let_def split: sum.split)

lemma StartScaleDownWatcher_loop: "StartScaleDownWatcher l api watch events = watch_loop l api watch events"
  using polling_interval_positive [of l "a_getenv api"]
  by (simp add: StartScaleDownWatcher_def NewTicker_def fun_eq_iff handle_run ret_def)

lemma watch_loop_scoped:
  assumes "asks P (checkAndScale l api watch :: (('w, 'z) scaler_st_scheme, unit) prog)"
  shows "asks P (watch_loop l api watch events :: (('w, 'z) scaler_st_scheme, unit) prog)"
proof (induction events)
  case (Cons e es)
  then show ?case using assms by (cases e) (auto intro: asks_intro)
qed (simp add: asks_def)

lemma watch_loop_no_error: "fst (watch_loop l api watch events s) \<noteq> Err err"
proof (induction events arbitrary: s)
  case (Cons e es)
  then show ?case by (cases e) (simp_all add: ignoring_def handle_run ret_def split: prod.split outcome.split)
qed (simp add: ret_def)



end
