(* ===== verification/Deep_Copy.thy ===== *)
theory Deep_Copy
  imports Types
begin

text \<open>
  The deep copies of the ElastiService types
  (\<^verbatim>\<open>src/operator/api/v1alpha1/zz_generated.deepcopy.go\<close>) over an explicit heap. The informer
  caches hand out pointers to shared objects, and the controller changes what it reads, so that a
  copy has to have the value of the original and share nothing with it.

  A struct is a record over the types of its reference fields: pointers and slices in memory, the
  values they lead to when the struct is read. A pointer is an address or nil, a slice a window of
  an array cell or nil. \<^verbatim>\<open>DeepCopyInto\<close> takes the struct the receiver points to and returns the
  struct it writes through \<^verbatim>\<open>out\<close>. The metadata types of apimachinery and their copies are
  parameters; \<^verbatim>\<open>metav1.Time\<close> is a plain value.
\<close>

section \<open>Structs in memory\<close>

type_synonym addr = nat

record slice =
  sl_base :: addr
  sl_off :: nat
  sl_len :: nat

record ('p, 'h, 'q, 'm) rule_struct =
  rs_Path :: 'p
  rs_Headers :: 'h
  rs_QueryParams :: 'q
  rs_Method :: 'm
  rs_Response :: probe_response

record 'b trigger_struct =
  ts_Type :: string
  ts_Metadata :: 'b

record ('r, 't, 'a, 'e) spec_struct =
  ss_ScaleTargetRef :: scale_target_ref
  ss_Service :: string
  ss_ProbeResponse :: 'r
  ss_MinTargetReplicas :: int
  ss_CooldownPeriod :: int
  ss_Triggers :: 't
  ss_Autoscaler :: 'a
  ss_EnabledPeriod :: 'e

record 't status_struct =
  st_LastReconciledTime :: time
  st_LastScaledUpTime :: 't
  st_Mode :: string

record ('m, 's, 'u) es_struct =
  eo_TypeMeta :: "string \<times> string"
  eo_ObjectMeta :: 'm
  eo_Spec :: 's
  eo_Status :: 'u

record ('l, 'i) list_struct =
  el_TypeMeta :: "string \<times> string"
  el_ListMeta :: 'l
  el_Items :: 'i

type_synonym rule_mem = "(addr option, slice option, slice option, addr option) rule_struct"
type_synonym rule_val = "(path_match option, header_match list option, query_match list option, string option) rule_struct"
type_synonym trigger_mem = "slice option trigger_struct"
type_synonym trigger_val = "string option trigger_struct"
type_synonym spec_mem = "(slice option, slice option, addr option, addr option) spec_struct"
type_synonym spec_val = "(rule_val list option, trigger_val list option, autoscaler option, enabled_period option) spec_struct"
type_synonym status_mem = "addr option status_struct"
type_synonym status_val = "time option status_struct"
type_synonym 'm es_mem = "('m, spec_mem, status_mem) es_struct"
type_synonym 'v es_val = "('v, spec_val, status_val) es_struct"
type_synonym 'l list_mem = "('l, slice option) list_struct"
type_synonym ('v, 'k) list_val = "('k, 'v es_val list option) list_struct"

text \<open>What a cell of the heap holds: a struct, a string, or the array of a slice.\<close>

datatype ('m, 'l) cell =
    CString (the_string: string)
  | CTime (the_time: time)
  | CPath (the_path: path_match)
  | CHeader (the_header: header_match)
  | CQuery (the_query: query_match)
  | CResponse (the_response: probe_response)
  | CTargetRef (the_ref: scale_target_ref)
  | CAutoscaler (the_autoscaler: autoscaler)
  | CPeriod (the_period: enabled_period)
  | CRule (the_rule: rule_mem)
  | CTrigger (the_trigger: trigger_mem)
  | CSpec (the_spec: spec_mem)
  | CStatus (the_status: status_mem)
  | CService (the_service: "'m es_mem")
  | CList (the_list: "'l list_mem")
  | CBytes (the_bytes: string)
  | CHeaders (the_headers: "header_match list")
  | CQueries (the_queries: "query_match list")
  | CRules (the_rules: "rule_mem list")
  | CTriggers (the_triggers: "trigger_mem list")
  | CServices (the_services: "'m es_mem list")

record ('m, 'l) heap =
  cells :: "addr \<Rightarrow> ('m, 'l) cell"
  lim :: addr                            \<comment> \<open>the next address to allocate\<close>

definition alloc :: "('m, 'l) cell \<Rightarrow> ('m, 'l) heap \<Rightarrow> addr \<times> ('m, 'l) heap" where
  "alloc c h = (lim h, h\<lparr>cells := (cells h)(lim h := c), lim := Suc (lim h)\<rparr>)"

definition put :: "addr \<Rightarrow> ('m, 'l) cell \<Rightarrow> ('m, 'l) heap \<Rightarrow> ('m, 'l) heap" where
  "put a c h = h\<lparr>cells := (cells h)(a := c)\<rparr>"

type_synonym ('a, 'm, 'l) copier = "'a \<Rightarrow> ('m, 'l) heap \<Rightarrow> 'a \<times> ('m, 'l) heap"

section \<open>The shapes of the generated code\<close>

text \<open>\<^verbatim>\<open>*out = *in\<close>\<close>

definition copy_plain :: "('a, 'm, 'l) copier" where
  "copy_plain a h = (a, h)"

text \<open>
  \<^verbatim>\<open>if in == nil { return nil }; out := new(T); in.DeepCopyInto(out); return out\<close>. A pointer
  field is copied by the same steps.
\<close>

definition new_copy ::
  "('a \<Rightarrow> ('m, 'l) cell) \<Rightarrow> (('m, 'l) cell \<Rightarrow> 'a) \<Rightarrow> 'a \<Rightarrow> ('a, 'm, 'l) copier \<Rightarrow> (addr option, 'm, 'l) copier" where
  "new_copy mk un zero copyInto p h =
     (case p of
        None \<Rightarrow> (None, h)
      | Some a \<Rightarrow>
          (let (b, h1) = alloc (mk zero) h;
               (v, h2) = copyInto (un (cells h1 a)) h1
           in (Some b, put b (mk v) h2)))"

definition elements :: "(('m, 'l) cell \<Rightarrow> 'a list) \<Rightarrow> ('m, 'l) heap \<Rightarrow> slice \<Rightarrow> 'a list" where
  "elements un h s = take (sl_len s) (drop (sl_off s) (un (cells h (sl_base s))))"

text \<open>\<^verbatim>\<open>for i := range *in { (*in)[i].DeepCopyInto(&(*out)[i]) }\<close>\<close>

fun copy_loop ::
  "('a list \<Rightarrow> ('m, 'l) cell) \<Rightarrow> (('m, 'l) cell \<Rightarrow> 'a list) \<Rightarrow> ('a, 'm, 'l) copier \<Rightarrow> addr \<Rightarrow> nat \<Rightarrow> 'a list \<Rightarrow>
   ('m, 'l) heap \<Rightarrow> ('m, 'l) heap" where
  "copy_loop mk un copyInto b i [] h = h"
| "copy_loop mk un copyInto b i (x # xs) h =
     (let (y, h1) = copyInto x h
      in copy_loop mk un copyInto b (Suc i) xs (put b (mk ((un (cells h1 b))[i := y])) h1))"

text \<open>\<^verbatim>\<open>*out = make([]T, len(*in))\<close>, then the loop; for plain elements the built-in \<^verbatim>\<open>copy\<close> is the loop.\<close>

definition copy_slice ::
  "('a list \<Rightarrow> ('m, 'l) cell) \<Rightarrow> (('m, 'l) cell \<Rightarrow> 'a list) \<Rightarrow> 'a \<Rightarrow> ('a, 'm, 'l) copier \<Rightarrow> (slice option, 'm, 'l) copier" where
  "copy_slice mk un zero copyInto p h =
     (case p of
        None \<Rightarrow> (None, h)
      | Some s \<Rightarrow>
          (let xs = elements un h s;
               (b, h1) = alloc (mk (replicate (length xs) zero)) h
           in (Some \<lparr>sl_base = b, sl_off = 0, sl_len = length xs\<rparr>, copy_loop mk un copyInto b 0 xs h1)))"

section \<open>The types\<close>

definition zero_rule_mem :: rule_mem where
  "zero_rule_mem = \<lparr>rs_Path = None, rs_Headers = None, rs_QueryParams = None, rs_Method = None, rs_Response = \<lparr>pr_Status = 0, pr_Body = []\<rparr>\<rparr>"

definition zero_trigger_mem :: trigger_mem where
  "zero_trigger_mem = \<lparr>ts_Type = [], ts_Metadata = None\<rparr>"

definition zero_target_ref :: scale_target_ref where
  "zero_target_ref = \<lparr>tr_APIVersion = [], tr_Kind = [], tr_Name = []\<rparr>"

definition zero_spec_mem :: spec_mem where
  "zero_spec_mem =
     \<lparr>ss_ScaleTargetRef = zero_target_ref, ss_Service = [], ss_ProbeResponse = None, ss_MinTargetReplicas = 0,
      ss_CooldownPeriod = 0, ss_Triggers = None, ss_Autoscaler = None, ss_EnabledPeriod = None\<rparr>"

definition zero_status_mem :: status_mem where
  "zero_status_mem = \<lparr>st_LastReconciledTime = 0, st_LastScaledUpTime = None, st_Mode = []\<rparr>"

definition zero_es_mem :: "'m \<Rightarrow> 'm es_mem" where
  "zero_es_mem meta = \<lparr>eo_TypeMeta = ([], []), eo_ObjectMeta = meta, eo_Spec = zero_spec_mem, eo_Status = zero_status_mem\<rparr>"

subsection \<open>AutoscalerSpec, EnabledPeriod, ProbeResponse and its matches, ScaleTargetRef\<close>

definition autoscaler_DeepCopyInto :: "(autoscaler, 'm, 'l) copier" where
  "autoscaler_DeepCopyInto = copy_plain"

definition autoscaler_DeepCopy :: "(addr option, 'm, 'l) copier" where
  "autoscaler_DeepCopy = new_copy CAutoscaler the_autoscaler \<lparr>as_Type = [], as_Name = []\<rparr> autoscaler_DeepCopyInto"

definition period_DeepCopyInto :: "(enabled_period, 'm, 'l) copier" where
  "period_DeepCopyInto = copy_plain"

definition period_DeepCopy :: "(addr option, 'm, 'l) copier" where
  "period_DeepCopy = new_copy CPeriod the_period \<lparr>ep_Schedule = [], ep_Duration = []\<rparr> period_DeepCopyInto"

definition response_DeepCopyInto :: "(probe_response, 'm, 'l) copier" where
  "response_DeepCopyInto = copy_plain"

definition response_DeepCopy :: "(addr option, 'm, 'l) copier" where
  "response_DeepCopy = new_copy CResponse the_response \<lparr>pr_Status = 0, pr_Body = []\<rparr> response_DeepCopyInto"

definition header_DeepCopyInto :: "(header_match, 'm, 'l) copier" where
  "header_DeepCopyInto = copy_plain"

definition header_DeepCopy :: "(addr option, 'm, 'l) copier" where
  "header_DeepCopy = new_copy CHeader the_header \<lparr>hm_Name = [], hm_Type = [], hm_Value = []\<rparr> header_DeepCopyInto"

definition path_DeepCopyInto :: "(path_match, 'm, 'l) copier" where
  "path_DeepCopyInto = copy_plain"

definition path_DeepCopy :: "(addr option, 'm, 'l) copier" where
  "path_DeepCopy = new_copy CPath the_path \<lparr>pm_Type = [], pm_Value = []\<rparr> path_DeepCopyInto"

definition query_DeepCopyInto :: "(query_match, 'm, 'l) copier" where
  "query_DeepCopyInto = copy_plain"

definition query_DeepCopy :: "(addr option, 'm, 'l) copier" where
  "query_DeepCopy = new_copy CQuery the_query \<lparr>qm_Name = [], qm_Type = [], qm_Value = []\<rparr> query_DeepCopyInto"

definition ref_DeepCopyInto :: "(scale_target_ref, 'm, 'l) copier" where
  "ref_DeepCopyInto = copy_plain"

definition ref_DeepCopy :: "(addr option, 'm, 'l) copier" where
  "ref_DeepCopy = new_copy CTargetRef the_ref zero_target_ref ref_DeepCopyInto"

subsection \<open>ProbeResponseRule and ScaleTrigger\<close>

definition rule_DeepCopyInto :: "(rule_mem, 'm, 'l) copier" where
  "rule_DeepCopyInto r h =
     (let (p, h1) = new_copy CPath the_path \<lparr>pm_Type = [], pm_Value = []\<rparr> copy_plain (rs_Path r) h;
          (hs, h2) = copy_slice CHeaders the_headers \<lparr>hm_Name = [], hm_Type = [], hm_Value = []\<rparr> copy_plain (rs_Headers r) h1;
          (qs, h3) = copy_slice CQueries the_queries \<lparr>qm_Name = [], qm_Type = [], qm_Value = []\<rparr> copy_plain (rs_QueryParams r) h2;
          (m, h4) = new_copy CString the_string [] copy_plain (rs_Method r) h3
      in (r\<lparr>rs_Path := p, rs_Headers := hs, rs_QueryParams := qs, rs_Method := m\<rparr>, h4))"

definition rule_DeepCopy :: "(addr option, 'm, 'l) copier" where
  "rule_DeepCopy = new_copy CRule the_rule zero_rule_mem rule_DeepCopyInto"

definition trigger_DeepCopyInto :: "(trigger_mem, 'm, 'l) copier" where
  "trigger_DeepCopyInto t h =
     (let (md, h1) = copy_slice CBytes the_bytes (CHR 0x00) copy_plain (ts_Metadata t) h in (t\<lparr>ts_Metadata := md\<rparr>, h1))"

definition trigger_DeepCopy :: "(addr option, 'm, 'l) copier" where
  "trigger_DeepCopy = new_copy CTrigger the_trigger zero_trigger_mem trigger_DeepCopyInto"

subsection \<open>ElastiServiceSpec and ElastiServiceStatus\<close>

definition spec_DeepCopyInto :: "(spec_mem, 'm, 'l) copier" where
  "spec_DeepCopyInto s h =
     (let (rs, h1) = copy_slice CRules the_rules zero_rule_mem rule_DeepCopyInto (ss_ProbeResponse s) h;
          (ts, h2) = copy_slice CTriggers the_triggers zero_trigger_mem trigger_DeepCopyInto (ss_Triggers s) h1;
          (a, h3) = new_copy CAutoscaler the_autoscaler \<lparr>as_Type = [], as_Name = []\<rparr> copy_plain (ss_Autoscaler s) h2;
          (e, h4) = new_copy CPeriod the_period \<lparr>ep_Schedule = [], ep_Duration = []\<rparr> copy_plain (ss_EnabledPeriod s) h3
      in (s\<lparr>ss_ProbeResponse := rs, ss_Triggers := ts, ss_Autoscaler := a, ss_EnabledPeriod := e\<rparr>, h4))"

definition spec_DeepCopy :: "(addr option, 'm, 'l) copier" where
  "spec_DeepCopy = new_copy CSpec the_spec zero_spec_mem spec_DeepCopyInto"

definition status_DeepCopyInto :: "(status_mem, 'm, 'l) copier" where
  "status_DeepCopyInto s h =
     (let (t, h1) = new_copy CTime the_time 0 copy_plain (st_LastScaledUpTime s) h in (s\<lparr>st_LastScaledUpTime := t\<rparr>, h1))"

definition status_DeepCopy :: "(addr option, 'm, 'l) copier" where
  "status_DeepCopy = new_copy CStatus the_status zero_status_mem status_DeepCopyInto"

subsection \<open>ElastiService and ElastiServiceList\<close>

text \<open>\<open>metaCopy\<close> is \<^verbatim>\<open>ObjectMeta.DeepCopyInto\<close>, \<open>listMetaCopy\<close> is \<^verbatim>\<open>ListMeta.DeepCopyInto\<close>.\<close>

definition es_DeepCopyInto :: "('m, 'm, 'l) copier \<Rightarrow> ('m es_mem, 'm, 'l) copier" where
  "es_DeepCopyInto metaCopy es h =
     (let (meta, h1) = metaCopy (eo_ObjectMeta es) h;
          (spec, h2) = spec_DeepCopyInto (eo_Spec es) h1;
          (status, h3) = status_DeepCopyInto (eo_Status es) h2
      in (es\<lparr>eo_ObjectMeta := meta, eo_Spec := spec, eo_Status := status\<rparr>, h3))"

definition es_DeepCopy :: "'m \<Rightarrow> ('m, 'm, 'l) copier \<Rightarrow> (addr option, 'm, 'l) copier" where
  "es_DeepCopy zeroMeta metaCopy = new_copy CService the_service (zero_es_mem zeroMeta) (es_DeepCopyInto metaCopy)"

text \<open>The result is the interface \<^verbatim>\<open>runtime.Object\<close>, nil for a nil receiver.\<close>

definition es_DeepCopyObject :: "'m \<Rightarrow> ('m, 'm, 'l) copier \<Rightarrow> (addr option, 'm, 'l) copier" where
  "es_DeepCopyObject zeroMeta metaCopy p h =
     (case es_DeepCopy zeroMeta metaCopy p h of (Some c, h') \<Rightarrow> (Some c, h') | (None, h') \<Rightarrow> (None, h'))"

definition list_DeepCopyInto :: "'m \<Rightarrow> ('m, 'm, 'l) copier \<Rightarrow> ('l, 'm, 'l) copier \<Rightarrow> ('l list_mem, 'm, 'l) copier" where
  "list_DeepCopyInto zeroMeta metaCopy listMetaCopy l h =
     (let (meta, h1) = listMetaCopy (el_ListMeta l) h;
          (items, h2) = copy_slice CServices the_services (zero_es_mem zeroMeta) (es_DeepCopyInto metaCopy) (el_Items l) h1
      in (l\<lparr>el_ListMeta := meta, el_Items := items\<rparr>, h2))"

definition list_DeepCopy :: "'m \<Rightarrow> 'l \<Rightarrow> ('m, 'm, 'l) copier \<Rightarrow> ('l, 'm, 'l) copier \<Rightarrow> (addr option, 'm, 'l) copier" where
  "list_DeepCopy zeroMeta zeroListMeta metaCopy listMetaCopy =
     new_copy CList the_list \<lparr>el_TypeMeta = ([], []), el_ListMeta = zeroListMeta, el_Items = None\<rparr>
       (list_DeepCopyInto zeroMeta metaCopy listMetaCopy)"

definition list_DeepCopyObject :: "'m \<Rightarrow> 'l \<Rightarrow> ('m, 'm, 'l) copier \<Rightarrow> ('l, 'm, 'l) copier \<Rightarrow> (addr option, 'm, 'l) copier" where
  "list_DeepCopyObject zeroMeta zeroListMeta metaCopy listMetaCopy p h =
     (case list_DeepCopy zeroMeta zeroListMeta metaCopy listMetaCopy p h of
        (Some c, h') \<Rightarrow> (Some c, h') | (None, h') \<Rightarrow> (None, h'))"

section \<open>The contract of a deep copy\<close>

text \<open>The heap only grows: what was allocated is as it was.\<close>

definition extends :: "('m, 'l) heap \<Rightarrow> ('m, 'l) heap \<Rightarrow> bool" where
  "extends h h' \<longleftrightarrow> lim h \<le> lim h' \<and> (\<forall>a<lim h. cells h' a = cells h a)"

lemma extends_refl [simp, intro]: "extends h h"
  by (simp add: extends_def)

lemma extends_trans [trans]: "extends h h1 \<Longrightarrow> extends h1 h2 \<Longrightarrow> extends h h2"
  by (auto simp: extends_def)

lemma extends_lim: "extends h h' \<Longrightarrow> lim h \<le> lim h'"
  by (simp add: extends_def)

lemma alloc_simps [simp]:
  "fst (alloc c h) = lim h" "lim (snd (alloc c h)) = Suc (lim h)" "cells (snd (alloc c h)) (lim h) = c"
  "a \<noteq> lim h \<Longrightarrow> cells (snd (alloc c h)) a = cells h a"
  by (simp_all add: alloc_def)

lemma put_simps [simp]:
  "lim (put a c h) = lim h" "cells (put a c h) a = c" "b \<noteq> a \<Longrightarrow> cells (put a c h) b = cells h b"
  by (simp_all add: put_def)

lemma extends_alloc: "extends h (snd (alloc c h))"
  by (simp add: extends_def alloc_def)

lemma extends_put: "extends h h' \<Longrightarrow> lim h \<le> a \<Longrightarrow> extends h (put a c h')"
  by (auto simp: extends_def put_def)

text \<open>
  \<open>val\<close> reads a struct, \<open>addrs\<close> is what it reaches. Reading depends on nothing else; a copy
  of a struct that reaches only what is allocated has its value and reaches only new cells.
\<close>

locale deep_copier =
  fixes copy :: "('a, 'm, 'l) copier"
    and val :: "('m, 'l) heap \<Rightarrow> 'a \<Rightarrow> 'v"
    and addrs :: "('m, 'l) heap \<Rightarrow> 'a \<Rightarrow> addr set"
  assumes frame: "(\<And>x. x \<in> addrs h a \<Longrightarrow> cells h' x = cells h x) \<Longrightarrow> val h' a = val h a \<and> addrs h' a = addrs h a"
    and copies: "addrs h a \<subseteq> {..<lim h} \<Longrightarrow> copy a h = (b, h') \<Longrightarrow>
      extends h h' \<and> val h' b = val h a \<and> addrs h' b \<subseteq> {lim h..<lim h'}"
begin

text \<open>What is allocated is read alike in every later heap.\<close>

lemma kept:
  assumes "addrs h a \<subseteq> {..<lim h}" and "extends h h'"
  shows "val h' a = val h a" and "addrs h' a = addrs h a" and "addrs h' a \<subseteq> {..<lim h'}"
proof -
  have "cells h' x = cells h x" if "x \<in> addrs h a" for x using that assms by (auto simp: extends_def)
  then have "val h' a = val h a \<and> addrs h' a = addrs h a" by (rule frame)
  then show "val h' a = val h a" "addrs h' a = addrs h a" "addrs h' a \<subseteq> {..<lim h'}"
    using assms by (auto simp: extends_def)
qed

lemma copy_kept:
  assumes "addrs h a \<subseteq> {..<lim h}" and "copy a h = (b, h1)" and "extends h1 h2"
  shows "extends h h2" and "val h2 b = val h a" and "addrs h2 b \<subseteq> {lim h..<lim h2}" and "addrs h2 b = addrs h1 b"
proof -
  note c = copies [OF assms(1,2)]
  then have "addrs h1 b \<subseteq> {..<lim h1}" by auto
  note k = kept [OF this assms(3)]
  show "extends h h2" using c assms(3) by (blast intro: extends_trans)
  show "val h2 b = val h a" "addrs h2 b = addrs h1 b" using k c by simp_all
  then show "addrs h2 b \<subseteq> {lim h..<lim h2}" using c extends_lim [OF assms(3)] by fastforce
qed

text \<open>Original and copy live apart: changing what one reaches does not change the other.\<close>

lemma apart:
  assumes "addrs h a \<subseteq> {..<lim h}" and "copy a h = (b, h')"
  shows "val h' b = val h a" and "val h' a = val h a" and "addrs h' a \<inter> addrs h' b = {}"
proof -
  note c = copies [OF assms]
  then have ext: "extends h h'" by blast
  note k = kept [OF assms(1) ext]
  show "val h' b = val h a" using c by blast
  show "val h' a = val h a" by (rule k)
  have "lim h \<le> x" if "x \<in> addrs h' b" for x using that c by auto
  moreover have "x < lim h" if "x \<in> addrs h' a" for x using that assms(1) k(2) by auto
  ultimately show "addrs h' a \<inter> addrs h' b = {}" by (meson disjoint_iff not_le)
qed

lemma changed_elsewhere:
  assumes "addrs h a \<inter> X = {}" and "\<And>x. x \<notin> X \<Longrightarrow> cells h' x = cells h x"
  shows "val h' a = val h a"
proof -
  have "cells h' x = cells h x" if "x \<in> addrs h a" for x
    by (rule assms(2)) (use that assms(1) in blast)
  then show ?thesis using frame by blast
qed

end

lemma copier_plain: "deep_copier copy_plain (\<lambda>h a. a) (\<lambda>h a. {})"
  by unfold_locales (auto simp: copy_plain_def)

definition ptr_val :: "(('m, 'l) cell \<Rightarrow> 'a) \<Rightarrow> (('m, 'l) heap \<Rightarrow> 'a \<Rightarrow> 'v) \<Rightarrow> ('m, 'l) heap \<Rightarrow> addr option \<Rightarrow> 'v option" where
  "ptr_val un val h p = map_option (\<lambda>a. val h (un (cells h a))) p"

definition ptr_addrs :: "(('m, 'l) cell \<Rightarrow> 'a) \<Rightarrow> (('m, 'l) heap \<Rightarrow> 'a \<Rightarrow> addr set) \<Rightarrow> ('m, 'l) heap \<Rightarrow> addr option \<Rightarrow> addr set" where
  "ptr_addrs un addrs h p = (case p of None \<Rightarrow> {} | Some a \<Rightarrow> insert a (addrs h (un (cells h a))))"

lemma copier_new:
  fixes copy :: "('a, 'm, 'l) copier"
  assumes c: "deep_copier copy val addrs" and un: "\<And>x. un (mk x) = x"
  shows "deep_copier (new_copy mk un zero copy) (ptr_val un val) (ptr_addrs un addrs)"
proof
  fix h h' :: "('m, 'l) heap" and p
  assume same: "\<And>x. x \<in> ptr_addrs un addrs h p \<Longrightarrow> cells h' x = cells h x"
  show "ptr_val un val h' p = ptr_val un val h p \<and> ptr_addrs un addrs h' p = ptr_addrs un addrs h p"
  proof (cases p)
    case (Some a)
    then have "cells h' a = cells h a" "\<And>x. x \<in> addrs h (un (cells h a)) \<Longrightarrow> cells h' x = cells h x"
      using same by (simp_all add: ptr_addrs_def)
    then show ?thesis using Some deep_copier.frame [OF c, of h "un (cells h a)" h'] by (simp add: ptr_val_def ptr_addrs_def)
  qed (simp add: ptr_val_def ptr_addrs_def)
next
  fix h h' :: "('m, 'l) heap" and p q
  assume ok: "ptr_addrs un addrs h p \<subseteq> {..<lim h}" and run: "new_copy mk un zero copy p h = (q, h')"
  show "extends h h' \<and> ptr_val un val h' q = ptr_val un val h p \<and> ptr_addrs un addrs h' q \<subseteq> {lim h..<lim h'}"
  proof (cases p)
    case None
    then show ?thesis using run by (auto simp: new_copy_def ptr_val_def ptr_addrs_def)
  next
    case (Some a)
    define h1 where "h1 = snd (alloc (mk zero) h)"
    have a: "a < lim h" "addrs h (un (cells h a)) \<subseteq> {..<lim h}" using ok Some by (auto simp: ptr_addrs_def)
    have ext: "extends h h1" by (simp add: h1_def extends_alloc)
    have same: "cells h1 a = cells h a" using a by (simp add: h1_def)
    obtain v h2 where v: "copy (un (cells h1 a)) h1 = (v, h2)" by fastforce
    have q: "q = Some (lim h)" "h' = put (lim h) (mk v) h2"
      using run Some v by (simp_all add: new_copy_def h1_def case_prod_beta)
    note k = deep_copier.kept [OF c a(2) ext]
    note cp = deep_copier.copies [OF c k(3) [folded same] v]
    have h2: "lim h < lim h2" using cp by (auto simp: h1_def extends_def)
    have "cells h' x = cells h2 x" if "x \<in> addrs h2 v" for x
      using that cp q(2) by (auto simp: h1_def)
    note f = deep_copier.frame [OF c, of h2 v h', OF this]
    have "extends h h'" unfolding q(2) using ext cp by (blast intro: extends_put extends_trans)
    moreover have "ptr_val un val h' q = ptr_val un val h p"
      using f cp k(1) Some q un same by (simp add: ptr_val_def)
    moreover have "ptr_addrs un addrs h' q \<subseteq> {lim h..<lim h'}"
      using f cp q un h2 by (auto simp: ptr_addrs_def h1_def)
    ultimately show ?thesis by blast
  qed
qed

definition slice_val :: "(('m, 'l) cell \<Rightarrow> 'a list) \<Rightarrow> (('m, 'l) heap \<Rightarrow> 'a \<Rightarrow> 'v) \<Rightarrow> ('m, 'l) heap \<Rightarrow> slice option \<Rightarrow> 'v list option" where
  "slice_val un val h p = map_option (\<lambda>s. map (val h) (elements un h s)) p"

definition slice_addrs :: "(('m, 'l) cell \<Rightarrow> 'a list) \<Rightarrow> (('m, 'l) heap \<Rightarrow> 'a \<Rightarrow> addr set) \<Rightarrow> ('m, 'l) heap \<Rightarrow> slice option \<Rightarrow> addr set" where
  "slice_addrs un addrs h p =
     (case p of None \<Rightarrow> {} | Some s \<Rightarrow> insert (sl_base s) (\<Union>x \<in> set (elements un h s). addrs h x))"

text \<open>
  The loop: \<open>ds\<close> are the elements written so far, with the values \<open>vs\<close>; they reach only
  cells behind the array \<open>b\<close>, which is the first cell that is new with respect to \<open>h0\<close>.
\<close>

lemma copy_loop_run:
  fixes copy :: "('a, 'm, 'l) copier"
  assumes c: "deep_copier copy val addrs" and un: "\<And>x. un (mk x) = x"
  shows "extends h0 h \<Longrightarrow> lim h0 < lim h \<Longrightarrow> cells h (lim h0) = mk (ds @ rest) \<Longrightarrow> length rest = length xs \<Longrightarrow>
    \<forall>x \<in> set xs. addrs h0 x \<subseteq> {..<lim h0} \<Longrightarrow> map (val h) ds = vs \<Longrightarrow> \<forall>d \<in> set ds. addrs h d \<subseteq> {Suc (lim h0)..<lim h} \<Longrightarrow>
    h' = copy_loop mk un copy (lim h0) (length ds) xs h \<Longrightarrow>
    extends h0 h' \<and> lim h0 < lim h' \<and> (\<exists>zs. cells h' (lim h0) = mk zs \<and> map (val h') zs = vs @ map (val h0) xs \<and>
      (\<forall>z \<in> set zs. addrs h' z \<subseteq> {Suc (lim h0)..<lim h'}))"
proof (induction xs arbitrary: h ds rest vs)
  case Nil
  then show ?case by auto
next
  case (Cons x xs)
  let ?b = "lim h0"
  obtain r rest' where rest: "rest = r # rest'" using Cons.prems(4) by (cases rest) auto
  obtain y h1 where y: "copy x h = (y, h1)" by fastforce
  have x: "addrs h0 x \<subseteq> {..<?b}" using Cons.prems(5) by simp
  note kx = deep_copier.kept [OF c x Cons.prems(1)]
  note cp = deep_copier.copies [OF c kx(3) y]
  have ext: "extends h h1" and val_y: "val h1 y = val h0 x" and addrs_y: "addrs h1 y \<subseteq> {lim h..<lim h1}"
    using cp kx(1) by simp_all
  have lim1: "?b < lim h1" using ext Cons.prems(2) by (auto simp: extends_def)
  define h2 where "h2 = put ?b (mk (ds @ y # rest')) h1"
  have step: "copy_loop mk un copy ?b (length ds) (x # xs) h = copy_loop mk un copy ?b (length (ds @ [y])) xs h2"
    using y Cons.prems(2,3) ext rest un by (simp add: h2_def extends_def)
  have old: "val h1 d = val h d \<and> addrs h1 d = addrs h d" if "d \<in> set ds" for d
  proof -
    have "addrs h d \<subseteq> {..<lim h}" using that Cons.prems(7) by fastforce
    from deep_copier.kept [OF c this ext] show ?thesis by blast
  qed
  have behind: "val h2 d = val h1 d \<and> addrs h2 d = addrs h1 d" if "addrs h1 d \<subseteq> {Suc ?b..<lim h1}" for d
    by (rule deep_copier.frame [OF c]) (use that in \<open>auto simp: h2_def\<close>)
  have in1: "addrs h1 d \<subseteq> {Suc ?b..<lim h1}" if "d \<in> set (ds @ [y])" for d
    using that old Cons.prems(2,7) addrs_y ext by (fastforce simp: extends_def)
  have "extends h0 h2" unfolding h2_def using Cons.prems(1) ext by (blast intro: extends_put extends_trans)
  moreover have "?b < lim h2" using lim1 by (simp add: h2_def)
  moreover have "cells h2 ?b = mk ((ds @ [y]) @ rest')" by (simp add: h2_def)
  moreover have "map (val h2) (ds @ [y]) = vs @ [val h0 x]"
    using Cons.prems(6) behind [OF in1] old val_y by auto
  moreover have "\<forall>d \<in> set (ds @ [y]). addrs h2 d \<subseteq> {Suc ?b..<lim h2}"
    using behind [OF in1] in1 by (auto simp: h2_def)
  ultimately show ?case
    using Cons.IH [of h2 "ds @ [y]" rest' "vs @ [val h0 x]"] Cons.prems(4,5,8) rest step by simp
qed

lemma copier_slice:
  fixes copy :: "('a, 'm, 'l) copier"
  assumes c: "deep_copier copy val addrs" and un: "\<And>x. un (mk x) = x"
  shows "deep_copier (copy_slice mk un zero copy) (slice_val un val) (slice_addrs un addrs)"
proof
  fix h h' :: "('m, 'l) heap" and p
  assume same: "\<And>x. x \<in> slice_addrs un addrs h p \<Longrightarrow> cells h' x = cells h x"
  show "slice_val un val h' p = slice_val un val h p \<and> slice_addrs un addrs h' p = slice_addrs un addrs h p"
  proof (cases p)
    case (Some s)
    then have "cells h' (sl_base s) = cells h (sl_base s)" using same by (simp add: slice_addrs_def)
    then have el: "elements un h' s = elements un h s" by (simp add: elements_def)
    have "val h' x = val h x \<and> addrs h' x = addrs h x" if "x \<in> set (elements un h s)" for x
      by (rule deep_copier.frame [OF c]) (use that same Some in \<open>auto simp: slice_addrs_def\<close>)
    then show ?thesis using Some el by (simp add: slice_val_def slice_addrs_def)
  qed (simp add: slice_val_def slice_addrs_def)
next
  fix h h' :: "('m, 'l) heap" and p q
  assume ok: "slice_addrs un addrs h p \<subseteq> {..<lim h}" and run: "copy_slice mk un zero copy p h = (q, h')"
  show "extends h h' \<and> slice_val un val h' q = slice_val un val h p \<and> slice_addrs un addrs h' q \<subseteq> {lim h..<lim h'}"
  proof (cases p)
    case None
    then show ?thesis using run by (auto simp: copy_slice_def slice_val_def slice_addrs_def)
  next
    case (Some s)
    let ?xs = "elements un h s"
    define h1 where "h1 = snd (alloc (mk (replicate (length ?xs) zero)) h)"
    have q: "q = Some \<lparr>sl_base = lim h, sl_off = 0, sl_len = length ?xs\<rparr>" and h': "h' = copy_loop mk un copy (lim h) (length []) ?xs h1"
      using run Some by (simp_all add: copy_slice_def h1_def Let_def case_prod_beta)
    have "\<forall>x \<in> set ?xs. addrs h x \<subseteq> {..<lim h}" using ok Some by (auto simp: slice_addrs_def)
    then obtain zs where zs: "extends h h'" "lim h < lim h'" "cells h' (lim h) = mk zs" "map (val h') zs = map (val h) ?xs"
        "\<forall>z \<in> set zs. addrs h' z \<subseteq> {Suc (lim h)..<lim h'}"
      using copy_loop_run [OF c un, of h h1 "[]" "replicate (length ?xs) zero" ?xs "[]" h'] h'
      by (auto simp: h1_def extends_alloc)
    have "length zs = length ?xs" using zs(4) map_eq_imp_length_eq by blast
    then have "elements un h' \<lparr>sl_base = lim h, sl_off = 0, sl_len = length ?xs\<rparr> = zs"
      using zs(3) un by (simp add: elements_def)
    then show ?thesis using zs q Some by (auto simp: slice_val_def slice_addrs_def) (fastforce)+
  qed
qed

text \<open>Two copies in a row, and a struct as its reference fields and the rest.\<close>

definition pair_copy :: "('a, 'm, 'l) copier \<Rightarrow> ('b, 'm, 'l) copier \<Rightarrow> ('a \<times> 'b, 'm, 'l) copier" where
  "pair_copy c d x h = (let (a, h1) = c (fst x) h; (b, h2) = d (snd x) h1 in ((a, b), h2))"

lemma copier_pair:
  fixes c :: "('a, 'm, 'l) copier" and d :: "('b, 'm, 'l) copier"
  assumes c: "deep_copier c v1 a1" and d: "deep_copier d v2 a2"
  shows "deep_copier (pair_copy c d) (\<lambda>h x. (v1 h (fst x), v2 h (snd x))) (\<lambda>h x. a1 h (fst x) \<union> a2 h (snd x))"
proof
  fix h h' :: "('m, 'l) heap" and x :: "'a \<times> 'b"
  assume "\<And>y. y \<in> a1 h (fst x) \<union> a2 h (snd x) \<Longrightarrow> cells h' y = cells h y"
  then show "(v1 h' (fst x), v2 h' (snd x)) = (v1 h (fst x), v2 h (snd x)) \<and> a1 h' (fst x) \<union> a2 h' (snd x) = a1 h (fst x) \<union> a2 h (snd x)"
    using deep_copier.frame [OF c, of h "fst x" h'] deep_copier.frame [OF d, of h "snd x" h'] by blast
next
  fix h h' :: "('m, 'l) heap" and x y :: "'a \<times> 'b"
  assume ok: "a1 h (fst x) \<union> a2 h (snd x) \<subseteq> {..<lim h}" and run: "pair_copy c d x h = (y, h')"
  obtain h1 where c1: "c (fst x) h = (fst y, h1)" and d1: "d (snd x) h1 = (snd y, h')"
    using run by (auto simp: pair_copy_def Let_def split: prod.splits)
  have ok1: "a1 h (fst x) \<subseteq> {..<lim h}" and ok2: "a2 h (snd x) \<subseteq> {..<lim h}" using ok by simp_all
  note cp = deep_copier.copies [OF c ok1 c1]
  then have ext: "extends h h1" by blast
  note k = deep_copier.kept [OF d ok2 ext]
  note dp = deep_copier.copies [OF d k(3) d1]
  then have ext1: "extends h1 h'" by blast
  note l = deep_copier.copy_kept [OF c ok1 c1 ext1]
  show "extends h h' \<and> (v1 h' (fst y), v2 h' (snd y)) = (v1 h (fst x), v2 h (snd x)) \<and> a1 h' (fst y) \<union> a2 h' (snd y) \<subseteq> {lim h..<lim h'}"
    using l dp k(1) extends_lim [OF ext] by fastforce
qed

lemma copier_struct:
  fixes copy :: "('s, 'm, 'l) copier" and c :: "('f, 'm, 'l) copier"
  assumes c: "deep_copier c v ad"
    and copy: "\<And>s h. copy s h = (case c (get s) h of (t, h') \<Rightarrow> (set_fields t s, h'))"
    and fields: "\<And>s t. get (set_fields t s) = t" "\<And>s t. rest (set_fields t s) = rest s"
    and val: "\<And>h s. val h s = build (rest s) (v h (get s))" and addrs: "\<And>h s. addrs h s = ad h (get s)"
  shows "deep_copier copy val addrs"
proof
  show "val h' s = val h s \<and> addrs h' s = addrs h s" if "\<And>x. x \<in> addrs h s \<Longrightarrow> cells h' x = cells h x" for h h' s
    using deep_copier.frame [OF c, of h "get s" h'] that by (simp add: val addrs)
  show "extends h h' \<and> val h' u = val h s \<and> addrs h' u \<subseteq> {lim h..<lim h'}"
    if ok: "addrs h s \<subseteq> {..<lim h}" and run: "copy s h = (u, h')" for h h' s u
  proof -
    obtain t where t: "c (get s) h = (t, h')" "u = set_fields t s"
      using run by (auto simp: copy split: prod.splits)
    show ?thesis
      using deep_copier.copies [OF c _ t(1)] ok by (simp add: val addrs fields t(2))
  qed
qed

section \<open>Reading the types\<close>

abbreviation plain_val :: "('m, 'l) heap \<Rightarrow> 'a \<Rightarrow> 'a" where "plain_val \<equiv> \<lambda>_ a. a"
abbreviation plain_addrs :: "('m, 'l) heap \<Rightarrow> 'a \<Rightarrow> addr set" where "plain_addrs \<equiv> \<lambda>_ _. {}"

definition read_rule :: "('m, 'l) heap \<Rightarrow> rule_mem \<Rightarrow> rule_val" where
  "read_rule h r =
     \<lparr>rs_Path = ptr_val the_path plain_val h (rs_Path r), rs_Headers = slice_val the_headers plain_val h (rs_Headers r),
      rs_QueryParams = slice_val the_queries plain_val h (rs_QueryParams r),
      rs_Method = ptr_val the_string plain_val h (rs_Method r), rs_Response = rs_Response r\<rparr>"

definition reach_rule :: "('m, 'l) heap \<Rightarrow> rule_mem \<Rightarrow> addr set" where
  "reach_rule h r =
     ptr_addrs the_path plain_addrs h (rs_Path r) \<union> (slice_addrs the_headers plain_addrs h (rs_Headers r) \<union>
     (slice_addrs the_queries plain_addrs h (rs_QueryParams r) \<union> ptr_addrs the_string plain_addrs h (rs_Method r)))"

definition read_trigger :: "('m, 'l) heap \<Rightarrow> trigger_mem \<Rightarrow> trigger_val" where
  "read_trigger h t = \<lparr>ts_Type = ts_Type t, ts_Metadata = slice_val the_bytes plain_val h (ts_Metadata t)\<rparr>"

definition reach_trigger :: "('m, 'l) heap \<Rightarrow> trigger_mem \<Rightarrow> addr set" where
  "reach_trigger h t = slice_addrs the_bytes plain_addrs h (ts_Metadata t)"

definition read_spec :: "('m, 'l) heap \<Rightarrow> spec_mem \<Rightarrow> spec_val" where
  "read_spec h s =
     \<lparr>ss_ScaleTargetRef = ss_ScaleTargetRef s, ss_Service = ss_Service s,
      ss_ProbeResponse = slice_val the_rules read_rule h (ss_ProbeResponse s), ss_MinTargetReplicas = ss_MinTargetReplicas s,
      ss_CooldownPeriod = ss_CooldownPeriod s, ss_Triggers = slice_val the_triggers read_trigger h (ss_Triggers s),
      ss_Autoscaler = ptr_val the_autoscaler plain_val h (ss_Autoscaler s),
      ss_EnabledPeriod = ptr_val the_period plain_val h (ss_EnabledPeriod s)\<rparr>"

definition reach_spec :: "('m, 'l) heap \<Rightarrow> spec_mem \<Rightarrow> addr set" where
  "reach_spec h s =
     slice_addrs the_rules reach_rule h (ss_ProbeResponse s) \<union> (slice_addrs the_triggers reach_trigger h (ss_Triggers s) \<union>
     (ptr_addrs the_autoscaler plain_addrs h (ss_Autoscaler s) \<union> ptr_addrs the_period plain_addrs h (ss_EnabledPeriod s)))"

definition read_status :: "('m, 'l) heap \<Rightarrow> status_mem \<Rightarrow> status_val" where
  "read_status h s =
     \<lparr>st_LastReconciledTime = st_LastReconciledTime s, st_LastScaledUpTime = ptr_val the_time plain_val h (st_LastScaledUpTime s),
      st_Mode = st_Mode s\<rparr>"

definition reach_status :: "('m, 'l) heap \<Rightarrow> status_mem \<Rightarrow> addr set" where
  "reach_status h s = ptr_addrs the_time plain_addrs h (st_LastScaledUpTime s)"

definition read_es :: "(('m, 'l) heap \<Rightarrow> 'm \<Rightarrow> 'v) \<Rightarrow> ('m, 'l) heap \<Rightarrow> 'm es_mem \<Rightarrow> 'v es_val" where
  "read_es metaVal h es =
     \<lparr>eo_TypeMeta = eo_TypeMeta es, eo_ObjectMeta = metaVal h (eo_ObjectMeta es), eo_Spec = read_spec h (eo_Spec es),
      eo_Status = read_status h (eo_Status es)\<rparr>"

definition reach_es :: "(('m, 'l) heap \<Rightarrow> 'm \<Rightarrow> addr set) \<Rightarrow> ('m, 'l) heap \<Rightarrow> 'm es_mem \<Rightarrow> addr set" where
  "reach_es metaAddrs h es = metaAddrs h (eo_ObjectMeta es) \<union> (reach_spec h (eo_Spec es) \<union> reach_status h (eo_Status es))"

definition read_list ::
  "(('m, 'l) heap \<Rightarrow> 'm \<Rightarrow> 'v) \<Rightarrow> (('m, 'l) heap \<Rightarrow> 'l \<Rightarrow> 'k) \<Rightarrow> ('m, 'l) heap \<Rightarrow> 'l list_mem \<Rightarrow> ('v, 'k) list_val" where
  "read_list metaVal listVal h l =
     \<lparr>el_TypeMeta = el_TypeMeta l, el_ListMeta = listVal h (el_ListMeta l),
      el_Items = slice_val the_services (read_es metaVal) h (el_Items l)\<rparr>"

definition reach_list ::
  "(('m, 'l) heap \<Rightarrow> 'm \<Rightarrow> addr set) \<Rightarrow> (('m, 'l) heap \<Rightarrow> 'l \<Rightarrow> addr set) \<Rightarrow> ('m, 'l) heap \<Rightarrow> 'l list_mem \<Rightarrow> addr set" where
  "reach_list metaAddrs listAddrs h l =
     listAddrs h (el_ListMeta l) \<union> slice_addrs the_services (reach_es metaAddrs) h (el_Items l)"

lemmas plain_pointer = copier_new [OF copier_plain]
lemmas plain_slice = copier_slice [OF copier_plain]

lemmas copier_fields =
  plain_pointer [where mk = CPath and un = the_path and zero = "\<lparr>pm_Type = [], pm_Value = []\<rparr>", OF cell.sel(3)]
  plain_slice [where mk = CHeaders and un = the_headers and zero = "\<lparr>hm_Name = [], hm_Type = [], hm_Value = []\<rparr>", OF cell.sel(17)]
  plain_slice [where mk = CQueries and un = the_queries and zero = "\<lparr>qm_Name = [], qm_Type = [], qm_Value = []\<rparr>", OF cell.sel(18)]
  plain_pointer [where mk = CString and un = the_string and zero = "[]", OF cell.sel(1)]
  plain_slice [where mk = CBytes and un = the_bytes and zero = "CHR 0x00", OF cell.sel(16)]
  plain_pointer [where mk = CAutoscaler and un = the_autoscaler and zero = "\<lparr>as_Type = [], as_Name = []\<rparr>", OF cell.sel(8)]
  plain_pointer [where mk = CPeriod and un = the_period and zero = "\<lparr>ep_Schedule = [], ep_Duration = []\<rparr>", OF cell.sel(9)]
  plain_pointer [where mk = CTime and un = the_time and zero = 0, OF cell.sel(2)]

interpretation dc_rule: deep_copier rule_DeepCopyInto read_rule reach_rule
  by (rule copier_struct [where get = "\<lambda>r. (rs_Path r, rs_Headers r, rs_QueryParams r, rs_Method r)" and rest = rs_Response
        and set_fields = "\<lambda>(p, hs, qs, m) r. r\<lparr>rs_Path := p, rs_Headers := hs, rs_QueryParams := qs, rs_Method := m\<rparr>"
        and build = "\<lambda>resp (p, hs, qs, m). \<lparr>rs_Path = p, rs_Headers = hs, rs_QueryParams = qs, rs_Method = m, rs_Response = resp\<rparr>",
        OF copier_pair [OF copier_fields(1) copier_pair [OF copier_fields(2) copier_pair [OF copier_fields(3,4)]]]])
    (auto simp: rule_DeepCopyInto_def read_rule_def reach_rule_def pair_copy_def Let_def split: prod.splits)

interpretation dc_trigger: deep_copier trigger_DeepCopyInto read_trigger reach_trigger
  by (rule copier_struct [where get = ts_Metadata and rest = ts_Type and set_fields = "\<lambda>m t. t\<lparr>ts_Metadata := m\<rparr>"
        and build = "\<lambda>ty m. \<lparr>ts_Type = ty, ts_Metadata = m\<rparr>", OF copier_fields(5)])
    (auto simp: trigger_DeepCopyInto_def read_trigger_def reach_trigger_def)

interpretation dc_spec: deep_copier spec_DeepCopyInto read_spec reach_spec
  by (rule copier_struct [where get = "\<lambda>s. (ss_ProbeResponse s, ss_Triggers s, ss_Autoscaler s, ss_EnabledPeriod s)"
        and rest = "\<lambda>s. (ss_ScaleTargetRef s, ss_Service s, ss_MinTargetReplicas s, ss_CooldownPeriod s)"
        and set_fields = "\<lambda>(rs, ts, a, e) s. s\<lparr>ss_ProbeResponse := rs, ss_Triggers := ts, ss_Autoscaler := a, ss_EnabledPeriod := e\<rparr>"
        and build = "\<lambda>(ref, svc, mi, co) (rs, ts, a, e). \<lparr>ss_ScaleTargetRef = ref, ss_Service = svc, ss_ProbeResponse = rs,
          ss_MinTargetReplicas = mi, ss_CooldownPeriod = co, ss_Triggers = ts, ss_Autoscaler = a, ss_EnabledPeriod = e\<rparr>",
        OF copier_pair [OF copier_slice [where mk = CRules and zero = zero_rule_mem, OF dc_rule.deep_copier_axioms cell.sel(19)]
           copier_pair [OF copier_slice [where mk = CTriggers and zero = zero_trigger_mem, OF dc_trigger.deep_copier_axioms cell.sel(20)]
             copier_pair [OF copier_fields(6,7)]]]])
    (auto simp: spec_DeepCopyInto_def read_spec_def reach_spec_def pair_copy_def Let_def split: prod.splits)

interpretation dc_status: deep_copier status_DeepCopyInto read_status reach_status
  by (rule copier_struct [where get = st_LastScaledUpTime and rest = "\<lambda>s. (st_LastReconciledTime s, st_Mode s)"
        and set_fields = "\<lambda>t s. s\<lparr>st_LastScaledUpTime := t\<rparr>"
        and build = "\<lambda>(r, m) t. \<lparr>st_LastReconciledTime = r, st_LastScaledUpTime = t, st_Mode = m\<rparr>", OF copier_fields(8)])
    (auto simp: status_DeepCopyInto_def read_status_def reach_status_def)

lemma copier_es:
  assumes "deep_copier metaCopy metaVal metaAddrs"
  shows "deep_copier (es_DeepCopyInto metaCopy) (read_es metaVal) (reach_es metaAddrs)"
  by (rule copier_struct [where get = "\<lambda>e. (eo_ObjectMeta e, eo_Spec e, eo_Status e)" and rest = eo_TypeMeta
        and set_fields = "\<lambda>(m, s, t) e. e\<lparr>eo_ObjectMeta := m, eo_Spec := s, eo_Status := t\<rparr>"
        and build = "\<lambda>ty (m, s, t). \<lparr>eo_TypeMeta = ty, eo_ObjectMeta = m, eo_Spec = s, eo_Status = t\<rparr>",
        OF copier_pair [OF assms copier_pair [OF dc_spec.deep_copier_axioms dc_status.deep_copier_axioms]]])
    (auto simp: es_DeepCopyInto_def read_es_def reach_es_def pair_copy_def Let_def split: prod.splits)

lemma copier_list:
  assumes "deep_copier metaCopy metaVal metaAddrs" and "deep_copier listMetaCopy listVal listAddrs"
  shows "deep_copier (list_DeepCopyInto zeroMeta metaCopy listMetaCopy) (read_list metaVal listVal) (reach_list metaAddrs listAddrs)"
  by (rule copier_struct [where get = "\<lambda>l. (el_ListMeta l, el_Items l)" and rest = el_TypeMeta
        and set_fields = "\<lambda>(m, i) l. l\<lparr>el_ListMeta := m, el_Items := i\<rparr>"
        and build = "\<lambda>ty (m, i). \<lparr>el_TypeMeta = ty, el_ListMeta = m, el_Items = i\<rparr>",
        OF copier_pair [OF assms(2) copier_slice [where mk = CServices and zero = "zero_es_mem zeroMeta", OF copier_es [OF assms(1)] cell.sel(21)]]])
    (auto simp: list_DeepCopyInto_def read_list_def reach_list_def pair_copy_def Let_def split: prod.splits)

section \<open>The copies of pointers\<close>

lemma plain_DeepCopy:
  "deep_copier autoscaler_DeepCopy (ptr_val the_autoscaler plain_val) (ptr_addrs the_autoscaler plain_addrs)"
  "deep_copier period_DeepCopy (ptr_val the_period plain_val) (ptr_addrs the_period plain_addrs)"
  "deep_copier response_DeepCopy (ptr_val the_response plain_val) (ptr_addrs the_response plain_addrs)"
  "deep_copier header_DeepCopy (ptr_val the_header plain_val) (ptr_addrs the_header plain_addrs)"
  "deep_copier path_DeepCopy (ptr_val the_path plain_val) (ptr_addrs the_path plain_addrs)"
  "deep_copier query_DeepCopy (ptr_val the_query plain_val) (ptr_addrs the_query plain_addrs)"
  "deep_copier ref_DeepCopy (ptr_val the_ref plain_val) (ptr_addrs the_ref plain_addrs)"
  unfolding autoscaler_DeepCopy_def period_DeepCopy_def response_DeepCopy_def header_DeepCopy_def path_DeepCopy_def query_DeepCopy_def
    ref_DeepCopy_def autoscaler_DeepCopyInto_def period_DeepCopyInto_def response_DeepCopyInto_def header_DeepCopyInto_def
    path_DeepCopyInto_def query_DeepCopyInto_def ref_DeepCopyInto_def
  by (rule plain_pointer, rule cell.sel)+

lemma struct_DeepCopy:
  "deep_copier rule_DeepCopy (ptr_val the_rule read_rule) (ptr_addrs the_rule reach_rule)"
  "deep_copier trigger_DeepCopy (ptr_val the_trigger read_trigger) (ptr_addrs the_trigger reach_trigger)"
  "deep_copier spec_DeepCopy (ptr_val the_spec read_spec) (ptr_addrs the_spec reach_spec)"
  "deep_copier status_DeepCopy (ptr_val the_status read_status) (ptr_addrs the_status reach_status)"
  unfolding rule_DeepCopy_def trigger_DeepCopy_def spec_DeepCopy_def status_DeepCopy_def
  by (intro copier_new dc_rule.deep_copier_axioms dc_trigger.deep_copier_axioms dc_spec.deep_copier_axioms
      dc_status.deep_copier_axioms cell.sel)+

abbreviation read_service :: "(('m, 'l) heap \<Rightarrow> 'm \<Rightarrow> 'v) \<Rightarrow> ('m, 'l) heap \<Rightarrow> addr option \<Rightarrow> 'v es_val option" where
  "read_service metaVal \<equiv> ptr_val the_service (read_es metaVal)"

abbreviation reach_service :: "(('m, 'l) heap \<Rightarrow> 'm \<Rightarrow> addr set) \<Rightarrow> ('m, 'l) heap \<Rightarrow> addr option \<Rightarrow> addr set" where
  "reach_service metaAddrs \<equiv> ptr_addrs the_service (reach_es metaAddrs)"

lemma copier_service:
  assumes "deep_copier metaCopy metaVal metaAddrs"
  shows "deep_copier (es_DeepCopyObject zeroMeta metaCopy) (read_service metaVal) (reach_service metaAddrs)"
proof -
  have "es_DeepCopyObject zeroMeta metaCopy = new_copy CService the_service (zero_es_mem zeroMeta) (es_DeepCopyInto metaCopy)"
    by (intro ext) (simp add: es_DeepCopyObject_def es_DeepCopy_def split: prod.split option.split)
  then show ?thesis using copier_new [OF copier_es [OF assms] cell.sel(14)] by simp
qed

lemma copier_services:
  assumes "deep_copier metaCopy metaVal metaAddrs" and "deep_copier listMetaCopy listVal listAddrs"
  shows "deep_copier (list_DeepCopyObject zeroMeta zeroListMeta metaCopy listMetaCopy)
    (ptr_val the_list (read_list metaVal listVal)) (ptr_addrs the_list (reach_list metaAddrs listAddrs))"
proof -
  have "list_DeepCopyObject zeroMeta zeroListMeta metaCopy listMetaCopy = list_DeepCopy zeroMeta zeroListMeta metaCopy listMetaCopy"
    by (intro ext) (simp add: list_DeepCopyObject_def split: prod.split option.split)
  then show ?thesis
    unfolding list_DeepCopy_def using copier_new [OF copier_list [OF assms] cell.sel(15)] by simp
qed

text \<open>
  C18: a deep copy of an ElastiService has the value of the original and shares nothing with it. If
  the copy of the metadata does, then whatever is later written to cells the copy reaches leaves
  the value of the original as it was, and whatever is written to cells of the original leaves the
  copy as it was. A nil pointer is copied to nil.
\<close>

theorem deep_copy_independent:
  assumes "deep_copier metaCopy metaVal metaAddrs" and "reach_service metaAddrs h p \<subseteq> {..<lim h}"
    and "es_DeepCopyObject zeroMeta metaCopy p h = (q, h')"
  shows "(q = None \<longleftrightarrow> p = None) \<and> read_service metaVal h' q = read_service metaVal h p \<and>
    (\<forall>h2. (\<forall>x. x \<notin> reach_service metaAddrs h' q \<longrightarrow> cells h2 x = cells h' x) \<longrightarrow>
       read_service metaVal h2 p = read_service metaVal h p) \<and>
    (\<forall>h2. (\<forall>x. x \<notin> reach_service metaAddrs h' p \<longrightarrow> cells h2 x = cells h' x) \<longrightarrow>
       read_service metaVal h2 q = read_service metaVal h p)"
proof -
  note c = copier_service [OF assms(1)]
  note apart = deep_copier.apart [OF c assms(2,3)]
  have "(q = None) = (p = None)"
    using apart(1) by (auto simp: ptr_val_def dest: arg_cong [of _ _ "\<lambda>x. x = None"])
  moreover have "read_service metaVal h2 p = read_service metaVal h p"
    if "\<forall>x. x \<notin> reach_service metaAddrs h' q \<longrightarrow> cells h2 x = cells h' x" for h2
    using deep_copier.changed_elsewhere [OF c apart(3)] that apart(2) by simp
  moreover have "read_service metaVal h2 q = read_service metaVal h p"
    if "\<forall>x. x \<notin> reach_service metaAddrs h' p \<longrightarrow> cells h2 x = cells h' x" for h2
    using deep_copier.changed_elsewhere [OF c, of h' q "reach_service metaAddrs h' p" h2] apart(1,3) that by (simp add: Int_commute)
  ultimately show ?thesis using apart(1) by blast
qed

text \<open>An ElastiService with one rule, whose metadata is a plain name, and a write to the rules of its copy.\<close>

definition sample_heap :: "(string, unit) heap" where
  "sample_heap =
     \<lparr>cells = (\<lambda>_. CString [])
        (0 := CService ((zero_es_mem ''web-es'')\<lparr>eo_Spec := zero_spec_mem\<lparr>ss_ProbeResponse := Some \<lparr>sl_base = 1, sl_off = 0, sl_len = 1\<rparr>\<rparr>\<rparr>),
         1 := CRules [zero_rule_mem\<lparr>rs_Path := Some 2\<rparr>], 2 := CPath \<lparr>pm_Type = ''Exact'', pm_Value = ''/healthz''\<rparr>), lim = 3\<rparr>"

theorem deep_copy_independent_witness:
  "\<exists>q h'. es_DeepCopyObject ''zero'' copy_plain (Some 0) sample_heap = (Some q, h') \<and>
     read_service plain_val (put q (CString []) h') (Some 0) = read_service plain_val sample_heap (Some 0)"
proof -
  obtain q h' where run: "es_DeepCopyObject ''zero'' copy_plain (Some 0) sample_heap = (q, h')" by fastforce
  have "reach_service plain_addrs sample_heap (Some 0) \<subseteq> {..<lim sample_heap}"
    by (auto simp: sample_heap_def ptr_addrs_def reach_es_def reach_spec_def reach_status_def slice_addrs_def elements_def
        reach_rule_def zero_es_mem_def zero_spec_mem_def zero_status_mem_def zero_rule_mem_def)
  note indep = deep_copy_independent [OF copier_plain this run]
  then obtain b where q: "q = Some b" by auto
  then have "\<forall>x. x \<notin> reach_service plain_addrs h' q \<longrightarrow> cells (put b (CString []) h') x = cells h' x"
    by (auto simp: ptr_addrs_def put_def)
  then have "read_service plain_val (put b (CString []) h') (Some 0) = read_service plain_val sample_heap (Some 0)"
    using indep by blast
  then show ?thesis using run q by blast
qed

end
