(* ===== verification/Keyed_Locks.thy ===== *)
theory Keyed_Locks
  imports Packages
begin

text \<open>
  The keyed mutexes of the operator: \<^verbatim>\<open>getMutexForReconcile\<close>
  (\<^verbatim>\<open>src/operator/internal/controller/elastiservice_controller.go\<close>), \<^verbatim>\<open>getMutexForSwitchMode\<close>
  (\<^verbatim>\<open>opsModes.go\<close>) and \<^verbatim>\<open>getMutexForScale\<close> (\<^verbatim>\<open>src/pkg/scaling/scale_handler.go\<close>), and the
  order in which the operations take them. The theorems justify that the models of
  \<^verbatim>\<open>Reconcile\<close>, \<^verbatim>\<open>switchMode\<close> and \<^verbatim>\<open>Scale\<close> are sequential for one object: bodies under the
  same key exclude each other, and the nesting of the locks cannot deadlock.
\<close>

section \<open>The tables of mutexes\<close>

datatype lock_table = ReconcileLocks | SwitchModeLocks | ScaleLocks

datatype lock = Lock (table_of: lock_table) (key_of: string)

text \<open>A mutex is known by its number; \<open>locked\<close> are those that are locked.\<close>

record lock_st =
  tables :: "lock_table \<Rightarrow> (string, nat) sync_map"
  next_mutex :: nat
  locked :: "nat set"

text \<open>\<^verbatim>\<open>LoadOrStore(key, &sync.Mutex{})\<close>: the argument is allocated also when it is not stored.\<close>

definition load_or_new :: "lock_table \<Rightarrow> string \<Rightarrow> lock_st \<Rightarrow> nat \<times> lock_st" where
  "load_or_new t key s =
     (let ((m, _), table) = LoadOrStore (tables s t) key (next_mutex s)
      in (m, s\<lparr>tables := (tables s)(t := table), next_mutex := Suc (next_mutex s)\<rparr>))"

definition getMutexForReconcile :: "string \<Rightarrow> lock_st \<Rightarrow> nat \<times> lock_st" where
  "getMutexForReconcile = load_or_new ReconcileLocks"

definition getMutexForSwitchMode :: "string \<Rightarrow> lock_st \<Rightarrow> nat \<times> lock_st" where
  "getMutexForSwitchMode = load_or_new SwitchModeLocks"

definition getMutexForScale :: "string \<Rightarrow> lock_st \<Rightarrow> nat \<times> lock_st" where
  "getMutexForScale = load_or_new ScaleLocks"

fun get_mutex :: "lock \<Rightarrow> lock_st \<Rightarrow> nat \<times> lock_st" where
  "get_mutex (Lock ReconcileLocks key) = getMutexForReconcile key"
| "get_mutex (Lock SwitchModeLocks key) = getMutexForSwitchMode key"
| "get_mutex (Lock ScaleLocks key) = getMutexForScale key"

section \<open>Who takes which lock\<close>

text \<open>
  A reconcile takes the lock of its request, and that of the target while it restores the target of
  a deleted ElastiService; \<^verbatim>\<open>switchMode\<close> runs in the event handlers of the informers and takes
  its own lock only; \<^verbatim>\<open>Scale\<close> is called by the scale handler and by the HTTP server.
\<close>

definition scale_key :: "string \<Rightarrow> string \<Rightarrow> string \<Rightarrow> string" where
  "scale_key namespace kind targetName = namespace @ ''/'' @ kind @ ''/'' @ targetName"

datatype task =
    ReconcileTask nsname
  | FinalizeTask nsname string string string
  | SwitchModeTask nsname
  | ScaleTask string string string

fun task_locks :: "task \<Rightarrow> lock list" where
  "task_locks (ReconcileTask req) = [Lock ReconcileLocks (nn_string req)]"
| "task_locks (FinalizeTask req ns kind name) = [Lock ReconcileLocks (nn_string req), Lock ScaleLocks (scale_key ns kind name)]"
| "task_locks (SwitchModeTask req) = [Lock SwitchModeLocks (nn_string req)]"
| "task_locks (ScaleTask ns kind name) = [Lock ScaleLocks (scale_key ns kind name)]"

text \<open>
  A goroutine: the locks it holds, the last one first; the mutex it has got from the table and is
  about to lock; and the locks it has still to take, that one included. The deferred unlocks run
  when there are none left.
\<close>

datatype goroutine_st = Running (holds: "(lock \<times> nat) list") (got: "nat option") (todo: "lock list")

abbreviation idle :: goroutine_st where "idle \<equiv> Running [] None []"

type_synonym lock_sys = "lock_st \<times> (nat \<Rightarrow> goroutine_st)"

inductive advance :: "nat \<Rightarrow> lock_sys \<Rightarrow> lock_sys \<Rightarrow> bool" for i where
  fetch: "gs i = Running hs None (l # ls) \<Longrightarrow> get_mutex l s = (m, s') \<Longrightarrow>
    advance i (s, gs) (s', gs(i := Running hs (Some m) (l # ls)))"
| lock: "gs i = Running hs (Some m) (l # ls) \<Longrightarrow> m \<notin> locked s \<Longrightarrow>
    advance i (s, gs) (s\<lparr>locked := insert m (locked s)\<rparr>, gs(i := Running ((l, m) # hs) None ls))"
| unlock: "gs i = Running ((l, m) # hs) None [] \<Longrightarrow>
    advance i (s, gs) (s\<lparr>locked := locked s - {m}\<rparr>, gs(i := Running hs None []))"

inductive lock_step :: "lock_sys \<Rightarrow> lock_sys \<Rightarrow> bool" where
  start: "gs i = idle \<Longrightarrow> lock_step (s, gs) (s, gs(i := Running [] None (task_locks t)))"
| advance: "advance i st st' \<Longrightarrow> lock_step st st'"

definition lock_init :: "lock_sys \<Rightarrow> bool" where
  "lock_init st \<longleftrightarrow> (\<forall>t. tables (fst st) t = sm_empty) \<and> locked (fst st) = {} \<and> (\<forall>i. snd st i = idle)"

inductive_cases advanceE: "advance i st st'"

section \<open>Invariant\<close>

primrec rank :: "lock_table \<Rightarrow> nat" where
  "rank ReconcileLocks = 0"
| "rank SwitchModeLocks = 1"
| "rank ScaleLocks = 2"

definition entry_of :: "lock_st \<Rightarrow> lock \<Rightarrow> nat option" where
  "entry_of s l = Load (tables s (table_of l)) (key_of l)"

text \<open>The tables: every mutex is under one key of one table.\<close>

definition tables_ok :: "lock_st \<Rightarrow> bool" where
  "tables_ok s \<longleftrightarrow>
     (\<forall>l m. entry_of s l = Some m \<longrightarrow> m < next_mutex s) \<and>
     (\<forall>l l' m. entry_of s l = Some m \<longrightarrow> entry_of s l' = Some m \<longrightarrow> l = l')"

text \<open>A goroutine: what it holds and has got are the mutexes of the tables, in the order of the ranks.\<close>

definition goroutine_ok :: "lock_st \<Rightarrow> goroutine_st \<Rightarrow> bool" where
  "goroutine_ok s g \<longleftrightarrow>
     (\<forall>(l, m) \<in> set (holds g). entry_of s l = Some m \<and> m \<in> locked s) \<and>
     (\<forall>m. got g = Some m \<longrightarrow> (\<exists>l ls. todo g = l # ls \<and> entry_of s l = Some m)) \<and>
     sorted_wrt (<) (map rank (rev (map (table_of \<circ> fst) (holds g)) @ map table_of (todo g)))"

definition lock_inv :: "lock_sys \<Rightarrow> bool" where
  "lock_inv st \<longleftrightarrow>
     tables_ok (fst st) \<and> (\<forall>i. goroutine_ok (fst st) (snd st i)) \<and>
     (\<forall>m \<in> locked (fst st). \<exists>i l. (l, m) \<in> set (holds (snd st i))) \<and>
     (\<forall>i j l l' m. (l, m) \<in> set (holds (snd st i)) \<longrightarrow> (l', m) \<in> set (holds (snd st j)) \<longrightarrow> i = j)"

lemma load_or_new_cases:
  assumes "load_or_new t key s = (m, s')"
  obtains (old) "entry_of s (Lock t key) = Some m" and "s' = s\<lparr>tables := (tables s)(t := tables s t), next_mutex := Suc (next_mutex s)\<rparr>"
  | (fresh) "entry_of s (Lock t key) = None" and "m = next_mutex s"
      and "s' = s\<lparr>tables := (tables s)(t := Store (tables s t) key m), next_mutex := Suc (next_mutex s)\<rparr>"
proof (cases "Load (tables s t) key")
  case None
  then show ?thesis using assms by (intro fresh) (auto simp: load_or_new_def LoadOrStore_def entry_of_def)
next
  case (Some n)
  then show ?thesis using assms by (intro old) (auto simp: load_or_new_def LoadOrStore_def entry_of_def)
qed

lemma load_or_new_entry:
  assumes "load_or_new t key s = (m, s')" and "tables_ok s"
  shows "(\<forall>l. entry_of s' l = (if l = Lock t key then Some m else entry_of s l)) \<and> tables_ok s' \<and> locked s' = locked s \<and>
    (entry_of s (Lock t key) \<noteq> None \<longrightarrow> entry_of s (Lock t key) = Some m)"
  using assms(1)
proof (cases rule: load_or_new_cases)
  case old
  have same: "entry_of s' k = entry_of s k" for k by (simp add: old(2) entry_of_def)
  have "tables_ok s'" using assms(2) unfolding tables_ok_def same by (simp add: old(2)) (blast intro: less_SucI)
  then show ?thesis using same old(1) by (simp add: old(2))
next
  case fresh
  have at: "entry_of s' k = (if k = Lock t key then Some (next_mutex s) else entry_of s k)" for k
    by (cases k) (simp add: fresh entry_of_def)
  have succ: "next_mutex s' = Suc (next_mutex s)" by (simp add: fresh(3))
  have below: "n < next_mutex s" if "entry_of s k = Some n" for k n using assms(2) that unfolding tables_ok_def by blast
  have inj: "k = k'" if "entry_of s k = Some n" "entry_of s k' = Some n" for k k' n
    using assms(2) that unfolding tables_ok_def by blast
  have "tables_ok s'"
    unfolding tables_ok_def
  proof (intro conjI allI impI)
    show "n < next_mutex s'" if "entry_of s' k = Some n" for k n
      using that below [of k n] by (cases "k = Lock t key") (simp_all add: at succ)
    show "k = k'" if "entry_of s' k = Some n" "entry_of s' k' = Some n" for k k' n
      using that below [of k n] below [of k' n] inj [of k n k'] by (cases "k = Lock t key"; cases "k' = Lock t key") (simp_all add: at)
  qed
  then show ?thesis using at fresh(1,2) by (simp add: fresh(3))
qed

lemma get_mutex_load: "get_mutex l = load_or_new (table_of l) (key_of l)"
  by (cases l rule: get_mutex.cases) (simp_all add: getMutexForReconcile_def getMutexForSwitchMode_def getMutexForScale_def)

lemma get_mutex_entry:
  assumes "get_mutex l s = (m, s')" and "tables_ok s"
  shows "entry_of s' l = Some m" and "entry_of s k = Some n \<Longrightarrow> entry_of s' k = Some n"
    and "tables_ok s'" and "locked s' = locked s"
proof -
  have run: "load_or_new (table_of l) (key_of l) s = (m, s')" using assms(1) by (simp add: get_mutex_load)
  note e = load_or_new_entry [OF run assms(2)]
  then show "entry_of s' l = Some m" "tables_ok s'" "locked s' = locked s" by simp_all
  show "entry_of s' k = Some n" if "entry_of s k = Some n" using that e by (cases "k = l") auto
qed

text \<open>A goroutine is not disturbed by a step of another one.\<close>

lemma goroutine_ok_mono:
  assumes "goroutine_ok s g" and "\<And>l n. entry_of s l = Some n \<Longrightarrow> entry_of s' l = Some n"
    and "\<And>l m. (l, m) \<in> set (holds g) \<Longrightarrow> m \<in> locked s \<Longrightarrow> m \<in> locked s'"
  shows "goroutine_ok s' g"
  unfolding goroutine_ok_def
proof (intro conjI allI impI)
  show "\<forall>(l, m) \<in> set (holds g). entry_of s' l = Some m \<and> m \<in> locked s'"
    using assms(1) by (auto simp: goroutine_ok_def intro: assms(2,3))
  show "\<exists>l ls. todo g = l # ls \<and> entry_of s' l = Some m" if "got g = Some m" for m
    using assms(1) that by (auto simp: goroutine_ok_def intro: assms(2))
  show "sorted_wrt (<) (map rank (rev (map (table_of \<circ> fst) (holds g)) @ map table_of (todo g)))"
    using assms(1) by (simp add: goroutine_ok_def)
qed

lemma task_locks_sorted: "sorted_wrt (<) (map rank (map table_of (task_locks t)))"
  by (cases t) simp_all

lemma lock_inv_init: "lock_init st \<Longrightarrow> lock_inv st"
  by (simp add: lock_init_def lock_inv_def tables_ok_def goroutine_ok_def entry_of_def)

lemma lock_invD:
  assumes "lock_inv (s, gs)"
  shows "tables_ok s" and "goroutine_ok s (gs i)" and "m \<in> locked s \<Longrightarrow> \<exists>i l. (l, m) \<in> set (holds (gs i))"
    and "(l, m) \<in> set (holds (gs i)) \<Longrightarrow> (l', m) \<in> set (holds (gs j)) \<Longrightarrow> i = j"
    and "(l, m) \<in> set (holds (gs i)) \<Longrightarrow> entry_of s l = Some m" and "(l, m) \<in> set (holds (gs i)) \<Longrightarrow> m \<in> locked s"
    and "gs i = Running hs (Some m) (l # ls) \<Longrightarrow> entry_of s l = Some m"
proof -
  have ok: "tables_ok s" "goroutine_ok s (gs j)" for j using assms by (simp_all add: lock_inv_def)
  show "tables_ok s" "goroutine_ok s (gs i)" by (rule ok)+
  show "m \<in> locked s \<Longrightarrow> \<exists>i l. (l, m) \<in> set (holds (gs i))" using assms by (simp add: lock_inv_def)
  show "(l, m) \<in> set (holds (gs i)) \<Longrightarrow> (l', m) \<in> set (holds (gs j)) \<Longrightarrow> i = j"
    using assms unfolding lock_inv_def by simp
  show "(l, m) \<in> set (holds (gs i)) \<Longrightarrow> entry_of s l = Some m" "(l, m) \<in> set (holds (gs i)) \<Longrightarrow> m \<in> locked s"
    using ok(2) [of i] by (auto simp: goroutine_ok_def)
  show "gs i = Running hs (Some m) (l # ls) \<Longrightarrow> entry_of s l = Some m"
    using ok(2) [of i] by (auto simp: goroutine_ok_def)
qed

lemma lock_invI:
  assumes "tables_ok s" and "\<And>j. goroutine_ok s (gs j)" and "\<And>m. m \<in> locked s \<Longrightarrow> \<exists>i l. (l, m) \<in> set (holds (gs i))"
    and "\<And>i j l l' m. (l, m) \<in> set (holds (gs i)) \<Longrightarrow> (l', m) \<in> set (holds (gs j)) \<Longrightarrow> i = j"
  shows "lock_inv (s, gs)"
  using assms unfolding lock_inv_def by simp

lemma fetch_inv:
  assumes inv: "lock_inv (s, gs)" and i: "gs i = Running hs None (l # ls)" and get: "get_mutex l s = (m, s')"
  shows "lock_inv (s', gs(i := Running hs (Some m) (l # ls)))" (is "lock_inv (s', ?gs)")
proof (rule lock_invI)
  note e = get_mutex_entry [OF get lock_invD(1) [OF inv]]
  have holds: "holds (?gs j) = holds (gs j)" for j using i by simp
  show "tables_ok s'" by (rule e)
  have mono: "goroutine_ok s' (gs j)" for j
    using lock_invD(2) [OF inv, of j] by (rule goroutine_ok_mono) (use e in auto)
  show "goroutine_ok s' (?gs j)" for j
    using mono [of j] i e(1) by (auto simp: goroutine_ok_def)
  show "\<exists>i l. (l, m) \<in> set (holds (?gs i))" if "m \<in> locked s'" for m
    using that lock_invD(3) [OF inv, of m] unfolding holds e(4) by blast
  show "a = b" if "(k, m) \<in> set (holds (?gs a))" "(k', m) \<in> set (holds (?gs b))" for a b k k' m
    using that unfolding holds by (rule lock_invD(4) [OF inv])
qed

lemma lock_inv_lock:
  assumes inv: "lock_inv (s, gs)" and i: "gs i = Running hs (Some m) (l # ls)" and free: "m \<notin> locked s"
  shows "lock_inv (s\<lparr>locked := insert m (locked s)\<rparr>, gs(i := Running ((l, m) # hs) None ls))" (is "lock_inv (?s, ?gs)")
proof (rule lock_invI)
  have same: "entry_of ?s k = entry_of s k" for k by (simp add: entry_of_def)
  show "tables_ok ?s" using lock_invD(1) [OF inv] by (simp add: tables_ok_def same)
  have mono: "goroutine_ok ?s (gs j)" for j
    using lock_invD(2) [OF inv, of j] by (rule goroutine_ok_mono) (auto simp: same)
  show "goroutine_ok ?s (?gs j)" for j
    using mono [of j] mono [of i] i lock_invD(7) [OF inv i] by (auto simp: goroutine_ok_def same)
  have holds: "set (holds (?gs j)) = (if j = i then insert (l, m) (set (holds (gs j))) else set (holds (gs j)))" for j
    using i by simp
  show "\<exists>j k. (k, n) \<in> set (holds (?gs j))" if n: "n \<in> locked ?s" for n
  proof (cases "n = m")
    case True
    then show ?thesis unfolding holds by (intro exI [of _ i] exI [of _ l]) simp
  next
    case False
    then obtain j k where "(k, n) \<in> set (holds (gs j))" using n lock_invD(3) [OF inv, of n] by auto
    then show ?thesis unfolding holds by (intro exI [of _ j] exI [of _ k]) auto
  qed
  have "n \<noteq> m" if "(k, n) \<in> set (holds (gs j))" for k n j
    using lock_invD(6) [OF inv that] free by blast
  then show "a = b" if "(k, n) \<in> set (holds (?gs a))" "(k', n) \<in> set (holds (?gs b))" for a b k k' n
    using that lock_invD(4) [OF inv, of k n a k' b] unfolding holds by (auto split: if_splits)
qed

lemma lock_inv_unlock:
  assumes inv: "lock_inv (s, gs)" and i: "gs i = Running ((l, m) # hs) None []"
  shows "lock_inv (s\<lparr>locked := locked s - {m}\<rparr>, gs(i := Running hs None []))" (is "lock_inv (?s, ?gs)")
proof (rule lock_invI)
  have same: "entry_of ?s k = entry_of s k" for k by (simp add: entry_of_def)
  have held: "(l, m) \<in> set (holds (gs i))" using i by simp
  show "tables_ok ?s" using lock_invD(1) [OF inv] by (simp add: tables_ok_def same)
  have sorted: "rank (table_of k) < rank (table_of l)" if "(k, n) \<in> set hs" for k n
    using lock_invD(2) [OF inv, of i] i that by (force simp: goroutine_ok_def sorted_wrt_append)
  have rest: "n \<noteq> m" if "(k, n) \<in> set hs" for k n
  proof
    assume "n = m"
    then have "entry_of s k = Some m" "entry_of s l = Some m"
      using lock_invD(5) [OF inv, of k n i] lock_invD(5) [OF inv held] that i by simp_all
    then have "k = l" using lock_invD(1) [OF inv] unfolding tables_ok_def by blast
    then show False using sorted [OF that] by simp
  qed
  have other: "n \<noteq> m" if "(k, n) \<in> set (holds (gs j))" "j \<noteq> i" for k n j
    using lock_invD(4) [OF inv held, of k j] that by blast
  have holds: "holds (?gs j) = (if j = i then hs else holds (gs j))" for j by simp
  show "goroutine_ok ?s (?gs j)" for j
  proof (cases "j = i")
    case True
    then show ?thesis using lock_invD(2) [OF inv, of i] i rest by (auto simp: goroutine_ok_def same sorted_wrt_append)
  next
    case False
    then show ?thesis
      using goroutine_ok_mono [OF lock_invD(2) [OF inv, of j], of ?s] other [of _ _ j] by (auto simp: same)
  qed
  show "\<exists>j k. (k, n) \<in> set (holds (?gs j))" if "n \<in> locked ?s" for n
  proof -
    have "n \<in> locked s" "n \<noteq> m" using that by simp_all
    moreover obtain j k where "(k, n) \<in> set (holds (gs j))" using lock_invD(3) [OF inv \<open>n \<in> locked s\<close>] by blast
    ultimately have "(k, n) \<in> set (holds (?gs j))" using i by (cases "j = i") auto
    then show ?thesis by blast
  qed
  show "a = b" if "(k, n) \<in> set (holds (?gs a))" "(k', n) \<in> set (holds (?gs b))" for a b k k' n
    using that lock_invD(4) [OF inv, of k n a k' b] i unfolding holds by (auto split: if_splits)
qed

lemma lock_inv_step: "lock_inv st \<Longrightarrow> lock_step st st' \<Longrightarrow> lock_inv st'"
proof (erule lock_step.cases, goal_cases)
  case (1 gs i s t)
  have "goroutine_ok s ((gs(i := Running [] None (task_locks t))) j)" for j
    using lock_invD(2) [of s gs j] 1 task_locks_sorted [of t] by (auto simp: goroutine_ok_def)
  moreover have "holds ((gs(i := Running [] None (task_locks t))) j) = holds (gs j)" for j using 1 by simp
  ultimately show ?case using 1 by (simp add: lock_inv_def)
next
  case (2 i u u')
  from 2(4) show ?case
    using 2 by (cases rule: advance.cases) (auto intro: fetch_inv lock_inv_lock lock_inv_unlock)
qed

interpretation lock_sys: invariant_system lock_init lock_step lock_inv
  by unfold_locales (auto intro: lock_inv_init lock_inv_step)

section \<open>Exclusion and progress\<close>

text \<open>
  C16: bodies under the same key of the same table exclude each other. However reconciles, mode
  switches and scalings of any number of goroutines interleave, a lock is held by at most one
  goroutine, and the mutex a goroutine unlocks is locked.
\<close>

theorem keyed_locks_exclude:
  assumes "reach lock_init lock_step (s, gs)" and "(l, m) \<in> set (holds (gs i))"
  shows "m \<in> locked s \<and> ((l, m') \<in> set (holds (gs j)) \<longrightarrow> j = i)"
proof -
  note inv = lock_sys.reach_inv [OF assms(1)]
  have "m' = m" if "(l, m') \<in> set (holds (gs j))"
    using lock_invD(5) [OF inv that] lock_invD(5) [OF inv assms(2)] by simp
  then show ?thesis using lock_invD(6) [OF inv assms(2)] lock_invD(4) [OF inv assms(2), of l j] by blast
qed

text \<open>
  The next lock of a goroutine has a higher rank than those it holds; a goroutine that has all its
  locks is above every rank.
\<close>

definition level :: "goroutine_st \<Rightarrow> nat" where
  "level g = (case todo g of [] \<Rightarrow> 3 | l # _ \<Rightarrow> rank (table_of l))"

lemma holds_below_level:
  assumes "goroutine_ok s g" and "(l, m) \<in> set (holds g)"
  shows "rank (table_of l) < level g"
proof (cases "todo g")
  case Nil
  then show ?thesis by (cases "table_of l") (simp_all add: level_def)
next
  case (Cons k ls)
  then show ?thesis using assms by (force simp: goroutine_ok_def level_def sorted_wrt_append)
qed

text \<open>
  C17: the locks cannot deadlock. In every reachable state in which some goroutine has work, some
  goroutine can take its next step: get its mutex, lock it, or unlock one it holds.
\<close>

theorem locks_do_not_deadlock:
  assumes "reach lock_init lock_step (s, gs)" and "gs i \<noteq> idle"
  shows "\<exists>j st'. gs j \<noteq> idle \<and> advance j (s, gs) st'"
proof -
  note inv = lock_sys.reach_inv [OF assms(1)]
  have rank: "rank t < 4" for t by (cases t) simp_all
  have "level g < 4" for g using rank by (cases "todo g") (simp_all add: level_def)
  then obtain j where j: "gs j \<noteq> idle" and top: "\<And>k. gs k \<noteq> idle \<Longrightarrow> level (gs k) \<le> level (gs j)"
    using ex_has_greatest_nat [of "\<lambda>k. gs k \<noteq> idle" i "\<lambda>k. level (gs k)" 4] assms(2) by blast
  obtain hs x ls where g: "gs j = Running hs x ls" by (cases "gs j")
  consider (none) "x = None" "ls = []" | (get) l ls' where "x = None" "ls = l # ls'" | (got) m where "x = Some m"
    by (cases x; cases ls) auto
  then show ?thesis
  proof cases
    case none
    then obtain l m hs' where "gs j = Running ((l, m) # hs') None []" using g j by (cases hs) auto
    then show ?thesis using j advance.unlock by blast
  next
    case get
    then show ?thesis using j g advance.fetch [of gs j hs l ls' s] by (metis surj_pair)
  next
    case (got m)
    then obtain l ls' where ls: "ls = l # ls'" and entry: "entry_of s l = Some m"
      using lock_invD(2) [OF inv, of j] g by (auto simp: goroutine_ok_def)
    have "m \<notin> locked s"
    proof
      assume "m \<in> locked s"
      then obtain k l' where k: "(l', m) \<in> set (holds (gs k))" using lock_invD(3) [OF inv] by blast
      then have "l' = l" using lock_invD(5) [OF inv k] entry lock_invD(1) [OF inv] unfolding tables_ok_def by blast
      then have "level (gs j) < level (gs k)"
        using holds_below_level [OF lock_invD(2) [OF inv] k] g ls by (simp add: level_def)
      moreover have "gs k \<noteq> idle" using k by auto
      ultimately show False using top by fastforce
    qed
    then show ?thesis using j g got ls advance.lock [of gs j hs m l ls' s] by blast
  qed
qed

text \<open>Two reconciles of one ElastiService: the first has the lock, the second waits for it.\<close>

definition web_request :: nsname where
  "web_request = \<lparr>nn_namespace = ''shop'', nn_name = ''web''\<rparr>"

definition fresh_locks :: lock_st where
  "fresh_locks = \<lparr>tables = (\<lambda>_. sm_empty), next_mutex = 0, locked = {}\<rparr>"

definition first_inside :: lock_sys where
  "first_inside =
     (let l = Lock ReconcileLocks (nn_string web_request)
      in ((snd (get_mutex l fresh_locks))\<lparr>locked := {0}\<rparr>, (\<lambda>_. idle)(0 := Running [(l, 0)] None [])))"

lemma first_inside_reached: "reach lock_init lock_step first_inside"
proof -
  let ?l = "Lock ReconcileLocks (nn_string web_request)"
  let ?s = "snd (get_mutex ?l fresh_locks)"
  define gs where "gs x ls hs = (\<lambda>_ :: nat. idle)(0 := Running hs x ls)" for x :: "nat option" and ls hs
  have got: "get_mutex ?l fresh_locks = (0, ?s)" "locked ?s = {}"
    by (simp_all add: getMutexForReconcile_def load_or_new_def LoadOrStore_def fresh_locks_def)
  have "reach lock_init lock_step (fresh_locks, \<lambda>_. idle)" by (rule reach_init) (simp add: lock_init_def fresh_locks_def)
  moreover have "lock_step (fresh_locks, \<lambda>_. idle) (fresh_locks, gs None [?l] [])"
    using lock_step.start [of "\<lambda>_. idle" 0 fresh_locks "ReconcileTask web_request"] by (simp add: gs_def)
  moreover have "lock_step (fresh_locks, gs None [?l] []) (?s, gs (Some 0) [?l] [])"
    using lock_step.advance [OF advance.fetch [where gs = "gs None [?l] []" and i = 0 and hs = "[]" and ls = "[]", OF _ got(1)]] by (simp add: gs_def)
  moreover have "lock_step (?s, gs (Some 0) [?l] []) first_inside"
    using lock_step.advance [OF advance.lock [where gs = "gs (Some 0) [?l] []" and i = 0 and hs = "[]" and m = 0 and l = ?l and ls = "[]" and s = ?s]] got(2)
    by (simp add: first_inside_def Let_def gs_def)
  ultimately show ?thesis by (blast intro: reach_step)
qed

theorem keyed_locks_exclude_witness:
  "0 \<in> locked (fst first_inside) \<and> (Lock ReconcileLocks (nn_string web_request), 0) \<in> set (holds (snd first_inside 0))"
proof -
  have "reach lock_init lock_step (fst first_inside, snd first_inside)" using first_inside_reached by simp
  moreover have "(Lock ReconcileLocks (nn_string web_request), 0) \<in> set (holds (snd first_inside 0))"
    by (simp add: first_inside_def Let_def)
  ultimately show ?thesis using keyed_locks_exclude by blast
qed

theorem locks_do_not_deadlock_witness:
  "\<exists>j st'. snd first_inside j \<noteq> idle \<and> advance j (fst first_inside, snd first_inside) st'"
proof (rule locks_do_not_deadlock)
  show "reach lock_init lock_step (fst first_inside, snd first_inside)" using first_inside_reached by simp
  show "snd first_inside 0 \<noteq> idle" by (simp add: first_inside_def Let_def)
qed

end
