(* ===== verification/Logger.thy ===== *)
theory Logger
  imports Kube
begin

text \<open>
  The logger (\<^verbatim>\<open>src/pkg/logger/logger.go\<close>): its configuration, and the core that reports errors to
  Sentry. The core of zap it wraps is a parameter \<open>zap\<close>; what it is given to write is recorded.
  \<^verbatim>\<open>CustomCore\<close> embeds the core: it has methods \<^verbatim>\<open>Check\<close> and \<^verbatim>\<open>Write\<close> of its own, and the
  other ones of the interface are those of the embedded core.
\<close>

section \<open>Entries and fields\<close>

datatype field_type = StringType | Int64Type | Int32Type | Int16Type | Int8Type | ErrorType | OtherType

record log_field =
  lf_Key :: string
  lf_Type :: field_type
  lf_Integer :: int
  lf_String :: string
  lf_Interface :: "go_error option"     \<comment> \<open>if it holds an error\<close>

text \<open>The levels of zapcore: debug is -1, info 0, warn 1, error 2.\<close>

record log_entry =
  le_Level :: int
  le_Message :: string

definition ErrorLevel :: int where "ErrorLevel = 2"

text \<open>A value of the Sentry context; \<open>CtxError\<close> is the text of the error.\<close>

datatype ctx_value = CtxString string | CtxInt int | CtxError go_error

datatype exception_value = FromMessage string | FromError go_error

record 'f sentry_event =
  ev_Message :: string
  ev_Type :: string
  ev_Value :: exception_value
  ev_Frames :: "'f list"
  ev_Context :: "string \<rightharpoonup> ctx_value"

record ('c, 'f) log_st =
  events :: "'f sentry_event list"
  written :: "('c \<times> log_entry \<times> log_field list) list"

section \<open>Cores\<close>

record 'c zap =
  z_Enabled :: "'c \<Rightarrow> int \<Rightarrow> bool"
  z_With :: "'c \<Rightarrow> log_field list \<Rightarrow> 'c"
  z_Write :: "'c \<Rightarrow> log_entry \<Rightarrow> log_field list \<Rightarrow> go_error option"

datatype 'c core = Base 'c | CustomCore "'c core"

text \<open>The promoted methods.\<close>

primrec Enabled :: "('c, 'z) zap_scheme \<Rightarrow> 'c core \<Rightarrow> int \<Rightarrow> bool" where
  "Enabled z (Base c) lvl = z_Enabled z c lvl"
| "Enabled z (CustomCore c) lvl = Enabled z c lvl"

primrec With_core :: "('c, 'z) zap_scheme \<Rightarrow> 'c core \<Rightarrow> log_field list \<Rightarrow> 'c core" where
  "With_core z (Base c) flds = Base (z_With z c flds)"
| "With_core z (CustomCore c) flds = With_core z c flds"

text \<open>\<^verbatim>\<open>Check\<close> adds the core to those that write the entry.\<close>

definition Check :: "('c, 'z) zap_scheme \<Rightarrow> 'c core \<Rightarrow> log_entry \<Rightarrow> 'c core list \<Rightarrow> 'c core list" where
  "Check z c entry checked = (if Enabled z c (le_Level entry) then checked @ [c] else checked)"

text \<open>The loop over the fields. The type assertion of an error field panics if it holds none.\<close>

fun convert_fields :: "log_field list \<Rightarrow> (string \<rightharpoonup> ctx_value) \<Rightarrow> go_error option \<Rightarrow> ((string \<rightharpoonup> ctx_value) \<times> go_error option) outcome" where
  "convert_fields [] ctx err = Ok (ctx, err)"
| "convert_fields (f # fs) ctx err =
     (case lf_Type f of
        StringType \<Rightarrow> convert_fields fs (ctx(lf_Key f \<mapsto> CtxString (lf_String f))) err
      | Int64Type \<Rightarrow> convert_fields fs (ctx(lf_Key f \<mapsto> CtxInt (lf_Integer f))) err
      | Int32Type \<Rightarrow> convert_fields fs (ctx(lf_Key f \<mapsto> CtxInt (lf_Integer f))) err
      | Int16Type \<Rightarrow> convert_fields fs (ctx(lf_Key f \<mapsto> CtxInt (lf_Integer f))) err
      | Int8Type \<Rightarrow> convert_fields fs (ctx(lf_Key f \<mapsto> CtxInt (lf_Integer f))) err
      | ErrorType \<Rightarrow>
          (case lf_Interface f of
             None \<Rightarrow> Panic ''interface conversion''
           | Some fieldErr \<Rightarrow> convert_fields fs (ctx(lf_Key f \<mapsto> CtxError fieldErr)) (if err = None then Some fieldErr else err))
      | OtherType \<Rightarrow> convert_fields fs (ctx(lf_Key f \<mapsto> CtxString (lf_String f))) err)"

text \<open>
  The report. \<open>frames\<close> is what \<^verbatim>\<open>sentry.NewStacktrace\<close> returns, nil if there is no stack; the
  last four frames are cut off, which panics if there are fewer.
\<close>

definition report_event ::
  "'f list option \<Rightarrow> log_entry \<Rightarrow> log_field list \<Rightarrow> (('c, 'f) log_st, unit) prog" where
  "report_event frames entry flds = (\<lambda>s.
     case convert_fields flds Map.empty None of
       Ok (ctx, err) \<Rightarrow>
         (case frames of
            None \<Rightarrow> (Panic ''nil pointer dereference'', s)
          | Some fs \<Rightarrow>
              if length fs < 4 then (Panic ''slice bounds out of range'', s)
              else (Ok (), s\<lparr>events := events s @
                [\<lparr>ev_Message = le_Message entry, ev_Type = le_Message entry,
                  ev_Value = (case err of Some e \<Rightarrow> FromError e | None \<Rightarrow> FromMessage (le_Message entry)),
                  ev_Frames = take (length fs - 4) fs, ev_Context = ctx\<rparr>]\<rparr>))
     | Err e \<Rightarrow> (Err e, s)
     | Panic p \<Rightarrow> (Panic p, s))"

primrec Write_core ::
  "('c, 'z) zap_scheme \<Rightarrow> 'f list option \<Rightarrow> 'c core \<Rightarrow> log_entry \<Rightarrow> log_field list \<Rightarrow> (('c, 'f) log_st, unit) prog" where
  "Write_core z frames (Base c) entry flds = (\<lambda>s.
     (case z_Write z c entry flds of None \<Rightarrow> Ok () | Some e \<Rightarrow> Err e, s\<lparr>written := written s @ [(c, entry, flds)]\<rparr>))"
| "Write_core z frames (CustomCore c) entry flds =
     handle (if le_Level entry \<ge> ErrorLevel then report_event frames entry flds else ret ()) fail (\<lambda>_.
       attempt (Write_core z frames c entry flds) ''failed to write entry'' ret)"

text \<open>
  A call of the logger: the cores that accept the entry write it, the error of a write is dropped.
  \<^verbatim>\<open>With\<close> of a logger replaces its core by what the core's \<^verbatim>\<open>With\<close> returns.
\<close>

primrec write_all :: "('c, 'z) zap_scheme \<Rightarrow> 'f list option \<Rightarrow> 'c core list \<Rightarrow> log_entry \<Rightarrow> log_field list \<Rightarrow> (('c, 'f) log_st, unit) prog" where
  "write_all z frames [] entry flds = ret ()"
| "write_all z frames (c # cs) entry flds = ignoring (Write_core z frames c entry flds) (write_all z frames cs entry flds)"

definition log_write :: "('c, 'z) zap_scheme \<Rightarrow> 'f list option \<Rightarrow> 'c core \<Rightarrow> log_entry \<Rightarrow> log_field list \<Rightarrow> (('c, 'f) log_st, unit) prog" where
  "log_write z frames logger entry flds = write_all z frames (Check z logger entry []) entry flds"

section \<open>NewLogger\<close>

text \<open>The encoders are known by their names.\<close>

record encoder_config =
  ec_TimeKey :: string
  ec_EncodeTime :: string
  ec_EncodeLevel :: string
  ec_EncodeDuration :: string
  ec_StacktraceKey :: string

record zap_config =
  zg_Level :: int
  zg_Development :: bool
  zg_Encoding :: string
  zg_EncoderConfig :: encoder_config
  zg_OutputPaths :: "string list"
  zg_ErrorOutputPaths :: "string list"

text \<open>The defaults of zap.\<close>

record zap_defaults =
  NewProductionEncoderConfig :: encoder_config
  NewDevelopmentEncoderConfig :: encoder_config
  NewProductionConfig :: zap_config

definition logger_config :: "zap_defaults \<Rightarrow> string \<Rightarrow> zap_config" where
  "logger_config d env =
     (if env = ''prod''
      then (NewProductionConfig d)\<lparr>zg_EncoderConfig :=
             (NewProductionEncoderConfig d)\<lparr>ec_TimeKey := ''timestamp'', ec_EncodeTime := ''ISO8601TimeEncoder''\<rparr>\<rparr>
      else \<lparr>zg_Level = - 1, zg_Development = True, zg_Encoding = ''console'',
            zg_EncoderConfig = (NewDevelopmentEncoderConfig d)\<lparr>ec_EncodeLevel := ''CapitalColorLevelEncoder'',
              ec_EncodeTime := ''ISO8601TimeEncoder'', ec_EncodeDuration := ''StringDurationEncoder'', ec_StacktraceKey := []\<rparr>,
            zg_OutputPaths = [''stdout''], zg_ErrorOutputPaths = [''stderr'']\<rparr>)"

definition NewLogger :: "zap_defaults \<Rightarrow> (zap_config \<Rightarrow> go_error + 'c) \<Rightarrow> string \<Rightarrow> bool \<Rightarrow> go_error + 'c core" where
  "NewLogger d Build env sentryEnabled =
     (case Build (logger_config d env) of
        Inl err \<Rightarrow> Inl (EWrap ''error creating logger'' err)
      | Inr c \<Rightarrow> Inr (if sentryEnabled then CustomCore (Base c) else Base c))"

section \<open>What is reported\<close>

text \<open>The value of a field, and the error fields that hold an error.\<close>

definition field_value :: "log_field \<Rightarrow> ctx_value" where
  "field_value f =
     (case lf_Type f of
        ErrorType \<Rightarrow> CtxError (the (lf_Interface f))
      | StringType \<Rightarrow> CtxString (lf_String f)
      | OtherType \<Rightarrow> CtxString (lf_String f)
      | _ \<Rightarrow> CtxInt (lf_Integer f))"

definition well_typed :: "log_field \<Rightarrow> bool" where
  "well_typed f \<longleftrightarrow> (lf_Type f = ErrorType \<longrightarrow> lf_Interface f \<noteq> None)"

definition field_errors :: "log_field list \<Rightarrow> go_error list" where
  "field_errors fs = map (the \<circ> lf_Interface) (filter (\<lambda>f. lf_Type f = ErrorType) fs)"

definition first_error :: "go_error option \<Rightarrow> log_field list \<Rightarrow> go_error option" where
  "first_error err fs = (case err of Some e \<Rightarrow> Some e | None \<Rightarrow> (case field_errors fs of [] \<Rightarrow> None | e # _ \<Rightarrow> Some e))"

lemma convert_fields_run:
  "\<forall>f \<in> set fs. well_typed f \<Longrightarrow>
   convert_fields fs ctx err = Ok (ctx ++ map_of (rev (map (\<lambda>f. (lf_Key f, field_value f)) fs)), first_error err fs)"
proof (induction fs arbitrary: ctx err)
  case Nil
  then show ?case by (simp add: first_error_def field_errors_def split: option.split)
next
  case (Cons f fs)
  have step: "ctx(lf_Key f \<mapsto> field_value f) ++ map_of (rev (map (\<lambda>f. (lf_Key f, field_value f)) fs)) =
      ctx ++ map_of (rev (map (\<lambda>f. (lf_Key f, field_value f)) (f # fs)))"
    by (simp add: map_add_def fun_eq_iff split: option.split)
  have rest: "\<forall>f \<in> set fs. well_typed f" using Cons.prems by simp
  show ?case
  proof (cases "lf_Type f = ErrorType")
    case True
    then obtain e where e: "lf_Interface f = Some e" using Cons.prems by (auto simp: well_typed_def)
    let ?err = "if err = None then Some e else err"
    have "convert_fields (f # fs) ctx err = convert_fields fs (ctx(lf_Key f \<mapsto> field_value f)) ?err"
      using True e by (simp add: field_value_def)
    also have "\<dots> = Ok (ctx ++ map_of (rev (map (\<lambda>f. (lf_Key f, field_value f)) (f # fs))), first_error ?err fs)"
      using Cons.IH [of "ctx(lf_Key f \<mapsto> field_value f)" ?err] rest unfolding step by blast
    also have "first_error ?err fs = first_error err (f # fs)"
      using True e by (cases err) (simp_all add: first_error_def field_errors_def)
    finally show ?thesis .
  next
    case False
    then have "convert_fields (f # fs) ctx err = convert_fields fs (ctx(lf_Key f \<mapsto> field_value f)) err"
      by (simp add: field_value_def split: field_type.split)
    also have "\<dots> = Ok (ctx ++ map_of (rev (map (\<lambda>f. (lf_Key f, field_value f)) (f # fs))), first_error err fs)"
      using Cons.IH [of "ctx(lf_Key f \<mapsto> field_value f)" err] rest unfolding step by blast
    also have "first_error err fs = first_error err (f # fs)"
      using False by (cases err) (simp_all add: first_error_def field_errors_def)
    finally show ?thesis .
  qed
qed


text \<open>
  A logger derived by \<^verbatim>\<open>With\<close> reports nothing: the method is the one of the embedded core, so that
  the derived logger writes to that core directly. The components of the resolver log with derived
  loggers.
\<close>

theorem derived_loggers_unreported:
  assumes "NewLogger d Build env sentryEnabled = Inr logger"
  shows "events (snd (log_write z frames (With_core z logger flds) entry flds' s)) = events s"
proof -
  have "\<exists>c. With_core z logger flds = Base c"
    using assms by (auto simp: NewLogger_def split: sum.splits if_splits)
  then show ?thesis by (auto simp: log_write_def Check_def ignoring_def handle_def split: option.split)
qed

section \<open>A concrete logger\<close>

definition sample_zap :: "nat zap" where
  "sample_zap = \<lparr>z_Enabled = (\<lambda>_ _. True), z_With = (\<lambda>c flds. c + length flds), z_Write = (\<lambda>_ _ _. None)\<rparr>"

definition sample_encoder :: encoder_config where
  "sample_encoder = \<lparr>ec_TimeKey = ''ts'', ec_EncodeTime = ''EpochTimeEncoder'', ec_EncodeLevel = ''LowercaseLevelEncoder'',
     ec_EncodeDuration = ''SecondsDurationEncoder'', ec_StacktraceKey = ''stacktrace''\<rparr>"

definition sample_defaults :: zap_defaults where
  "sample_defaults =
     \<lparr>NewProductionEncoderConfig = sample_encoder, NewDevelopmentEncoderConfig = sample_encoder,
      NewProductionConfig = \<lparr>zg_Level = 0, zg_Development = False, zg_Encoding = ''json'', zg_EncoderConfig = sample_encoder,
        zg_OutputPaths = [''stderr''], zg_ErrorOutputPaths = [''stderr'']\<rparr>\<rparr>"

definition error_field :: log_field where
  "error_field = \<lparr>lf_Key = ''error'', lf_Type = ErrorType, lf_Integer = 0, lf_String = [], lf_Interface = Some (EMsg ''boom'')\<rparr>"

definition scaling_failed :: log_entry where
  "scaling_failed = \<lparr>le_Level = 2, le_Message = ''scaling failed''\<rparr>"


theorem derived_loggers_unreported_witness:
  "events (snd (log_write sample_zap (Some [1, 2, 3, 4, 5 :: nat]) (With_core sample_zap (CustomCore (Base 0)) [error_field]) scaling_failed
     [error_field] \<lparr>events = [], written = []\<rparr>)) = []"
proof -
  have "NewLogger sample_defaults (\<lambda>_. Inr (0 :: nat)) ''dev'' True = Inr (CustomCore (Base 0))" by (simp add: NewLogger_def)
  from derived_loggers_unreported [OF this] show ?thesis by (rule trans) simp
qed

end
