(* ===== verification/Informer_Sync.thy ===== *)
theory Informer_Sync
  imports Informers
begin

text \<open>
  The start of an informer while other goroutines act, and what the operator counts of its
  informers (\<^verbatim>\<open>src/operator/internal/informer/informer.go\<close>, \<^verbatim>\<open>src/operator/internal/prom/prom.go\<close>).
  The theory of the informers takes \<^verbatim>\<open>enableInformer\<close> as one step; here the wait for the first
  synchronisation is a point at which the informers may be stopped.
\<close>

section \<open>The manager and its wait\<close>

definition defaultSyncTimeout :: duration where "defaultSyncTimeout = 30 * second"

record informer_manager =
  im_resyncPeriod :: duration
  im_syncTimeout :: duration

definition NewInformerManager :: informer_manager where
  "NewInformerManager = \<lparr>im_resyncPeriod = 5 * 60 * second, im_syncTimeout = defaultSyncTimeout\<rparr>"

text \<open>
  \<^verbatim>\<open>waitForSync\<close>: what is seen, at which time after the start. The context ends with the timeout
  or when the stop channel is closed; the wait ends with the context, or before that when the
  informer has synced. \<open>None\<close> is never.
\<close>

definition waitForSync :: "informer_manager \<Rightarrow> duration option \<Rightarrow> duration option \<Rightarrow> bool" where
  "waitForSync m stopClosed hasSynced =
     (let ends = (case stopClosed of None \<Rightarrow> im_syncTimeout m | Some t \<Rightarrow> min t (im_syncTimeout m))
      in case hasSynced of None \<Rightarrow> False | Some t \<Rightarrow> t < ends)"

lemma waitForSync_stopped: "hasSynced \<noteq> None \<longrightarrow> t \<le> the hasSynced \<Longrightarrow> \<not> waitForSync m (Some t) hasSynced"
  by (cases hasSynced) (auto simp: waitForSync_def Let_def)

section \<open>Interference\<close>

text \<open>
  \<open>meanwhile\<close> is what other goroutines do during the wait. If they close the stop channel, the
  wait ends without success.
\<close>

definition enableInformer_during ::
  "('w, 'x) api_scheme \<Rightarrow> (('w, 'z) op_st_scheme \<Rightarrow> ('w, 'z) op_st_scheme) \<Rightarrow> request_watch \<Rightarrow> (('w, 'z) op_st_scheme, unit) prog" where
  "enableInformer_during api meanwhile req =
     attempt (api_read (a_addEventHandler api (rw_GVR req) (rw_ResourceNamespace req) (rw_ResourceName req))) ''enableInformer'' (\<lambda>_.
     handle (run_informer req) fail (\<lambda>informerStop.
     handle (\<lambda>s. (Ok (), meanwhile s)) fail (\<lambda>_.
     handle (api_ask (a_waitForSync api (rw_GVR req) (rw_ResourceNamespace req) (rw_ResourceName req))) fail (\<lambda>synced s.
       if \<not> synced \<or> informerStop \<notin> running s
       then handle (close_and_delete informerStop (getKeyFromRequestWatch req)) fail
              (\<lambda>_. fail (EMsg ''failed to sync informer within timeout'')) s
       else ret () s))))"

text \<open>Without interference this is the step of the other theory.\<close>

lemma enableInformer_during_quiet: "enableInformer_during api (\<lambda>s. s) req s = enableInformer api req s"
proof -
  obtain r w where read: "a_addEventHandler api (rw_GVR req) (rw_ResourceNamespace req) (rw_ResourceName req) (world s) = (r, w)" by fastforce
  obtain ok w' where sync: "a_waitForSync api (rw_GVR req) (rw_ResourceNamespace req) (rw_ResourceName req) w = (ok, w')" by fastforce
  show ?thesis
    by (cases r; cases ok)
      (simp_all add: enableInformer_during_def enableInformer_def attempt_def handle_run api_read_def api_ask_def run_informer_def read sync)
qed

text \<open>
  Stopping the informers of a CRD while one of them is being started crashes the operator: the stop
  closes the channel, the wait then fails, and \<^verbatim>\<open>enableInformer\<close> closes the channel once more. The
  deletion of an ElastiService runs under the reconcile lock and the watch of the public service
  under the lock of the mode switch, so that nothing orders the two.
\<close>

theorem stop_while_syncing_panics:
  assumes "inf_inv s" and "Load (informers s) (getKeyFromRequestWatch req) = None"
    and "a_addEventHandler api (rw_GVR req) (rw_ResourceNamespace req) (rw_ResourceName req) (world s) = (Inr u, w)"
    and "distinct keys" and "getKeyFromRequestWatch req \<in> set keys" and "HasPrefix (getKeyFromRequestWatch req) (crd_prefix crd ns)"
  shows "fst (enableInformer_during api (\<lambda>s. snd (StopForCRD keys crd ns s)) req s) = Panic ''close of closed channel''"
proof -
  let ?key = "getKeyFromRequestWatch req"
  define s1 where "s1 = snd (run_informer req (s\<lparr>world := w\<rparr>))"
  have s1: "run_informer req (s\<lparr>world := w\<rparr>) = (Ok (next_id s), s1)" by (simp add: s1_def run_informer_def)
  have at: "Load (informers s1) ?key = Some \<lparr>inf_id = next_id s, inf_Req = req\<rparr>" by (simp add: s1_def run_informer_def)
  have inv1: "inf_inv s1"
    using inf_ok_start [OF _ assms(2)] assms(1) by (simp add: inf_inv_def s1_def run_informer_def)
  obtain s2 where s2: "StopForCRD keys crd ns s1 = (Ok (), s2)" "inf_inv s2"
      "\<forall>k. Load (informers s2) k = (if k \<in> set keys \<and> HasPrefix k (crd_prefix crd ns) then None else Load (informers s1) k)"
    using stop_keys_run [OF inv1 assms(4)] unfolding StopForCRD_def by blast
  have "next_id s \<notin> running s2"
  proof
    assume "next_id s \<in> running s2"
    then obtain k i where ki: "Load (informers s2) k = Some i" "inf_id i = next_id s"
      using inf_okD(2) [OF s2(2) [unfolded inf_inv_def]] by blast
    then have "Load (informers s1) k = Some i" and other: "\<not> (k \<in> set keys \<and> HasPrefix k (crd_prefix crd ns))"
      using s2(3) by (auto split: if_splits)
    then have "k = ?key" using inf_okD(3) [OF inv1 [unfolded inf_inv_def] _ at] ki(2) by simp
    then show False using other assms(5,6) by simp
  qed
  then show ?thesis
    using s1 s2(1) assms(3)
    by (cases "a_waitForSync api (rw_GVR req) (rw_ResourceNamespace req) (rw_ResourceName req) (world s2)")
      (simp add: enableInformer_during_def attempt_def handle_run api_read_def api_ask_def close_and_delete_def)
qed

theorem stop_while_syncing_panics_witness:
  "fst (enableInformer_during watch_api (\<lambda>s. snd (StopForCRD [getKeyFromRequestWatch sample_watch] ''web-es'' ''shop'' s)) sample_watch start_op) =
     Panic ''close of closed channel''"
proof (rule stop_while_syncing_panics)
  show "inf_inv start_op" by (rule inf_inv_init) (simp add: inf_init_def start_op_def)
  show "a_addEventHandler watch_api (rw_GVR sample_watch) (rw_ResourceNamespace sample_watch) (rw_ResourceName sample_watch) (world start_op) = (Inr (), ())"
    by (simp add: watch_api_def constant_api_def)
  show "HasPrefix (getKeyFromRequestWatch sample_watch) (crd_prefix ''web-es'' ''shop'')" by code_simp
qed (simp_all add: start_op_def)

end
