(* ===== verification/Metrics.thy ===== *)
theory Metrics
  imports Informers
begin

text \<open>
  The metrics of both programs (\<^verbatim>\<open>src/operator/internal/prom/prom.go\<close>,
  \<^verbatim>\<open>src/resolver/internal/prom/prom.go\<close>): their labels, the calls that record them, and the gauge of
  the running informers. A series is a metric with the values of its labels; a call with another
  number of values than there are labels panics.
\<close>

section \<open>Series\<close>

datatype metric =
    CRDReconcileHistogram | CRDFinalizerCounter | CRDUpdateCounter | ModeGauge | InformerGauge | InformerCounter
  | InformerHandlerCounter | TargetScaleCounter
  | HostExtractionCounter | QueuedRequestGauge | IncomingRequestHistogram | TrafficSwitchCounter | OperatorRPCCounter

fun operator_labels :: "metric \<Rightarrow> string list" where
  "operator_labels CRDReconcileHistogram = [''crd_name'', ''error'']"
| "operator_labels CRDFinalizerCounter = [''crd_name'', ''error'']"
| "operator_labels CRDUpdateCounter = [''crd_name'', ''mode'', ''error'']"
| "operator_labels ModeGauge = [''crd_name'']"
| "operator_labels InformerGauge = [''informer_name'']"
| "operator_labels InformerCounter = [''crd_name'', ''action'', ''error'']"
| "operator_labels InformerHandlerCounter = [''crd_name'', ''key'', ''error'']"
| "operator_labels TargetScaleCounter = [''service_name'', ''namespace'', ''target'', ''error'']"
| "operator_labels _ = []"

fun resolver_labels :: "metric \<Rightarrow> string list" where
  "resolver_labels HostExtractionCounter = [''extractionType'', ''source'', ''hostHeader'', ''error'']"
| "resolver_labels QueuedRequestGauge = [''source'', ''namespace'']"
| "resolver_labels IncomingRequestHistogram =
     [''source'', ''target'', ''sourceHost'', ''targetHost'', ''namespace'', ''method'', ''requestURI'', ''status'', ''error'']"
| "resolver_labels TrafficSwitchCounter = [''source'', ''enabled'']"
| "resolver_labels OperatorRPCCounter = [''error'']"
| "resolver_labels _ = []"

definition label_names :: "metric \<Rightarrow> string list" where
  "label_names m = operator_labels m @ resolver_labels m"

type_synonym metrics = "metric \<times> string list \<Rightarrow> int"

text \<open>\<^verbatim>\<open>WithLabelValues(values...)\<close> followed by an update of the series.\<close>

definition with_labels :: "metric \<Rightarrow> string list \<Rightarrow> (int \<Rightarrow> int) \<Rightarrow> metrics \<Rightarrow> metrics outcome" where
  "with_labels m vs f g =
     (if length vs = length (label_names m) then Ok (g((m, vs) := f (g (m, vs))))
      else Panic ''inconsistent label cardinality'')"

abbreviation inc :: "int \<Rightarrow> int" where "inc n \<equiv> n + 1"
abbreviation dec :: "int \<Rightarrow> int" where "dec n \<equiv> n - 1"

section \<open>The calls\<close>

definition Success :: string where "Success = ''success''"

text \<open>
  One constructor per call, with what its labels are computed from. \<open>text\<close> arguments are
  error texts; a histogram counts its observations.
\<close>

datatype metric_call =
    ReconcileDone nsname "string option"
  | FinalizeDone nsname "string option"
  | StatusUpdated nsname string "string option"
  | ModeSet nsname string
  | InformerStarted string
  | InformerStopped string
  | InformerAction string string "string option"
  | HandlerRan nsname string "string option"
  | TargetScaled string string scale_target_ref "string option"
  | HostExtracted string string string string
  | RequestQueued host
  | RequestLeft host
  | RequestServed host string string string string
  | TrafficSwitched string bool
  | OperatorCalled string

definition err_label :: "string option \<Rightarrow> string" where
  "err_label err = (case err of None \<Rightarrow> Success | Some e \<Rightarrow> e)"

fun record_metric :: "metric_call \<Rightarrow> metrics \<Rightarrow> metrics outcome" where
  "record_metric (ReconcileDone req err) = with_labels CRDReconcileHistogram [nn_string req, err_label err] inc"
| "record_metric (FinalizeDone req err) = with_labels CRDFinalizerCounter [nn_string req, err_label err] inc"
| "record_metric (StatusUpdated crd mode err) = with_labels CRDUpdateCounter [nn_string crd, mode, err_label err] inc"
| "record_metric (ModeSet crd mode) = with_labels ModeGauge [nn_string crd] (\<lambda>_. if mode = ProxyMode then 1 else 0)"
| "record_metric (InformerStarted key) = with_labels InformerGauge [key] inc"
| "record_metric (InformerStopped key) = with_labels InformerGauge [key] dec"
| "record_metric (InformerAction key action err) = with_labels InformerCounter [key, action, err_label err] inc"
| "record_metric (HandlerRan req key err) = with_labels InformerHandlerCounter [nn_string req, key, err_label err] inc"
| "record_metric (TargetScaled svc ns ref err) =
     with_labels TargetScaleCounter [svc, ns, tr_Kind ref @ ''-'' @ tr_Name ref, err_label err] inc"
| "record_metric (HostExtracted kind source header err) = with_labels HostExtractionCounter [kind, source, header, err] inc"
| "record_metric (RequestQueued h) = with_labels QueuedRequestGauge [SourceService h, h_Namespace h] inc"
| "record_metric (RequestLeft h) = with_labels QueuedRequestGauge [SourceService h, h_Namespace h] dec"
| "record_metric (RequestServed h method uri status err) =
     with_labels IncomingRequestHistogram
       [SourceService h, TargetService h, SourceHost h, TargetHost h, h_Namespace h, method, uri, status, err] inc"
| "record_metric (TrafficSwitched source enabled) =
     with_labels TrafficSwitchCounter [source, if enabled then ''enabled'' else ''disabled''] inc"
| "record_metric (OperatorCalled err) = with_labels OperatorRPCCounter [err] inc"

text \<open>No call of a metric panics: every call gives as many values as there are labels.\<close>

lemma record_metric_ok: "\<exists>g'. record_metric c g = Ok g'"
  by (cases c) (simp_all add: with_labels_def label_names_def)

section \<open>The gauge of the informers\<close>

text \<open>The informer operations with what they record; \<open>fail_text\<close> is the text of an error.\<close>

definition fail_text :: "(go_error \<Rightarrow> string) \<Rightarrow> 'a outcome \<Rightarrow> string option" where
  "fail_text show_err r = (case r of Err e \<Rightarrow> Some (show_err e) | _ \<Rightarrow> None)"

definition recorded :: "metric_call \<Rightarrow> metrics \<Rightarrow> metrics" where
  "recorded c g = (case record_metric c g of Ok g' \<Rightarrow> g' | _ \<Rightarrow> g)"

text \<open>
  The gauge goes up at the end of the body of \<^verbatim>\<open>Add\<close>, which is reached when the informer was not
  there before and is enabled; the counter is deferred.
\<close>

definition Add_counted ::
  "(go_error \<Rightarrow> string) \<Rightarrow> ('w, 'x) api_scheme \<Rightarrow> request_watch \<Rightarrow> ('w, 'z) op_st_scheme \<times> metrics \<Rightarrow> ('w, 'z) op_st_scheme \<times> metrics" where
  "Add_counted show_err api req sg =
     (let key = getKeyFromRequestWatch req;
          (r, s') = Add api req (fst sg);
          g1 = (if Load (informers (fst sg)) key = None \<and> r = Ok () then recorded (InformerStarted key) (snd sg) else snd sg)
      in (s', recorded (InformerAction key ''add'' (fail_text show_err r)) g1))"

definition StopInformer_counted ::
  "(go_error \<Rightarrow> string) \<Rightarrow> string \<Rightarrow> ('w, 'z) op_st_scheme \<times> metrics \<Rightarrow> ('w, 'z) op_st_scheme \<times> metrics" where
  "StopInformer_counted show_err key sg =
     (let (r, s') = StopInformer key (fst sg);
          g1 = (if r = Ok () then recorded (InformerStopped key) (snd sg) else snd sg)
      in (s', recorded (InformerAction key ''stop'' (fail_text show_err r)) g1))"

fun stop_keys_counted ::
  "(go_error \<Rightarrow> string) \<Rightarrow> (string \<Rightarrow> bool) \<Rightarrow> string list \<Rightarrow> ('w, 'z) op_st_scheme \<times> metrics \<Rightarrow> ('w, 'z) op_st_scheme \<times> metrics" where
  "stop_keys_counted show_err P [] sg = sg"
| "stop_keys_counted show_err P (key # keys) sg =
     (case Load (informers (fst sg)) key of
        Some info \<Rightarrow>
          if P key then stop_keys_counted show_err P keys (StopInformer_counted show_err (getKeyFromRequestWatch (inf_Req info)) sg)
          else stop_keys_counted show_err P keys sg
      | None \<Rightarrow> stop_keys_counted show_err P keys sg)"

inductive counted_step ::
  "(go_error \<Rightarrow> string) \<Rightarrow> ('w, 'x) api_scheme \<Rightarrow> ('w, 'z) op_st_scheme \<times> metrics \<Rightarrow> ('w, 'z) op_st_scheme \<times> metrics \<Rightarrow> bool"
  for show_err api where
  add: "counted_step show_err api sg (Add_counted show_err api req sg)"
| stop: "counted_step show_err api sg (StopInformer_counted show_err key sg)"
| stop_crd: "counted_step show_err api sg (stop_keys_counted show_err (\<lambda>key. HasPrefix key (crd_prefix crd ns)) keys sg)"
| stop_all: "counted_step show_err api sg (stop_keys_counted show_err (\<lambda>_. True) keys sg)"
| elsewhere: "m \<noteq> InformerGauge \<Longrightarrow> counted_step show_err api (s, g) (s\<lparr>world := w\<rparr>, g((m, vs) := n))"

definition counted_init :: "('w, 'z) op_st_scheme \<times> metrics \<Rightarrow> bool" where
  "counted_init sg \<longleftrightarrow> inf_init (fst sg) \<and> snd sg = (\<lambda>_. 0)"

definition gauge_ok :: "('w, 'z) op_st_scheme \<times> metrics \<Rightarrow> bool" where
  "gauge_ok sg \<longleftrightarrow> inf_inv (fst sg) \<and>
     (\<forall>key. snd sg (InformerGauge, [key]) = (if Load (informers (fst sg)) key = None then 0 else 1))"

lemma recorded_simps [simp]:
  "recorded (InformerStarted key) g = g((InformerGauge, [key]) := g (InformerGauge, [key]) + 1)"
  "recorded (InformerStopped key) g = g((InformerGauge, [key]) := g (InformerGauge, [key]) - 1)"
  "recorded (InformerAction key a err) g (InformerGauge, vs) = g (InformerGauge, vs)"
  by (simp_all add: recorded_def with_labels_def label_names_def)

text \<open>What \<^verbatim>\<open>Add\<close> does to the map: the informer is there exactly if the call succeeded or it was there before.\<close>

lemma Add_informers:
  assumes "Add api req s = (r, s')"
  shows "Load (informers s') k =
    (if k = getKeyFromRequestWatch req \<and> Load (informers s) k = None
     then (if r = Ok () then Some \<lparr>inf_id = next_id s, inf_Req = req\<rparr> else None) else Load (informers s) k)"
proof (cases "Load (informers s) (getKeyFromRequestWatch req)")
  case None
  obtain v w1 where get: "a_getDynamic api (rw_GVR req) (rw_ResourceNamespace req) (rw_ResourceName req) (world s) = (v, w1)" by fastforce
  obtain h w2 where add: "a_addEventHandler api (rw_GVR req) (rw_ResourceNamespace req) (rw_ResourceName req) w1 = (h, w2)" by fastforce
  obtain ok w3 where sync: "a_waitForSync api (rw_GVR req) (rw_ResourceNamespace req) (rw_ResourceName req) w2 = (ok, w3)" by fastforce
  show ?thesis
    using assms None by (cases v; cases h; cases ok) (auto simp: Add_def verifyTargetExist_def enableInformer_def attempt_def handle_run
        api_read_def api_ask_def run_informer_def close_and_delete_def get add sync)
next
  case (Some i)
  then show ?thesis using assms by (auto simp: Add_def)
qed

lemma Add_counted_ok: "gauge_ok sg \<Longrightarrow> gauge_ok (Add_counted show_err api req sg)"
proof -
  assume ok: "gauge_ok sg"
  obtain r s' where run: "Add api req (fst sg) = (r, s')" by fastforce
  have "inf_inv s'" using Add_inv [of "fst sg" api req] ok run by (simp add: gauge_ok_def)
  moreover have "snd (Add_counted show_err api req sg) (InformerGauge, [key]) = (if Load (informers s') key = None then 0 else 1)" for key
    using ok Add_informers [OF run, of key] by (auto simp: Add_counted_def gauge_ok_def run Let_def)
  ultimately show ?thesis by (simp add: gauge_ok_def Add_counted_def run Let_def)
qed

lemma StopInformer_counted_ok: "gauge_ok sg \<Longrightarrow> gauge_ok (StopInformer_counted show_err key sg)"
proof (cases "Load (informers (fst sg)) key")
  case None
  then show "gauge_ok sg \<Longrightarrow> ?thesis" by (simp add: gauge_ok_def StopInformer_counted_def StopInformer_def)
next
  case (Some i)
  assume ok: "gauge_ok sg"
  then have "inf_inv (fst sg)" by (simp add: gauge_ok_def)
  note stop = close_and_delete_ok [OF this Some]
  show ?thesis using ok stop Some by (simp add: gauge_ok_def StopInformer_counted_def StopInformer_def)
qed

lemma stop_keys_counted_ok: "gauge_ok sg \<Longrightarrow> gauge_ok (stop_keys_counted show_err P keys sg)"
proof (induction keys arbitrary: sg)
  case (Cons key keys)
  show ?case
    using Cons.IH [OF Cons.prems] Cons.IH [OF StopInformer_counted_ok [OF Cons.prems]] by (simp split: option.split)
qed simp

lemma elsewhere_ok: "gauge_ok (s, g) \<Longrightarrow> m \<noteq> InformerGauge \<Longrightarrow> gauge_ok (s\<lparr>world := w\<rparr>, g((m, vs) := n))"
  by (simp add: gauge_ok_def)

text \<open>The counted operations act on the informers as those without counting.\<close>

lemma stop_keys_counted_fst:
  "inf_inv (fst sg) \<Longrightarrow> fst (stop_keys_counted show_err P keys sg) = snd (stop_keys P keys (fst sg))"
proof (induction keys arbitrary: sg)
  case (Cons key keys)
  show ?case
  proof (cases "Load (informers (fst sg)) key")
    case (Some i)
    have stop: "fst (StopInformer_counted show_err k sg) = snd (StopInformer k (fst sg))" for k
      by (simp add: StopInformer_counted_def case_prod_beta)
    have "inf_inv (snd (StopInformer k (fst sg)))" for k
      using keeps_StopInformer Cons.prems unfolding keeps_def by blast
    moreover have "k = key \<Longrightarrow> \<exists>x. fst (StopInformer k (fst sg)) = Ok x" for k
      using close_and_delete_ok(1) [OF Cons.prems Some] Some by (simp add: StopInformer_def)
    moreover have "getKeyFromRequestWatch (inf_Req i) = key"
      using Cons.prems Some inf_okD(1) by (fastforce simp: inf_inv_def)
    ultimately show ?thesis
      using Some Cons.IH [of "StopInformer_counted show_err key sg"] Cons.IH [of sg] Cons.prems
      by (auto simp: stop ignoring_def handle_def split: prod.split)
  qed (use Cons in simp)
qed simp

interpretation counted: invariant_system counted_init "counted_step show_err api" gauge_ok for show_err and api :: "('w, 'x) api_scheme"
proof
  show "counted_init sg \<Longrightarrow> gauge_ok sg" for sg
    using inf_inv_init [of "fst sg"] by (simp add: counted_init_def gauge_ok_def inf_init_def)
  show "gauge_ok sg \<Longrightarrow> counted_step show_err api sg sg' \<Longrightarrow> gauge_ok sg'" for sg sg' :: "('w, 'z) op_st_scheme \<times> metrics"
    by (erule counted_step.cases)
      (auto intro: Add_counted_ok StopInformer_counted_ok stop_keys_counted_ok elsewhere_ok)
qed

text \<open>
  C35: the gauge of the informers is right. Whatever informers are added and stopped, with whatever
  failures, the gauge of a key is 1 if its informer runs and 0 otherwise: failed starts are not
  counted, and an informer is neither counted twice nor taken off twice.
\<close>

theorem informer_gauge_exact:
  assumes "reach counted_init (counted_step show_err api) (s, g)"
  shows "g (InformerGauge, [key]) = (if \<exists>i \<in> running s. Load (informers s) key \<noteq> None \<and> inf_id (the (Load (informers s) key)) = i then 1 else 0)"
proof -
  have ok: "gauge_ok (s, g)" using counted.reach_inv [OF assms] .
  then have "inf_inv s" by (simp add: gauge_ok_def)
  then have "inf_id i \<in> running s" if "Load (informers s) key = Some i" for i
    using inf_okD(5) that by (auto simp: inf_inv_def)
  then show ?thesis using ok by (cases "Load (informers s) key") (simp_all add: gauge_ok_def)
qed

theorem informer_gauge_exact_witness:
  "snd (Add_counted (\<lambda>_. ''error'') watch_api sample_watch (start_op, \<lambda>_. 0)) (InformerGauge, [getKeyFromRequestWatch sample_watch]) = 1"
proof -
  let ?sg = "Add_counted (\<lambda>_. ''error'') watch_api sample_watch (start_op, \<lambda>_. 0)"
  have "reach counted_init (counted_step (\<lambda>_. ''error'') watch_api) (start_op, \<lambda>_. 0)"
    by (rule reach_init) (simp add: counted_init_def inf_init_def start_op_def)
  then have "reach counted_init (counted_step (\<lambda>_. ''error'') watch_api) (fst ?sg, snd ?sg)"
    by (simp add: reach_step counted_step.add)
  note gauge = informer_gauge_exact [OF this, of "getKeyFromRequestWatch sample_watch"]
  have "fst ?sg = watching_op" by (simp add: Add_counted_def watching_op_def case_prod_beta Let_def)
  then show ?thesis using gauge by (simp add: watching_op_eq)
qed

end
