(* ===== verification/Buffer_Pool.thy ===== *)
theory Buffer_Pool
  imports Prelude
begin

text \<open>
  The buffers of the reverse proxy (\<^verbatim>\<open>bufferPool\<close> of
  \<^verbatim>\<open>src/resolver/internal/handler/handler.go\<close>). A buffer is a slice: its backing array and its
  length. \<^verbatim>\<open>sync.Pool\<close> is a bag of what was put: \<^verbatim>\<open>Get\<close> takes any one of it, or none even
  if it is not empty, and the garbage collector may drop from it. The proxy gets one buffer for each
  body it copies and puts it back once, after the copy.
\<close>

record buffer =
  buf_array :: nat
  buf_len :: nat

record buffer_pool =
  pool :: "buffer list"
  next_array :: nat                      \<comment> \<open>arrays from here on are not allocated\<close>

definition NewBufferPool :: buffer_pool where
  "NewBufferPool = \<lparr>pool = [], next_array = 0\<rparr>"

definition make_buffer :: "nat \<Rightarrow> buffer_pool \<Rightarrow> buffer \<times> buffer_pool" where
  "make_buffer n b = (\<lparr>buf_array = next_array b, buf_len = n\<rparr>, b\<lparr>next_array := next_array b + 1\<rparr>)"

text \<open>\<open>pick\<close> is the element \<^verbatim>\<open>sync.Pool\<close> chooses, if any.\<close>

definition Get_buffer :: "nat option \<Rightarrow> buffer_pool \<Rightarrow> buffer \<times> buffer_pool" where
  "Get_buffer pick b =
     (case pick of
        Some i \<Rightarrow> if i < length (pool b) then (pool b ! i, b\<lparr>pool := take i (pool b) @ drop (Suc i) (pool b)\<rparr>)
                  else make_buffer (32 * 1024) b
      | None \<Rightarrow> make_buffer (32 * 1024) b)"

definition Put_buffer :: "buffer \<Rightarrow> buffer_pool \<Rightarrow> buffer_pool" where
  "Put_buffer buf b = b\<lparr>pool := buf # pool b\<rparr>"

section \<open>Copies of the proxy\<close>

text \<open>The pool and the buffer of every copy in progress.\<close>

type_synonym copies = "buffer_pool \<times> (nat \<rightharpoonup> buffer)"

inductive copy_step :: "copies \<Rightarrow> copies \<Rightarrow> bool" where
  copy_starts: "held r = None \<Longrightarrow> Get_buffer pick b = (buf, b') \<Longrightarrow> copy_step (b, held) (b', held(r \<mapsto> buf))"
| copy_ends: "held r = Some buf \<Longrightarrow> copy_step (b, held) (Put_buffer buf b, held(r := None))"
| pool_collected: "kept = filter keep (pool b) \<Longrightarrow> copy_step (b, held) (b\<lparr>pool := kept\<rparr>, held)"

definition copies_init :: "copies \<Rightarrow> bool" where
  "copies_init s \<longleftrightarrow> s = (NewBufferPool, Map.empty)"

definition buffer_ok :: "buffer_pool \<Rightarrow> buffer \<Rightarrow> bool" where
  "buffer_ok b buf \<longleftrightarrow> buf_len buf = 32 * 1024 \<and> buf_array buf < next_array b"

definition copies_inv :: "copies \<Rightarrow> bool" where
  "copies_inv = (\<lambda>(b, held).
     distinct (map buf_array (pool b)) \<and> (\<forall>buf \<in> set (pool b) \<union> ran held. buffer_ok b buf) \<and>
     (\<forall>r buf. held r = Some buf \<longrightarrow> buf_array buf \<notin> buf_array ` set (pool b) \<and>
        (\<forall>r' buf'. held r' = Some buf' \<longrightarrow> r' \<noteq> r \<longrightarrow> buf_array buf' \<noteq> buf_array buf)))"

text \<open>A buffer that is handed out is of the right size, and no other buffer in use or in the pool has its array.\<close>

lemma Get_buffer_cases:
  assumes "Get_buffer pick b = (buf, b')"
  obtains (reused) xs ys where "pool b = xs @ buf # ys" and "b' = b\<lparr>pool := xs @ ys\<rparr>"
    | (made) "buf = \<lparr>buf_array = next_array b, buf_len = 32 * 1024\<rparr>" and "b' = b\<lparr>next_array := next_array b + 1\<rparr>"
proof (cases "\<exists>i. pick = Some i \<and> i < length (pool b)")
  case True
  then obtain i where i: "pick = Some i" "i < length (pool b)" by blast
  then have "pool b = take i (pool b) @ buf # drop (Suc i) (pool b)" "b' = b\<lparr>pool := take i (pool b) @ drop (Suc i) (pool b)\<rparr>"
    using assms id_take_nth_drop [OF i(2)] by (simp_all add: Get_buffer_def)
  then show ?thesis by (rule reused)
next
  case False
  then have "buf = \<lparr>buf_array = next_array b, buf_len = 32 * 1024\<rparr> \<and> b' = b\<lparr>next_array := next_array b + 1\<rparr>"
    using assms by (auto simp: Get_buffer_def make_buffer_def split: option.splits if_splits)
  then show ?thesis using made by blast
qed

lemma copies_inv_get:
  assumes inv: "copies_inv (b, held)" and free: "held r = None" and get: "Get_buffer pick b = (buf, b')"
  shows "copies_inv (b', held(r \<mapsto> buf))"
  using get
proof (cases rule: Get_buffer_cases)
  case (reused xs ys)
  have "buf_array x \<noteq> buf_array buf" if "held k = Some x" for k x
    using inv that reused(1) by (fastforce simp: copies_inv_def)
  then have "held k = Some x \<Longrightarrow> buf_array buf = buf_array x \<Longrightarrow> False" for k x by metis
  with inv free reused show ?thesis
    by (auto simp: copies_inv_def buffer_ok_def ran_def split: if_splits)
next
  case made
  have low: "buf_array x < next_array b" if "x \<in> set (pool b) \<or> held k = Some x" for x k
    using inv that by (auto simp: copies_inv_def buffer_ok_def ran_def)
  have "\<And>x. x \<in> set (pool b) \<Longrightarrow> buf_array x \<noteq> next_array b" "\<And>k x. held k = Some x \<Longrightarrow> buf_array x \<noteq> next_array b"
    using low by fastforce+
  then show ?thesis using inv free made
    by (auto simp: copies_inv_def buffer_ok_def ran_def less_Suc_eq split: if_splits)
qed

lemma copies_inv_step:
  assumes "copies_inv s" and "copy_step s t"
  shows "copies_inv t"
  using assms(2,1)
proof (cases rule: copy_step.cases)
  case (copy_starts held r pick b buf b')
  then show ?thesis using assms(1) copies_inv_get by simp
next
  case (copy_ends held r buf b)
  then show ?thesis using assms(1)
    by (auto simp: copies_inv_def buffer_ok_def Put_buffer_def ran_def split: if_splits)
next
  case (pool_collected kept keep b held)
  then show ?thesis using assms(1)
    by (auto simp: copies_inv_def buffer_ok_def distinct_map intro: inj_on_subset)
qed

interpretation copies: invariant_system copies_init copy_step copies_inv
proof unfold_locales
  show "copies_inv s" if "copies_init s" for s
    using that by (simp add: copies_init_def copies_inv_def NewBufferPool_def)
qed (rule copies_inv_step)

text \<open>
  C36: a buffer belongs to one copy at a time. However copies start and end, and whatever the pool
  hands out or drops, the buffer of a copy in progress has 32 KiB, and neither another copy nor the
  pool has a buffer on the same array: no response is copied over another one.
\<close>

theorem buffers_exclusive:
  assumes "reach copies_init copy_step (b, held)" and "held r = Some buf"
  shows "buf_len buf = 32768 \<and> buf_array buf \<notin> buf_array ` set (pool b) \<and>
    (\<forall>r' buf'. held r' = Some buf' \<longrightarrow> r' \<noteq> r \<longrightarrow> buf_array buf' \<noteq> buf_array buf)"
  using copies.reach_inv [OF assms(1)] assms(2)
  by (auto simp: copies_inv_def buffer_ok_def ran_def)

text \<open>Two copies, of which the second gets the buffer of the first, which has ended.\<close>

theorem buffers_exclusive_witness:
  "buf_len \<lparr>buf_array = 0, buf_len = 32 * 1024\<rparr> = 32768 \<and> reach copies_init copy_step
     (\<lparr>pool = [], next_array = 1\<rparr>, Map.empty(1 := None, 2 \<mapsto> \<lparr>buf_array = 0, buf_len = 32 * 1024\<rparr>))"
proof -
  let ?buf = "\<lparr>buf_array = 0, buf_len = 32 * 1024\<rparr>"
  let ?b = "\<lparr>pool = [], next_array = 1\<rparr>"
  have "reach copies_init copy_step (NewBufferPool, Map.empty)"
    by (rule reach.intros) (simp add: copies_init_def)
  moreover have "copy_step (NewBufferPool, Map.empty) (?b, Map.empty(1 \<mapsto> ?buf))"
    by (rule copy_starts [of _ _ None]) (simp_all add: Get_buffer_def make_buffer_def NewBufferPool_def)
  ultimately have "reach copies_init copy_step (?b, Map.empty(1 \<mapsto> ?buf))"
    by (rule reach.intros)
  moreover have "copy_step (?b, Map.empty(1 \<mapsto> ?buf)) (Put_buffer ?buf ?b, (Map.empty(1 \<mapsto> ?buf))(1 := None))"
    by (rule copy_ends) simp
  ultimately have "reach copies_init copy_step (Put_buffer ?buf ?b, (Map.empty(1 \<mapsto> ?buf))(1 := None))"
    by (rule reach.intros)
  moreover have "copy_step (Put_buffer ?buf ?b, (Map.empty(1 \<mapsto> ?buf))(1 := None)) (?b, Map.empty(1 := None, 2 \<mapsto> ?buf))"
    using copy_starts [of "Map.empty(1 := None)" 2 "Some 0" "Put_buffer ?buf ?b" ?buf ?b]
    by (simp add: Get_buffer_def Put_buffer_def)
  ultimately have r: "reach copies_init copy_step (?b, Map.empty(1 := None, 2 \<mapsto> ?buf))"
    by (rule reach.intros)
  from buffers_exclusive [OF r, of 2 ?buf] r show ?thesis by simp
qed

end
