(* ===== verification/Manager_Options.thy ===== *)
theory Manager_Options
  imports Kube
begin

text \<open>
  The options \<^verbatim>\<open>mainWithError\<close> of \<^verbatim>\<open>src/operator/cmd/main.go\<close> creates the manager with: the flags
  with their defaults, the settings of the TLS servers, and the scope of the cache. Parsing the command
  line belongs to package \<^verbatim>\<open>flag\<close>; the flags of the logger have no influence on the options.
\<close>

record operator_flags =
  fl_watchNamespace :: string
  fl_metricsAddr :: string
  fl_probeAddr :: string
  fl_enableLeaderElection :: bool
  fl_secureMetrics :: bool
  fl_enableHTTP2 :: bool

definition default_flags :: operator_flags where
  "default_flags =
     \<lparr>fl_watchNamespace = [], fl_metricsAddr = '':8080'', fl_probeAddr = '':8081'', fl_enableLeaderElection = False,
      fl_secureMetrics = False, fl_enableHTTP2 = False\<rparr>"

record tls_config =
  NextProtos :: "string list"

definition disableHTTP2 :: "('t tls_config_scheme) \<Rightarrow> ('t tls_config_scheme)" where
  "disableHTTP2 c = c\<lparr>NextProtos := [''http/1.1'']\<rparr>"

definition tls_opts :: "operator_flags \<Rightarrow> (('t tls_config_scheme) \<Rightarrow> ('t tls_config_scheme)) list" where
  "tls_opts fl = (if \<not> fl_enableHTTP2 fl then [disableHTTP2] else [])"

text \<open>Both servers apply their options in order to the configuration they start from.\<close>

definition tls_server :: "(('t tls_config_scheme) \<Rightarrow> ('t tls_config_scheme)) list \<Rightarrow> ('t tls_config_scheme) \<Rightarrow> ('t tls_config_scheme)" where
  "tls_server opts c = fold (\<lambda>opt c. opt c) opts c"

record 't manager_options =
  mo_CacheNamespaces :: "string set option"
  mo_MetricsBindAddress :: string
  mo_SecureServing :: bool
  mo_MetricsTLSOpts :: "('t tls_config_scheme \<Rightarrow> 't tls_config_scheme) list"
  mo_WebhookTLSOpts :: "('t tls_config_scheme \<Rightarrow> 't tls_config_scheme) list"
  mo_HealthProbeBindAddress :: string
  mo_LeaderElection :: bool
  mo_LeaderElectionID :: string
  mo_LeaderElectionReleaseOnCancel :: bool

definition manager_options :: "operator_flags \<Rightarrow> string list \<Rightarrow> 't manager_options" where
  "manager_options fl watchNamespaces =
     \<lparr>mo_CacheNamespaces = buildCacheOptions watchNamespaces, mo_MetricsBindAddress = fl_metricsAddr fl,
      mo_SecureServing = fl_secureMetrics fl, mo_MetricsTLSOpts = tls_opts fl, mo_WebhookTLSOpts = tls_opts fl,
      mo_HealthProbeBindAddress = fl_probeAddr fl, mo_LeaderElection = fl_enableLeaderElection fl,
      mo_LeaderElectionID = ''acf50383.truefoundry.io'', mo_LeaderElectionReleaseOnCancel = True\<rparr>"

text \<open>\<^verbatim>\<open>main\<close>: the exit code; \<open>None\<close> if \<^verbatim>\<open>mainWithError\<close> does not return. The runtime exits with 2 after a panic.\<close>

definition operator_exit :: "(unit outcome \<times> 's) option \<Rightarrow> int option" where
  "operator_exit r = map_option (\<lambda>(r, _). case r of Ok _ \<Rightarrow> 0 | Err _ \<Rightarrow> 1 | Panic _ \<Rightarrow> 2) r"

text \<open>
  Unless the flag \<^verbatim>\<open>enable-http2\<close> is set, the metrics server and the webhook server negotiate
  HTTP/1.1 only, whatever configuration they start from.
\<close>

lemma http2_off_by_default:
  assumes "\<not> fl_enableHTTP2 fl"
  shows "NextProtos (tls_server (mo_MetricsTLSOpts (manager_options fl ws)) c) = [''http/1.1'']"
    and "NextProtos (tls_server (mo_WebhookTLSOpts (manager_options fl ws)) c) = [''http/1.1'']"
  using assms by (simp_all add: manager_options_def tls_opts_def tls_server_def disableHTTP2_def)

end
