(* ===== verification/Http_Client.thy ===== *)
theory Http_Client
  imports Prometheus
begin

text \<open>
  The HTTP client of the Prometheus scaler (\<^verbatim>\<open>newHTTPClient\<close> of
  \<^verbatim>\<open>src/pkg/scaling/scalers/prometheus_scaler.go\<close>) and what it lets through. The network is a
  parameter: what a name resolves to, which addresses accept a connection, and what a server answers,
  which may be a redirect to anywhere. The client is used the way \<^verbatim>\<open>net\<close> and \<^verbatim>\<open>net/http\<close> document
  it: a dialer calls its control function with each resolved address before it connects to it and goes
  on with the next address after a failure; a client asks \<^verbatim>\<open>CheckRedirect\<close> before it follows a redirect,
  and fails if that returns an error.
\<close>

record http_client =
  hc_Timeout :: duration
  hc_Control :: "string \<Rightarrow> go_error option"
  hc_CheckRedirect :: "string \<Rightarrow> string list \<Rightarrow> go_error option"

definition httpClientTimeout :: duration where
  "httpClientTimeout = 5 * second"

text \<open>A dialer without a control function is one whose control function accepts every address.\<close>

definition newHTTPClient :: "libs \<Rightarrow> bool \<Rightarrow> http_client" where
  "newHTTPClient l guard =
     \<lparr>hc_Timeout = httpClientTimeout, hc_Control = (if guard then guardDialAddress l else (\<lambda>_. None)),
      hc_CheckRedirect = (\<lambda>_ _. Some (EMsg ''redirects are not allowed''))\<rparr>"

section \<open>Requests over a network\<close>

datatype server_answer = Answered http_response | Redirected string

record 'n network =
  net_resolve :: "string \<Rightarrow> 'n \<Rightarrow> string list \<times> 'n"           \<comment> \<open>of a URL: addresses with port\<close>
  net_connect :: "string \<Rightarrow> 'n \<Rightarrow> go_error option \<times> 'n"
  net_send :: "string \<Rightarrow> string \<Rightarrow> 'n \<Rightarrow> (go_error + server_answer) \<times> 'n"

text \<open>What the client does to the network: connections it tries and requests it sends.\<close>

datatype net_action = Connects string | Sends string string

fun dial_addresses ::
  "http_client \<Rightarrow> 'n network \<Rightarrow> string list \<Rightarrow> go_error \<Rightarrow> 'n \<Rightarrow> (go_error + string) \<times> net_action list \<times> 'n" where
  "dial_addresses c net [] err n = (Inl err, [], n)"
| "dial_addresses c net (a # as) err n =
     (case hc_Control c a of
        Some e \<Rightarrow> dial_addresses c net as e n
      | None \<Rightarrow>
          (case net_connect net a n of
             (None, n') \<Rightarrow> (Inr a, [Connects a], n')
           | (Some e, n') \<Rightarrow> (let (r, acts, n'') = dial_addresses c net as e n' in (r, Connects a # acts, n''))))"

definition send_once ::
  "http_client \<Rightarrow> 'n network \<Rightarrow> string \<Rightarrow> 'n \<Rightarrow> (go_error + server_answer) \<times> net_action list \<times> 'n" where
  "send_once c net url n =
     (let (as, n1) = net_resolve net url n
      in case dial_addresses c net as (EMsg ''no such host'') n1 of
           (Inl e, acts, n2) \<Rightarrow> (Inl e, acts, n2)
         | (Inr a, acts, n2) \<Rightarrow> (let (r, n3) = net_send net a url n2 in (r, acts @ [Sends a url], n3)))"

text \<open>\<^verbatim>\<open>Client.Do\<close>; \<open>via\<close> are the requests made so far. A chain of redirects that does not end is \<open>None\<close>.\<close>

partial_function (option) client_do ::
  "http_client \<Rightarrow> 'n network \<Rightarrow> string list \<Rightarrow> string \<Rightarrow> 'n \<Rightarrow> ((go_error + http_response) \<times> net_action list \<times> 'n) option" where
  "client_do c net via url n =
     (case send_once c net url n of
        (Inl e, acts, n1) \<Rightarrow> Some (Inl e, acts, n1)
      | (Inr (Answered resp), acts, n1) \<Rightarrow> Some (Inr resp, acts, n1)
      | (Inr (Redirected url'), acts, n1) \<Rightarrow>
          (case hc_CheckRedirect c url' (via @ [url]) of
             Some e \<Rightarrow> Some (Inl e, acts, n1)
           | None \<Rightarrow> Option.bind (client_do c net (via @ [url]) url' n1) (\<lambda>(r, acts', n2). Some (r, acts @ acts', n2))))"

section \<open>Properties\<close>

definition blocked_address :: "libs \<Rightarrow> string \<Rightarrow> bool" where
  "blocked_address l a \<longleftrightarrow>
     (case SplitHostPort l a of Inr (h, _) \<Rightarrow> (case ParseIP l h of Some ip \<Rightarrow> isBlockedIP ip | None \<Rightarrow> True) | Inl _ \<Rightarrow> True)"

lemma guard_blocks: "guardDialAddress l a \<noteq> None \<longleftrightarrow> blocked_address l a"
  by (simp add: guardDialAddress_def blocked_address_def split: sum.split option.split)

lemma newHTTPClient_redirect [simp]:
  "hc_CheckRedirect (newHTTPClient l guard) url via = Some (EMsg ''redirects are not allowed'')"
  by (simp add: newHTTPClient_def)

fun permitted :: "libs \<Rightarrow> bool \<Rightarrow> string \<Rightarrow> net_action \<Rightarrow> bool" where
  "permitted l guard url (Connects a) \<longleftrightarrow> guard \<longrightarrow> \<not> blocked_address l a"
| "permitted l guard url (Sends a url') \<longleftrightarrow> url' = url \<and> (guard \<longrightarrow> \<not> blocked_address l a)"

lemma dial_addresses_permitted:
  assumes "dial_addresses (newHTTPClient l guard) net as err n = (r, acts, n')"
  shows "list_all (permitted l guard url) acts \<and> (\<forall>a. r = Inr a \<longrightarrow> guard \<longrightarrow> \<not> blocked_address l a) \<and>
    filter (\<lambda>x. \<exists>a u. x = Sends a u) acts = []"
  using assms
proof (induction as arbitrary: err n r acts n')
  case (Cons a as)
  show ?case
  proof (cases "hc_Control (newHTTPClient l guard) a")
    case None
    then have ok: "guard \<longrightarrow> \<not> blocked_address l a"
      using guard_blocks [of l a] by (auto simp: newHTTPClient_def)
    obtain e n1 where con: "net_connect net a n = (e, n1)" by fastforce
    then show ?thesis using Cons None ok
      by (cases e) (auto split: prod.splits)
  next
    case (Some e)
    then have "dial_addresses (newHTTPClient l guard) net as e n = (r, acts, n')" using Cons.prems by simp
    then show ?thesis by (rule Cons.IH)
  qed
qed simp

lemma send_once_permitted:
  assumes "send_once (newHTTPClient l guard) net url n = (r, acts, n')"
  shows "list_all (permitted l guard url) acts \<and> length (filter (\<lambda>x. \<exists>a u. x = Sends a u) acts) \<le> 1"
proof -
  obtain as n1 where res: "net_resolve net url n = (as, n1)" by fastforce
  obtain d acts1 n2 where dial: "dial_addresses (newHTTPClient l guard) net as (EMsg ''no such host'') n1 = (d, acts1, n2)"
    by (cases "dial_addresses (newHTTPClient l guard) net as (EMsg ''no such host'') n1") blast
  note ok = dial_addresses_permitted [OF dial, of url]
  show ?thesis
    using assms ok by (cases d) (auto simp: send_once_def res dial split: prod.splits)
qed


end
