(* ===== verification/Spec2Isabelle.thy ===== *)
theory Spec2Isabelle
  imports Server_Start Operator_Main Resolver_Main Scale_Watcher Deep_Copy Keyed_Locks Logger Informer_Sync Metrics Buffer_Pool Manager_Options Http_Client
begin

text \<open>
  KubeElasti scales Kubernetes services to zero and wakes them on the first request. This library
  models the two programs under \<^verbatim>\<open>src/\<close>, the operator and the resolver, and proves what they promise.

  \<^bold>\<open>The program.\<close> The \<^emph>\<open>operator\<close> reconciles ElastiService resources. It watches the public service and
  the scale target of each, checks the Prometheus triggers periodically, scales idle targets to zero, and
  then switches the service to \<^emph>\<open>proxy mode\<close>: an endpoint slice sends the traffic of the public service to
  the resolver, and a private service leads to the pods. The \<^emph>\<open>resolver\<close> answers probes from a cache of the
  operator's specs, tells the operator about every other request, holds the request in a throttler until
  the target is ready, and proxies it to the private service. When the target is ready the operator
  switches the service back to \<^emph>\<open>serve mode\<close>.

  \<^bold>\<open>Theories and sources\<close>, in the order of their imports:

  \<^item> \<^verbatim>\<open>Prelude\<close>: Go strings, errors, \<^verbatim>\<open>sync.Map\<close>; the locales \<open>keyed_store\<close> and \<open>invariant_system\<close>.
  \<^item> \<^verbatim>\<open>Packages\<close>: \<^verbatim>\<open>pkg/config\<close>, \<^verbatim>\<open>pkg/values\<close>, \<^verbatim>\<open>pkg/messages/host.go\<close>, \<^verbatim>\<open>pkg/logger\<close> (masking),
    \<^verbatim>\<open>pkg/k8shelper/utils.go\<close> and the three places that decide which namespaces are watched.
  \<^item> \<^verbatim>\<open>Types\<close>: \<^verbatim>\<open>operator/api/v1alpha1/elastiservice_types.go\<close> and the parts of Kubernetes objects that
    are read or written. \<^verbatim>\<open>Wire\<close>: their JSON form and that of \<^verbatim>\<open>pkg/messages/operator.go\<close>.
    \<^verbatim>\<open>Deep_Copy\<close>: the generated \<^verbatim>\<open>zz_generated.deepcopy.go\<close> over a heap of structs and arrays.
  \<^item> \<^verbatim>\<open>Kube\<close>: programs over the API of the cluster, with errors and panics as outcomes.
    \<^verbatim>\<open>Logger\<close>: the core of \<^verbatim>\<open>pkg/logger/logger.go\<close> that reports errors to Sentry.
  \<^item> \<^verbatim>\<open>Sha256\<close>, \<^verbatim>\<open>Naming\<close>: \<^verbatim>\<open>pkg/utils/utils.go\<close>. \<^verbatim>\<open>Cron\<close>: \<^verbatim>\<open>pkg/cronutil\<close>.
  \<^item> \<^verbatim>\<open>Prometheus\<close>, \<^verbatim>\<open>Http_Client\<close>: \<^verbatim>\<open>pkg/scaling/scalers\<close>, the second its HTTP client over any network.
    \<^verbatim>\<open>Scale_Handler\<close>, \<^verbatim>\<open>Scale_Watcher\<close>: \<^verbatim>\<open>pkg/scaling/scale_handler.go\<close>,
    the second the goroutine that runs the check at every tick.
  \<^item> \<^verbatim>\<open>Informers\<close>: \<^verbatim>\<open>operator/internal/crddirectory\<close>, \<^verbatim>\<open>operator/internal/informer\<close>;
    \<^verbatim>\<open>Informer_Sync\<close>: the wait for the first sync and what may happen meanwhile; \<^verbatim>\<open>Metrics\<close>: the collectors
    of both \<^verbatim>\<open>internal/prom\<close> packages and the gauge of the informers.
    \<^verbatim>\<open>Proxy_Objects\<close>, \<^verbatim>\<open>Controller\<close>, \<^verbatim>\<open>Lifecycle\<close>: \<^verbatim>\<open>operator/internal/controller\<close>.
    \<^verbatim>\<open>Keyed_Locks\<close>: the mutexes per key of the controller and of the scale handler.
    \<^verbatim>\<open>Elasti_Server\<close>, \<^verbatim>\<open>Server_Start\<close>: \<^verbatim>\<open>operator/internal/elastiserver\<close>, its handlers, and its routes and
    shutdown. \<^verbatim>\<open>Operator_Main\<close>, \<^verbatim>\<open>Manager_Options\<close>: \<^verbatim>\<open>operator/cmd/main.go\<close>, the start, and the flags
    and options of the manager.
  \<^item> \<^verbatim>\<open>Semaphore\<close>, \<^verbatim>\<open>Breaker\<close>, \<^verbatim>\<open>Throttler\<close>, \<^verbatim>\<open>Transport\<close>: \<^verbatim>\<open>resolver/internal/throttler\<close>; the readiness
    check of \<^verbatim>\<open>pkg/k8shelper/ops.go\<close> is in \<^verbatim>\<open>Throttler\<close>.
  \<^item> \<^verbatim>\<open>Host_Manager\<close>, \<^verbatim>\<open>Rpc_Client\<close>, \<^verbatim>\<open>Crd_Cache\<close>, \<^verbatim>\<open>Probe\<close>, \<^verbatim>\<open>Handler\<close>, \<^verbatim>\<open>Buffer_Pool\<close>, \<^verbatim>\<open>Resolver_Main\<close>:
    \<^verbatim>\<open>resolver/internal/hostmanager\<close>, \<^verbatim>\<open>operator/RPCClient.go\<close>, \<^verbatim>\<open>crdcache/cache.go\<close>, \<^verbatim>\<open>crdcache/spec.go\<close>,
    \<^verbatim>\<open>handler\<close> (both) and \<^verbatim>\<open>resolver/cmd/main.go\<close>.

  A definition has the name of the function it models; a struct is a record whose fields carry a
  prefix where names clash. A part of a function has a name of its own where it is a loop, a closure or
  a goroutine.

  \<^bold>\<open>State and effects.\<close> A program of the operator or the resolver takes the state of its process and
  returns an outcome (\<open>Ok\<close>, \<open>Err\<close>, \<open>Panic\<close>) and the new state. The states extend each other:
  \<open>st\<close> (the world and the log of the requests that change something), then for the operator the scaler,
  the directory with the informers, and the controller; for the resolver the throttler (\<open>thr_st\<close>) and
  the handler (\<open>res_st\<close>). Everything that is not code of the repository is an argument: the API server
  and the clock (\<open>api\<close>), the functions of libraries (\<open>libs\<close>), the reverse proxy and the regular
  expressions (\<open>handler_env\<close>), the wait for the breaker, the context and the sleeps of a request
  (\<open>try_env\<close>), the manager (\<open>manager_env\<close>), the dialer and its back-off. Their calls may change the
  state, which is how what other requests do in between enters the model.

  \<^bold>\<open>Concurrency.\<close> The breaker and its semaphore are modelled by the atomic steps of any number of
  goroutines; the host manager, the ready cache, the operator client and the queue counts by sequences
  of operations and timer events in any order. \<^verbatim>\<open>Reconcile\<close>, \<^verbatim>\<open>switchMode\<close> and \<^verbatim>\<open>Scale\<close> run under a
  mutex per key, so that each is modelled as one sequential program: \<^verbatim>\<open>Keyed_Locks\<close> shows, for any number
  of goroutines, that bodies under one key exclude each other and that the locks cannot deadlock. The
  four goroutines of the finalizer run in any order, each as one block. The buffers of the proxy are
  modelled by the starts and ends of any number of copies.

  \<^bold>\<open>What is shown.\<close>
  \<^item> The resolver: limits and progress of the breaker, the semaphore word refines a bounded counter; a
    request is sent at most once and only to a ready target, \<^verbatim>\<open>Try\<close> refines its specification and returns
    by the deadline; unready targets end in a 408; hosts resolve to the private service and stopped hosts
    resume; probes are answered by the rules, first match first; the operator is not flooded; the dialer
    gives up after its steps; a buffer belongs to one copy at a time.
  \<^item> The operator: the scale decision, exactly which requests a scale asks for and where, the order of
    the KEDA pause; the guard of Prometheus requests and the confinement of their client; cron periods; names; the proxy objects; what a
    reconcile leaves, the finalizer comes off last, no informer is leaked, nothing outside the namespace
    is asked for, also by the watcher over any number of ticks; what a message of the resolver causes;
    what is left when \<^verbatim>\<open>main\<close> returns; the locks; the gauge of the informers counts the running ones;
    a deep copy shares nothing with its original; an error is reported once.
  \<^item> Both (this theory): the message of the resolver, on the path it is posted to, wakes the registered target, and
    the resolver's probe answers follow the operator's specs through encoding, routing and decoding.
  \<^item> Some theorems state behaviour that its comments or callers do not expect: the lost slot of the
    breaker, the lost update of the queue count, the spoiled late answer, the request dropped for a
    service of the same name in another namespace, the failed proxying that counts as served, the host
    that is proxied to itself, the stale Prometheus response, the numeric sample that panics, the period
    that never enables, the scale-up that trusts the status, the mode reported although the switch
    failed, the watch that stays on the old target, the graceful stop that blocks, the informer stopped
    during its first sync that panics, and the derived loggers whose errors are not reported.

  \<^bold>\<open>Interfaces.\<close> \<open>keyed_store\<close> (\<^verbatim>\<open>sync.Map\<close>), \<open>invariant_system\<close> (breaker, host timers, informers and
  their gauge, ready cache, locks, buffers), \<open>bounded_namer\<close> (both derived names), \<open>scaler\<close> (the interface of \<^verbatim>\<open>scaler.go\<close>) \<open>codec\<close> (every
  JSON type) and \<open>deep_copier\<close> (the generated copies) are locales, each interpreted on the definitions of the model.

  \<^bold>\<open>Loops.\<close> The loops over lists are structural. \<^verbatim>\<open>Try\<close>, the dialer, the cron loop and the redirects
  of an HTTP client are \<open>partial_function\<close>s in which not returning is \<open>None\<close>, with theorems that they return:
  for \<^verbatim>\<open>Try\<close> under a deadline, for the dialer if a back-off step uses up a step, for the cron loop if the
  schedule advances, for the client of the scaler always.
  The only fuel is the number of attempts that \<^verbatim>\<open>Scale\<close> makes to read the scale subresource, which is the
  constant of the code.

  \<^bold>\<open>Not modelled.\<close> The registration of the types with the scheme of controller-runtime; the construction
  of clients from a cluster configuration; parsing of the command line (package \<^verbatim>\<open>flag\<close>) and of the
  settings (\<^verbatim>\<open>envconfig\<close>); the initialisation of Sentry and its HTTP middleware; the listeners and
  timeouts of the \<^verbatim>\<open>net/http\<close> servers, of which the routes, protocols and shutdown are modelled; which
  messages are logged, apart from the logger itself; the sample programs under \<^verbatim>\<open>tests/\<close>. These only call
  libraries, or have no influence on what is stated.
\<close>

section \<open>A request wakes its target\<close>

text \<open>
  C3: the first request for a service that is scaled to zero wakes it. When no request for a service
  of that name is pending, the resolver posts one message, whatever its client did before. The operator's
  server, given this message on the path it was posted to, asks for the minimum number of replicas of
  the target that is registered for the service, provided the cluster accepts its requests and the
  target runs fewer replicas.
\<close>

theorem first_request_wakes_target:
  fixes s :: "('w, 'z) op_st_scheme"
  assumes "client_run l history (NewOperatorClientWithURL baseURL) = Ok c" and "Load (serviceRPCLocks c) svc = None"
    and "NewRequest l (baseURL @ incomingRequestEndpoint c) = Inr ()"
    and "GetCRD (nn_string \<lparr>nn_namespace = ns, nn_name = svc\<rparr>) (directory s) = Ok (Some crd)"
    and "willing api ns (cd_Spec crd) g sc" and "sc_StatusReplicas sc < min_replicas (cd_Spec crd)"
  shows "\<exists>body. posts (SendIncomingRequestInfo l ns svc c) = posts c @ [(baseURL @ incomingRequestEndpoint c, body)] \<and>
    (UpdateScale ns (target_resource g) (tr_Name (fst (GetScaleTargetRef (cd_Spec crd))))
      (sc\<lparr>sc_SpecReplicas := min_replicas (cd_Spec crd)\<rparr>), True)
      \<in> set (writes (snd (server_serve l api promhttp keys True (incomingRequestEndpoint c) \<lparr>rq_Method = ''POST'', rq_Body = Some body\<rparr> s)))"
proof -
  have url: "operatorURL c = baseURL" using client_run_endpoints [OF assms(1)] by (simp add: NewOperatorClientWithURL_def)
  let ?msg = "\<lparr>rc_Count = 1, rc_Svc = svc, rc_Namespace = ns\<rparr>"
  let ?req = "\<lparr>rq_Method = ''POST'', rq_Body = Some (encode_request_count ?msg)\<rparr>"
  have "Unmarshal decode_request_count zero_request_count (Some (encode_request_count ?msg)) = Inr ?msg"
    by (rule count.unmarshal) (simp add: in_int_def)
  then have "wake_target True ?req (directory s) = Some (ns, crd)"
    using assms(4) by (simp add: wake_target_def)
  from request_wakes_target [OF this assms(5,6)] show ?thesis
    unfolding server_serve_endpoints(1) [OF assms(1)] using assms(3)
    by (intro exI [of _ "encode_request_count ?msg"]) (simp add: Send_unlocked [OF assms(2)] url)
qed

theorem first_request_wakes_target_witness:
  "\<exists>body. posts (SendIncomingRequestInfo sample_libs ''shop'' ''web'' (NewOperatorClientWithURL ''http://operator'')) =
      [(''http://operator/informer/incoming-request'', body)] \<and>
    (UpdateScale ''shop'' \<lparr>gr_Group = [], gr_Resource = ''deployments''\<rparr> ''web'' \<lparr>sc_SpecReplicas = 1, sc_StatusReplicas = 0\<rparr>, True)
      \<in> set (writes (snd (server_serve sample_libs (scale_api \<lparr>sc_SpecReplicas = 0, sc_StatusReplicas = 0\<rparr>) \<lparr>rp_Status = 200, rp_Body = Text []\<rparr> []
          True ''/informer/incoming-request'' \<lparr>rq_Method = ''POST'', rq_Body = Some body\<rparr> served_op)))"
proof -
  let ?c = "NewOperatorClientWithURL ''http://operator''"
  let ?g = "\<lparr>gvk_Group = [], gvk_Version = ''apps/v1'', gvk_Kind = ''Deployment''\<rparr>"
  let ?sc = "\<lparr>sc_SpecReplicas = 0, sc_StatusReplicas = 0\<rparr>"
  have "willing (scale_api ?sc) ''shop'' (cd_Spec web_details) ?g ?sc"
    by (simp add: willing_def Let_def web_details_def sample_spec_def GetScaleTargetRef_def APIVersionStrToGVK_def scale_api_def constant_api_def)
  moreover have "client_run sample_libs [] ?c = Ok ?c" "Load (serviceRPCLocks ?c) ''web'' = None"
    "NewRequest sample_libs (''http://operator'' @ incomingRequestEndpoint ?c) = Inr ()"
    by (simp_all add: NewOperatorClientWithURL_def sample_libs_def)
  moreover have "KindToResource ''Deployment'' = ''deployments''" by code_simp
  ultimately show ?thesis
    using first_request_wakes_target [of sample_libs "[]" "''http://operator''" ?c "''web''" "''shop''" served_op web_details "scale_api ?sc"
        ?g ?sc "\<lparr>rp_Status = 200, rp_Body = Text []\<rparr>" "[]"] served_web
    by (simp add: Let_def NewOperatorClientWithURL_def web_details_def sample_spec_def min_replicas_def GetScaleTargetRef_def target_resource_def)
qed

section \<open>Probes follow the spec\<close>

lemma ListAllCRDs_keys:
  assumes "distinct keys" and "set keys = dom d"
  shows "distinct (map fst (ListAllCRDs (sort keys) (Some d)))" and "map_of (ListAllCRDs (sort keys) (Some d)) = d"
proof -
  let ?l = "ListAllCRDs (sort keys) (Some d)"
  have fst: "map fst ?l = filter (\<lambda>k. d k \<noteq> None) (sort keys)"
    by (simp add: ListAllCRDs_def Load_def map_filter_Pair)
  show dist: "distinct (map fst ?l)" using assms(1) by (simp add: fst)
  have "(k, v) \<in> set ?l \<longleftrightarrow> d k = Some v" for k v
    using assms(2) by (force simp: ListAllCRDs_def List.map_filter_def Load_def image_iff)
  then show "map_of ?l = d"
    using dist by (intro ext) (metis map_of_SomeD map_of_is_SomeI not_None_eq)
qed

text \<open>The answer of the operator, decoded by the resolver.\<close>

lemma decode_cache_reply:
  assumes "distinct (map fst crds)"
  shows "Unmarshal decode_cache Map.empty (Some (encode_cache (map (\<lambda>(k, crd). (k, cache_entry_of l crd)) crds))) =
    Inr (map_option (cache_entry_of l) \<circ> map_of crds)"
proof -
  let ?es = "map (\<lambda>(k, crd). (k, cache_entry_of l crd)) crds"
  have "decode_entries zero_entry decode_entry (map (\<lambda>(k, x). (k, encode_entry x)) ?es) Map.empty = (Map.empty ++ map_of ?es, False)"
    using assms by (intro entry.entries) (auto simp: list_all_iff cache_entry_of_def comp_def case_prod_unfold)
  moreover have "map_of ?es = map_option (cache_entry_of l) \<circ> map_of crds"
    by (induction crds) (auto simp: fun_eq_iff)
  ultimately show ?thesis
    by (simp add: Unmarshal_def encode_cache_def decode_cache_def EqualFold_def)
qed

text \<open>A reply of the operator's server as its client sees it; a plain text is no JSON value.\<close>

definition answer_of :: "reply \<Rightarrow> http_response" where
  "answer_of r = \<lparr>http_status = rp_Status r, http_body = (case rp_Body r of Json j \<Rightarrow> Some j | Text _ \<Rightarrow> None)\<rparr>"

text \<open>
  C22: the resolver answers probes by the rules of the ElastiService the operator has registered. After
  a fetch of the answer of the operator's server on the path the resolver asks, a request for a service of the directory is matched against the
  rules of the registered spec, in their order, and a request for any other service against none.
\<close>

theorem probes_follow_operator_spec:
  fixes s :: "('w, 'z) op_st_scheme"
  assumes "directory s = Some d" and "distinct keys" and "set keys = dom d" and "\<And>k crd. d k = Some crd \<Longrightarrow> spec_ok (cd_Spec crd)"
    and "server_serve l api promhttp keys sent elastiServiceCacheEndpoint \<lparr>rq_Method = ''GET'', rq_Body = None\<rparr> s = (Ok reply, s')"
    and "NewRequest l (operatorURL (operatorRPC c) @ elastiServiceCacheEndpoint) = Inr ()"
  shows "probe_answer env req host (Some (snd (fetch l (Inr (answer_of reply)) c))) =
    (case d (h_Namespace host @ ''/'' @ SourceService host) of
       None \<Rightarrow> None
     | Some crd \<Rightarrow> map_option rule_answer (find (rule_matches (he_Compile env) req) (ProbeResponse (cd_Spec crd))))"
proof -
  let ?crds = "ListAllCRDs (sort keys) (Some d)"
  have "answer_of reply = \<lparr>http_status = 200, http_body = Some (encode_cache (map (\<lambda>(k, crd). (k, cache_entry_of l crd)) ?crds))\<rparr>"
    using assms(1,5) by (auto simp: server_serve_endpoints(2) crdCacheHandler_def answer_of_def Let_def)
  then have "GetElastiServiceCache l (Inr (answer_of reply)) (operatorRPC c) = Inr (map_option (cache_entry_of l) \<circ> d)"
    using decode_cache_reply [OF ListAllCRDs_keys(1) [OF assms(2,3)], of l] ListAllCRDs_keys(2) [OF assms(2,3)] assms(6)
    by (simp add: GetElastiServiceCache_def)
  then have "cc_cache (snd (fetch l (Inr (answer_of reply)) c)) = map_option (cache_entry_of l) \<circ> d"
    by (simp add: fetch_cache)
  then show ?thesis
    using assms(4) by (auto simp: probe_answer_def GetElastiService_def Load_def cache_entry_of_def MatchProbeResponse_encoded
        split: option.split)
qed

theorem probes_follow_operator_spec_witness:
  "probe_answer sample_henv probe_request web_host
     (Some (snd (fetch sample_libs (Inr (answer_of (case fst (server_serve sample_libs (constant_api numeric_response) \<lparr>rp_Status = 200, rp_Body = Text []\<rparr>
          [''shop/web''] True ''/crd-cache'' \<lparr>rq_Method = ''GET'', rq_Body = None\<rparr>
          (start_op\<lparr>directory := Some (Store sm_empty ''shop/web'' (web_details\<lparr>cd_Spec := probe_spec\<rparr>))\<rparr>)) of Ok r \<Rightarrow> r)))
        (New (NewOperatorClientWithURL ''http://operator'') 0)))) = Some (''ok'', 200)"
proof -
  let ?d = "Store sm_empty ''shop/web'' (web_details\<lparr>cd_Spec := probe_spec\<rparr>)"
  let ?s = "start_op\<lparr>directory := Some ?d\<rparr>"
  let ?c = "New (NewOperatorClientWithURL ''http://operator'') 0"
  let ?serve = "server_serve sample_libs (constant_api numeric_response) \<lparr>rp_Status = 200, rp_Body = Text []\<rparr> [''shop/web''] True"
  obtain reply where reply: "?serve ''/crd-cache'' \<lparr>rq_Method = ''GET'', rq_Body = None\<rparr> ?s = (Ok reply, ?s)"
    by (simp add: server_serve_def server_mux_def crdCacheHandler_def Let_def)
  have d: "?d k = (if k = ''shop/web'' then Some (web_details\<lparr>cd_Spec := probe_spec\<rparr>) else None)" for k
    by (simp add: Store_def sm_empty_def)
  have "probe_answer sample_henv probe_request web_host (Some (snd (fetch sample_libs (Inr (answer_of reply)) ?c))) =
      (case ?d (h_Namespace web_host @ ''/'' @ SourceService web_host) of
         None \<Rightarrow> None
       | Some crd \<Rightarrow> map_option rule_answer (find (rule_matches (he_Compile sample_henv) probe_request) (ProbeResponse (cd_Spec crd))))"
  proof (rule probes_follow_operator_spec [where s = ?s and keys = "[''shop/web'']" and api = "constant_api numeric_response"
        and promhttp = "\<lparr>rp_Status = 200, rp_Body = Text []\<rparr>" and sent = True])
    show "set [''shop/web''] = dom ?d" by (auto simp: d dom_def split: if_splits)
    show "spec_ok (cd_Spec crd)" if "?d k = Some crd" for k crd
    proof -
      have "cd_Spec crd = probe_spec" using that by (auto simp: d split: if_splits)
      then show ?thesis by (simp add: spec_ok_def probe_spec_def zero_spec_def in_int_def rule_ok_def)
    qed
  qed (use reply in \<open>simp_all add: sample_libs_def elastiServiceCacheEndpoint_def\<close>)
  moreover have "map_option rule_answer (find (rule_matches (\<lambda>_. Inl (EMsg ''unsupported'')) probe_request) (ProbeResponse probe_spec)) = Some (''ok'', 200)"
    by code_simp
  ultimately show ?thesis by (simp add: reply d web_host_def sample_henv_def)
qed

end
